theory Spec2Isabelle
  imports Complex_Main
begin

section \<open>The smoke-test NLP of \<open>test_have_pynumero.py\<close>\<close>

text \<open>
  The fixture builds a Pyomo model with a variable \<open>x\<close> indexed by \<open>[1, 2, 3]\<close>, two
  constraints and an objective.  Pyomo keeps each body as an expression tree; the
  operators that occur in the fixture are sum, difference, product and integer power.
  All numbers that occur are small integers, which binary floating point represents
  exactly, so the values are taken in \<open>real\<close>.
\<close>

datatype expr =
    Var nat
  | Num real
  | Add expr expr
  | Sub expr expr
  | Mul expr expr
  | PowN expr nat

fun eval :: "(nat \<Rightarrow> real) \<Rightarrow> expr \<Rightarrow> real" where
  "eval x (Var i) = x i"
| "eval x (Num c) = c"
| "eval x (Add a b) = eval x a + eval x b"
| "eval x (Sub a b) = eval x a - eval x b"
| "eval x (Mul a b) = eval x a * eval x b"
| "eval x (PowN a n) = eval x a ^ n"

text \<open>
  The first partial derivative of an expression with respect to \<open>x[i]\<close>, by the usual
  rules.  The test obtains it from the automatic differentiation behind
  \<open>evaluate_jacobian\<close>; lemma \<open>partial_is_derivative\<close> below ties this function to the
  analytic derivative.
\<close>

fun partial :: "(nat \<Rightarrow> real) \<Rightarrow> nat \<Rightarrow> expr \<Rightarrow> real" where
  "partial x i (Var j) = (if i = j then 1 else 0)"
| "partial x i (Num c) = 0"
| "partial x i (Add a b) = partial x i a + partial x i b"
| "partial x i (Sub a b) = partial x i a - partial x i b"
| "partial x i (Mul a b) = partial x i a * eval x b + eval x a * partial x i b"
| "partial x i (PowN a n) = of_nat n * eval x a ^ (n - 1) * partial x i a"

datatype relation = EQ | LE

record constraint_data =
  body :: expr
  rel :: relation
  rhs :: real

text \<open>\<open>m.x = pyo.Var([1, 2, 3], initialize=4.0)\<close>\<close>

definition m_x :: "nat \<Rightarrow> real" where
  "m_x i = 4"

text \<open>\<open>m.c = pyo.Constraint(expr=m.x[3] ** 2 + m.x[1] == 25)\<close>\<close>

definition m_c :: constraint_data where
  "m_c = \<lparr>body = Add (PowN (Var 3) 2) (Var 1), rel = EQ, rhs = 25\<rparr>"

text \<open>\<open>m.d = pyo.Constraint(expr=m.x[2] ** 2 + m.x[1] <= 18.0)\<close>\<close>

definition m_d :: constraint_data where
  "m_d = \<lparr>body = Add (PowN (Var 2) 2) (Var 1), rel = LE, rhs = 18\<rparr>"

text \<open>\<open>m.o = pyo.Objective(expr=m.x[1] ** 4 - 3 * m.x[1] * m.x[2] ** 3 + m.x[3] ** 2 - 8.0)\<close>,
  with Python's precedence and left association.\<close>

definition m_o :: expr where
  "m_o = Sub (Add (Sub (PowN (Var 1) 4) (Mul (Mul (Num 3) (Var 1)) (PowN (Var 2) 3)))
                  (PowN (Var 3) 2))
             (Num 8)"

definition evaluate_objective :: real where
  "evaluate_objective = eval m_x m_o"

text \<open>
  One row of the Jacobian: the partial derivatives of a constraint body, one per
  column.  The order of the columns is chosen by the NLP interface, not by the fixture,
  so it is an argument.
\<close>

fun jacobian_row :: "(nat \<Rightarrow> real) \<Rightarrow> nat list \<Rightarrow> expr \<Rightarrow> real list" where
  "jacobian_row x [] e = []"
| "jacobian_row x (v # vs) e = partial x v e # jacobian_row x vs e"

definition evaluate_jacobian :: "nat list \<Rightarrow> real list list" where
  "evaluate_jacobian cols = [jacobian_row m_x cols (body m_c), jacobian_row m_x cols (body m_d)]"

text \<open>The first constraint in the words of the specification: \<open>x1\<^sup>2 + x3\<^sup>2 = 25\<close>.\<close>

definition spec_c :: constraint_data where
  "spec_c = \<lparr>body = Add (PowN (Var 1) 2) (PowN (Var 3) 2), rel = EQ, rhs = 25\<rparr>"


section \<open>The activity-coefficient property package\<close>

subsection \<open>Variables, constraints and state blocks\<close>

text \<open>
  A Pyomo variable carries a value and a \<open>fixed\<close> flag; \<open>v.fix(x)\<close> sets both,
  \<open>v.unfix()\<close> clears the flag.  A constraint component carries the indices of its
  members and an \<open>active\<close> flag.
\<close>

record var_data =
  val :: real
  fixed :: bool

definition new_var :: "real \<Rightarrow> var_data" where
  "new_var x = \<lparr>val = x, fixed = False\<rparr>"

definition fix_var :: "real \<Rightarrow> var_data \<Rightarrow> var_data" where
  "fix_var x v = v\<lparr>val := x, fixed := True\<rparr>"

definition unfix_var :: "var_data \<Rightarrow> var_data" where
  "unfix_var v = v\<lparr>fixed := False\<rparr>"

type_synonym comp = string
type_synonym key = nat

datatype idx = Scalar | Ix comp | Ix2 comp comp

record con =
  members :: "idx list"
  active :: bool

datatype valid_phase_t = Liq | Vap | Vap_Liq | Liq_Vap

datatype activity_model = Ideal | NRTL | Wilson

text \<open>
  The options an element of the state block reads: \<open>config.defined_state\<close>,
  \<open>config.has_phase_equilibrium\<close>, and from the parameter block
  \<open>config.parameters.config.valid_phase\<close> and
  \<open>config.parameters.config.activity_coeff_model\<close>.
\<close>

record config =
  defined_state :: bool
  has_phase_equilibrium :: bool
  valid_phase :: valid_phase_t
  activity_coeff_model :: activity_model

text \<open>
  One element \<open>blk[k]\<close> of the indexed state block.  The state variables are always
  there; \<open>activity_coeff_comp\<close> and \<open>Gij_coeff\<close> exist only when \<open>_make_NRTL_eq\<close> or
  \<open>_make_Wilson_eq\<close> has run, so they are optional, and reading a missing one raises
  (neither name is in the package metadata, so nothing builds it on demand).
  \<open>constraints\<close> holds the constraint components that exist, by local name: it is
  what \<open>component_objects(Constraint)\<close> ranges over.  The other variables of the
  package (phase flows, \<open>alpha\<close>, \<open>tau\<close>, \<open>A\<close>, \<open>B\<close>, ...) are never fixed or unfixed
  by the routines below and are left out.
\<close>

record sbd =
  config :: config
  component_list :: "comp list"
  flow_mol :: var_data
  mole_frac :: "comp \<Rightarrow> var_data"
  pressure :: var_data
  temperature :: var_data
  activity_coeff_comp :: "(comp \<Rightarrow> var_data) option"
  Gij_coeff :: "(comp \<times> comp \<Rightarrow> var_data) option"
  constraints :: "string \<rightharpoonup> con"

text \<open>The indexed block: its keys in iteration order, each with its element.\<close>

type_synonym blk = "(key \<times> sbd) list"

datatype error =
    AttributeError
  | KeyError
  | UnboundLocalError
  | ZeroDivisionError
  | ConfigurationError
  | DegreesOfFreedomException
  | AssertionError

definition and_then :: "error + 'a \<Rightarrow> ('a \<Rightarrow> error + 'b) \<Rightarrow> error + 'b" where
  "and_then r f = (case r of Inl e \<Rightarrow> Inl e | Inr x \<Rightarrow> f x)"

text \<open>\<open>for k in blk.keys(): ...\<close> with a body that may raise.\<close>

fun for_each :: "(sbd \<Rightarrow> error + sbd) \<Rightarrow> blk \<Rightarrow> error + blk" where
  "for_each f [] = Inr []"
| "for_each f ((k, b) # rest) =
     and_then (f b) (\<lambda>b'. and_then (for_each f rest) (\<lambda>rest'. Inr ((k, b') # rest')))"

text \<open>\<open>for k in blk.keys(): ...\<close> with a body that cannot raise.\<close>

definition for_all_elems :: "(sbd \<Rightarrow> sbd) \<Rightarrow> blk \<Rightarrow> blk" where
  "for_all_elems f blk = map (\<lambda>(k, b). (k, f b)) blk"

text \<open>\<open>blk[k].name.activate()\<close> or \<open>.deactivate()\<close> on an attribute read directly.\<close>

definition set_active_attr :: "bool \<Rightarrow> string \<Rightarrow> sbd \<Rightarrow> error + sbd" where
  "set_active_attr a n b =
     (case constraints b n of
        None \<Rightarrow> Inl AttributeError
      | Some c \<Rightarrow> Inr (constraints_update (\<lambda>cs. cs(n \<mapsto> c\<lparr>active := a\<rparr>)) b))"

text \<open>
  \<open>for c in blk[k].component_objects(Constraint): if c.local_name in names: ...\<close>
\<close>

definition set_active_named :: "bool \<Rightarrow> string list \<Rightarrow> sbd \<Rightarrow> sbd" where
  "set_active_named a names b =
     constraints_update
       (\<lambda>cs n. case cs n of
                 None \<Rightarrow> None
               | Some c \<Rightarrow> Some (if n \<in> set names then c\<lparr>active := a\<rparr> else c)) b"



subsection \<open>Construction of a state block element (\<open>build\<close>)\<close>

definition add_constraint :: "string \<Rightarrow> idx list \<Rightarrow> sbd \<Rightarrow> sbd" where
  "add_constraint n ixs b =
     constraints_update (\<lambda>cs. cs(n \<mapsto> \<lparr>members = ixs, active = True\<rparr>)) b"

text \<open>\<open>_make_state_vars\<close>: the four state variables with their initial values.\<close>

definition make_state_vars :: "config \<Rightarrow> comp list \<Rightarrow> sbd" where
  "make_state_vars c comps =
     \<lparr>config = c, component_list = comps,
      flow_mol = new_var 1,
      mole_frac = (\<lambda>j. new_var (1 / real (length comps))),
      pressure = new_var 101325,
      temperature = new_var 298.15,
      activity_coeff_comp = None,
      Gij_coeff = None,
      constraints = Map.empty\<rparr>"

definition add_mol_frac_out :: "sbd \<Rightarrow> sbd" where
  "add_mol_frac_out b =
     (if \<not> defined_state (config b) then add_constraint ''eq_mol_frac_out'' [Scalar] b else b)"

definition make_liq_phase_eq :: "sbd \<Rightarrow> sbd" where
  "make_liq_phase_eq b =
     add_mol_frac_out
       (add_constraint ''eq_comp'' (map Ix (component_list b))
         (add_constraint ''eq_total'' [Scalar] b))"

definition make_vap_phase_eq :: "sbd \<Rightarrow> sbd" where
  "make_vap_phase_eq b =
     add_mol_frac_out
       (add_constraint ''eq_comp'' (map Ix (component_list b))
         (add_constraint ''eq_total'' [Scalar] b))"

text \<open>
  \<open>_make_flash_eq\<close>.  The rules of \<open>_t1_constraint\<close>, \<open>_teq_constraint\<close> and
  \<open>eq_phase_equilibrium\<close> read \<open>temperature_bubble\<close>, \<open>temperature_dew\<close> and the
  fugacities; these are built on demand by \<open>_temperature_bubble\<close>,
  \<open>_temperature_dew\<close> and \<open>_pressure_sat\<close>, which add \<open>eq_temperature_bubble\<close>,
  \<open>eq_temperature_dew\<close> and \<open>eq_P_vap\<close>.
\<close>

definition make_flash_eq :: "sbd \<Rightarrow> sbd" where
  "make_flash_eq b =
     (let comps = component_list b;
          b = add_constraint ''eq_total'' [Scalar] b;
          b = add_constraint ''eq_comp'' (map Ix comps) b;
          b = add_constraint ''eq_sum_mol_frac'' [Scalar] b;
          b = add_mol_frac_out b;
          b = add_constraint ''eq_temperature_bubble'' [Scalar] b;
          b = add_constraint ''_t1_constraint'' [Scalar] b;
          b = add_constraint ''eq_temperature_dew'' [Scalar] b;
          b = add_constraint ''_teq_constraint'' [Scalar] b;
          b = add_constraint ''eq_P_vap'' (map Ix comps) b
      in add_constraint ''eq_phase_equilibrium'' (map Ix comps) b)"

text \<open>
  \<open>rule_Gij_coeff\<close> is called for every pair \<open>(i, j)\<close> of components: off the diagonal
  it returns an equation, on the diagonal it fixes \<open>Gij_coeff[i, j]\<close> at \<open>1\<close> and returns
  \<open>Constraint.Skip\<close>, so that no member is generated.
\<close>

definition Gij_coeff_var :: "comp \<times> comp \<Rightarrow> var_data" where
  "Gij_coeff_var = (\<lambda>(i, j). if i \<noteq> j then new_var 1 else fix_var 1 (new_var 1))"

definition Gij_coeff_members :: "comp list \<Rightarrow> idx list" where
  "Gij_coeff_members comps =
     concat (map (\<lambda>i. concat (map (\<lambda>j. if i \<noteq> j then [Ix2 i j] else []) comps)) comps)"

definition make_NRTL_eq :: "sbd \<Rightarrow> sbd" where
  "make_NRTL_eq b =
     (let comps = component_list b;
          b = b\<lparr>Gij_coeff := Some Gij_coeff_var,
                activity_coeff_comp := Some (\<lambda>j. new_var 1)\<rparr>;
          b = add_constraint ''eq_Gij_coeff'' (Gij_coeff_members comps) b;
          b = add_constraint ''eq_A'' (map Ix comps) b;
          b = add_constraint ''eq_B'' (map Ix comps) b
      in add_constraint ''eq_activity_coeff'' (map Ix comps) b)"

definition make_Wilson_eq :: "sbd \<Rightarrow> sbd" where
  "make_Wilson_eq b =
     (let comps = component_list b;
          b = b\<lparr>Gij_coeff := Some Gij_coeff_var,
                activity_coeff_comp := Some (\<lambda>j. new_var 1)\<rparr>;
          b = add_constraint ''eq_Gij_coeff'' (Gij_coeff_members comps) b;
          b = add_constraint ''eq_A'' (map Ix comps) b;
          b = add_constraint ''eq_B'' (map Ix comps) b
      in add_constraint ''eq_activity_coeff'' (map Ix comps) b)"

definition two_phase :: "config \<Rightarrow> bool" where
  "two_phase c \<longleftrightarrow>
     has_phase_equilibrium c \<or> valid_phase c = Liq_Vap \<or> valid_phase c = Vap_Liq"

text \<open>
  \<open>ActivityCoeffStateBlockData.build\<close>.  The initial value of \<open>mole_frac\<close> is
  \<open>1 / len(component_list)\<close>, which raises for an empty component list.
\<close>

definition build :: "config \<Rightarrow> comp list \<Rightarrow> error + sbd" where
  "build c comps =
     (if has_phase_equilibrium c \<and> (valid_phase c = Vap \<or> valid_phase c = Liq)
      then Inl ConfigurationError
      else if comps = [] then Inl ZeroDivisionError
      else
        (let b = make_state_vars c comps;
             b = (if \<not> has_phase_equilibrium c \<and> valid_phase c = Liq
                  then make_liq_phase_eq b else b);
             b = (if two_phase c
                  then make_flash_eq
                         ((if activity_coeff_model c = Wilson then make_Wilson_eq else id)
                           ((if activity_coeff_model c = NRTL then make_NRTL_eq else id) b))
                  else b);
             b = (if \<not> has_phase_equilibrium c \<and> valid_phase c = Vap
                  then make_vap_phase_eq b else b)
         in Inr b))"


subsection \<open>The initialisation routine (\<open>_ActivityCoeffStateBlock.initialize\<close>)\<close>

record init_args =
  arg_flow_mol :: "real option"
  arg_mole_frac :: "(comp \<rightharpoonup> real) option"
  arg_temperature :: "real option"
  arg_pressure :: "real option"
  hold_state :: bool
  state_vars_fixed :: bool
  outlvl :: int

text \<open>The dictionary \<open>flags\<close> with its four entries.\<close>

record flags =
  Fflag :: "key \<rightharpoonup> bool"
  Xflag :: "key \<times> comp \<rightharpoonup> bool"
  Pflag :: "key \<rightharpoonup> bool"
  Tflag :: "key \<rightharpoonup> bool"

text \<open>
  What the routine does to the world besides changing the block: it calls the solver
  (\<open>Solve i b\<close>: the call of step \<open>i\<close>, on the block \<open>b\<close> as it is at that moment) and
  writes log records.
\<close>

datatype level = INFO | WARNING

datatype msg =
    Step_completed nat
  | Step_failed nat
  | Step_skipped nat
  | Initialisation_completed
  | State_released

datatype event = Solve nat blk | Log level msg

text \<open>
  The solver's termination condition.  The routine only asks whether it is
  \<open>optimal\<close>; the other values of the enumeration stand behind \<open>other_condition\<close>.
\<close>

datatype termination_condition =
    optimal
  | maxIterations
  | infeasible
  | other_condition string

text \<open>
  The two functions of the modelling framework that the routine calls are arguments:
  \<open>degrees_of_freedom\<close> of one element, and \<open>solve_indexed_blocks\<close>, which receives the
  block and returns it as the solver leaves it, with the termination condition.  The
  number says which of the five calls of the routine it is.
\<close>

type_synonym dof_fun = "sbd \<Rightarrow> int"
type_synonym solver = "nat \<Rightarrow> blk \<Rightarrow> blk \<times> termination_condition"

text \<open>Lines 207-209: the outlet constraint is switched off for the duration.\<close>

definition deactivate_mol_frac_out :: "sbd \<Rightarrow> error + sbd" where
  "deactivate_mol_frac_out b =
     (if \<not> defined_state (config b) then set_active_attr False ''eq_mol_frac_out'' b
      else Inr b)"

text \<open>Lines 228-237: the loop over the components of one element.\<close>

fun fix_mole_frac ::
  "(comp \<rightharpoonup> real) option \<Rightarrow> key \<Rightarrow> comp list \<Rightarrow> sbd \<Rightarrow> (key \<times> comp \<rightharpoonup> bool)
   \<Rightarrow> error + sbd \<times> (key \<times> comp \<rightharpoonup> bool)" where
  "fix_mole_frac mf k [] b X = Inr (b, X)"
| "fix_mole_frac mf k (j # js) b X =
     (if fixed (mole_frac b j) then fix_mole_frac mf k js b (X((k, j) \<mapsto> True))
      else
        (case mf of
           None \<Rightarrow>
             fix_mole_frac mf k js
               (mole_frac_update
                  (\<lambda>m. m(j := fix_var (1 / real (length (component_list b))) (m j))) b)
               (X((k, j) \<mapsto> False))
         | Some d \<Rightarrow>
             (case d j of
                None \<Rightarrow> Inl KeyError
              | Some x \<Rightarrow>
                  fix_mole_frac mf k js
                    (mole_frac_update (\<lambda>m. m(j := fix_var x (m j))) b)
                    (X((k, j) \<mapsto> False)))))"

text \<open>Lines 219-226, 239-246 and 248-255: the three scalar state variables.\<close>

definition fix_flow_mol :: "real option \<Rightarrow> key \<Rightarrow> sbd \<Rightarrow> flags \<Rightarrow> sbd \<times> flags" where
  "fix_flow_mol x k b fl =
     (if fixed (flow_mol b) then (b, fl\<lparr>Fflag := (Fflag fl)(k \<mapsto> True)\<rparr>)
      else (flow_mol_update (fix_var (case x of None \<Rightarrow> 1 | Some y \<Rightarrow> y)) b,
            fl\<lparr>Fflag := (Fflag fl)(k \<mapsto> False)\<rparr>))"

definition fix_pressure :: "real option \<Rightarrow> key \<Rightarrow> sbd \<Rightarrow> flags \<Rightarrow> sbd \<times> flags" where
  "fix_pressure x k b fl =
     (if fixed (pressure b) then (b, fl\<lparr>Pflag := (Pflag fl)(k \<mapsto> True)\<rparr>)
      else (pressure_update (fix_var (case x of None \<Rightarrow> 101325 | Some y \<Rightarrow> y)) b,
            fl\<lparr>Pflag := (Pflag fl)(k \<mapsto> False)\<rparr>))"

definition fix_temperature :: "real option \<Rightarrow> key \<Rightarrow> sbd \<Rightarrow> flags \<Rightarrow> sbd \<times> flags" where
  "fix_temperature x k b fl =
     (if fixed (temperature b) then (b, fl\<lparr>Tflag := (Tflag fl)(k \<mapsto> True)\<rparr>)
      else (temperature_update (fix_var (case x of None \<Rightarrow> 300 | Some y \<Rightarrow> y)) b,
            fl\<lparr>Tflag := (Tflag fl)(k \<mapsto> False)\<rparr>))"

text \<open>Lines 219-255: one pass of the loop over the keys.\<close>

definition fix_state_vars_elem ::
  "init_args \<Rightarrow> key \<Rightarrow> sbd \<Rightarrow> flags \<Rightarrow> error + sbd \<times> flags" where
  "fix_state_vars_elem a k b fl =
     (case fix_flow_mol (arg_flow_mol a) k b fl of
        (b, fl) \<Rightarrow>
          and_then (fix_mole_frac (arg_mole_frac a) k (component_list b) b (Xflag fl))
            (\<lambda>(b, X).
               case fix_pressure (arg_pressure a) k b (fl\<lparr>Xflag := X\<rparr>) of
                 (b, fl) \<Rightarrow> Inr (fix_temperature (arg_temperature a) k b fl)))"

fun fix_state_vars :: "init_args \<Rightarrow> blk \<Rightarrow> flags \<Rightarrow> error + blk \<times> flags" where
  "fix_state_vars a [] fl = Inr ([], fl)"
| "fix_state_vars a ((k, b) # rest) fl =
     and_then (fix_state_vars_elem a k b fl)
       (\<lambda>(b', fl'). and_then (fix_state_vars a rest fl')
          (\<lambda>(rest', fl''). Inr ((k, b') # rest', fl'')))"

definition empty_flags :: flags where
  "empty_flags = \<lparr>Fflag = Map.empty, Xflag = Map.empty, Pflag = Map.empty, Tflag = Map.empty\<rparr>"

text \<open>Lines 264-268: with \<open>state_vars_fixed\<close> every element must be square.\<close>

fun check_dof :: "dof_fun \<Rightarrow> blk \<Rightarrow> error + unit" where
  "check_dof dof [] = Inr ()"
| "check_dof dof ((k, b) # rest) =
     (if dof b \<noteq> 0 then Inl DegreesOfFreedomException else check_dof dof rest)"

text \<open>One call of \<open>solve_indexed_blocks\<close> and the log record that follows it:
  with \<open>outlvl > 0\<close>, an \<open>info\<close> record when the termination condition is
  \<open>optimal\<close> and a \<open>warning\<close> record otherwise.\<close>

definition step_log :: "nat \<Rightarrow> int \<Rightarrow> termination_condition \<Rightarrow> event list" where
  "step_log i lvl tc =
     (if lvl > 0
      then [if tc = optimal then Log INFO (Step_completed i) else Log WARNING (Step_failed i)]
      else [])"

definition solve_step :: "solver \<Rightarrow> nat \<Rightarrow> int \<Rightarrow> blk \<Rightarrow> blk \<times> event list" where
  "solve_step solve i lvl blk =
     (case solve i blk of (blk', tc) \<Rightarrow> (blk', Solve i blk # step_log i lvl tc))"

definition first_solve_names :: "string list" where
  "first_solve_names =
     [''eq_total'', ''eq_comp'', ''eq_sum_mol_frac'', ''eq_phase_equilibrium'',
      ''eq_enth_mol_phase'', ''eq_entr_mol_phase'', ''eq_Gij_coeff'', ''eq_A'', ''eq_B'',
      ''eq_activity_coeff'']"

text \<open>
  Lines 301-326.  The test reads \<open>blk[k]\<close> with the \<open>k\<close> that the loops before it left
  behind, the last key; with no key at all \<open>k\<close> was never bound.
\<close>

definition step1 :: "solver \<Rightarrow> int \<Rightarrow> blk \<Rightarrow> error + blk \<times> event list" where
  "step1 solve lvl blk =
     (if blk = [] then Inl UnboundLocalError
      else if two_phase (config (snd (last blk))) then Inr (solve_step solve 1 lvl blk)
      else Inr (blk, if lvl > 0 then [Log INFO (Step_skipped 1)] else []))"

text \<open>\<open>blk[k].activity_coeff_comp.fix(1)\<close> and \<open>.unfix()\<close>, on every member.\<close>

definition fix_activity_coeff :: "sbd \<Rightarrow> error + sbd" where
  "fix_activity_coeff b =
     (case activity_coeff_comp b of
        None \<Rightarrow> Inl AttributeError
      | Some g \<Rightarrow> Inr (b\<lparr>activity_coeff_comp := Some (\<lambda>j. fix_var 1 (g j))\<rparr>))"

definition unfix_activity_coeff :: "sbd \<Rightarrow> error + sbd" where
  "unfix_activity_coeff b =
     (case activity_coeff_comp b of
        None \<Rightarrow> Inl AttributeError
      | Some g \<Rightarrow> Inr (b\<lparr>activity_coeff_comp := Some (\<lambda>j. unfix_var (g j))\<rparr>))"

text \<open>Lines 329-339.\<close>

definition prepare_step2 :: "sbd \<Rightarrow> error + sbd" where
  "prepare_step2 b =
     (let b = set_active_named True
                [''eq_total'', ''eq_comp'', ''eq_sum_mol_frac'', ''eq_phase_equilibrium''] b
      in if activity_coeff_model (config b) \<noteq> Ideal then fix_activity_coeff b else Inr b)"

text \<open>Lines 354-361.\<close>

definition prepare_step3 :: "sbd \<Rightarrow> sbd" where
  "prepare_step3 b =
     (if activity_coeff_model (config b) \<noteq> Ideal
      then set_active_named True [''eq_Gij_coeff'', ''eq_A'', ''eq_B''] b
      else b)"

text \<open>Lines 373-377.\<close>

definition prepare_step4 :: "sbd \<Rightarrow> error + sbd" where
  "prepare_step4 b =
     (if activity_coeff_model (config b) \<noteq> Ideal
      then and_then (set_active_attr True ''eq_activity_coeff'' b) unfix_activity_coeff
      else Inr b)"

text \<open>Lines 389-393.\<close>

definition prepare_step5 :: "sbd \<Rightarrow> sbd" where
  "prepare_step5 b = set_active_named True [''eq_enth_mol_phase'', ''eq_entr_mol_phase''] b"

text \<open>Lines 405-407.\<close>

definition activate_mol_frac_out :: "sbd \<Rightarrow> error + sbd" where
  "activate_mol_frac_out b =
     (if \<not> defined_state (config b) then set_active_attr True ''eq_mol_frac_out'' b
      else Inr b)"

text \<open>
  \<open>release_state\<close>, lines 419-446.  A flag that a dictionary does not hold raises
  \<open>KeyError\<close>.
\<close>

definition lookup :: "('a \<rightharpoonup> 'b) \<Rightarrow> 'a \<Rightarrow> error + 'b" where
  "lookup d x = (case d x of None \<Rightarrow> Inl KeyError | Some y \<Rightarrow> Inr y)"

fun release_mole_frac :: "flags \<Rightarrow> key \<Rightarrow> comp list \<Rightarrow> sbd \<Rightarrow> error + sbd" where
  "release_mole_frac fl k [] b = Inr b"
| "release_mole_frac fl k (j # js) b =
     and_then (lookup (Xflag fl) (k, j))
       (\<lambda>x. release_mole_frac fl k js
               (if \<not> x then mole_frac_update (\<lambda>m. m(j := unfix_var (m j))) b else b))"

definition release_state_elem :: "flags \<Rightarrow> key \<Rightarrow> sbd \<Rightarrow> error + sbd" where
  "release_state_elem fl k b =
     and_then (lookup (Fflag fl) k)
       (\<lambda>f. let b = (if \<not> f then flow_mol_update unfix_var b else b)
            in and_then (release_mole_frac fl k (component_list b) b)
                 (\<lambda>b. and_then (lookup (Pflag fl) k)
                   (\<lambda>p. let b = (if \<not> p then pressure_update unfix_var b else b)
                        in and_then (lookup (Tflag fl) k)
                             (\<lambda>t. Inr (if \<not> t then temperature_update unfix_var b else b)))))"

fun release_all :: "flags \<Rightarrow> blk \<Rightarrow> error + blk" where
  "release_all fl [] = Inr []"
| "release_all fl ((k, b) # rest) =
     and_then (release_state_elem fl k b)
       (\<lambda>b'. and_then (release_all fl rest) (\<lambda>rest'. Inr ((k, b') # rest')))"

definition release_state :: "blk \<Rightarrow> flags option \<Rightarrow> int \<Rightarrow> error + blk \<times> event list" where
  "release_state blk flags lvl =
     (case flags of
        None \<Rightarrow> Inr (blk, [])
      | Some fl \<Rightarrow>
          and_then (release_all fl blk)
            (\<lambda>blk'. Inr (blk', if lvl > 0 then [Log INFO State_released] else [])))"

record init_result =
  block :: blk
  returned :: "flags option"
  trace :: "event list"

text \<open>Lines 211-268: fix the state variables and record the flags, or check that
  the caller has left every element square.\<close>

definition fix_or_check :: "dof_fun \<Rightarrow> init_args \<Rightarrow> blk \<Rightarrow> error + blk \<times> flags option" where
  "fix_or_check dof a blk =
     (if \<not> state_vars_fixed a
      then and_then (fix_state_vars a blk empty_flags) (\<lambda>(blk, fl). Inr (blk, Some fl))
      else and_then (check_dof dof blk) (\<lambda>_. Inr (blk, None)))"

text \<open>Lines 284-407: the five solves with the constraint switching between them.\<close>

definition solve_sequence :: "solver \<Rightarrow> int \<Rightarrow> blk \<Rightarrow> error + blk \<times> event list" where
  "solve_sequence solve lvl blk =
     (let blk = for_all_elems (set_active_named False first_solve_names) blk in
      and_then (step1 solve lvl blk) (\<lambda>(blk, ev1).
      and_then (for_each prepare_step2 blk) (\<lambda>blk.
      let (blk, ev2) = solve_step solve 2 lvl blk;
          blk = for_all_elems prepare_step3 blk;
          (blk, ev3) = solve_step solve 3 lvl blk in
      and_then (for_each prepare_step4 blk) (\<lambda>blk.
      let (blk, ev4) = solve_step solve 4 lvl blk;
          blk = for_all_elems prepare_step5 blk;
          (blk, ev5) = solve_step solve 5 lvl blk in
      and_then (for_each activate_mol_frac_out blk) (\<lambda>blk.
      Inr (blk, ev1 @ ev2 @ ev3 @ ev4 @ ev5))))))"

text \<open>Lines 409-417: hand the flags back, or release the state.\<close>

definition finish :: "init_args \<Rightarrow> flags option \<Rightarrow> blk \<Rightarrow> event list \<Rightarrow> error + init_result" where
  "finish a flags blk ev =
     (let done = (if outlvl a > 0 then [Log INFO Initialisation_completed] else []) in
      if \<not> state_vars_fixed a then
        if hold_state a then Inr \<lparr>block = blk, returned = flags, trace = ev\<rparr>
        else and_then (release_state blk flags 0)
               (\<lambda>(blk, evr). Inr \<lparr>block = blk, returned = None, trace = ev @ evr @ done\<rparr>)
      else Inr \<lparr>block = blk, returned = None, trace = ev @ done\<rparr>)"

text \<open>The whole routine, lines 205-417.\<close>

definition initialize :: "dof_fun \<Rightarrow> solver \<Rightarrow> init_args \<Rightarrow> blk \<Rightarrow> error + init_result" where
  "initialize dof solve a blk =
     and_then (for_each deactivate_mol_frac_out blk) (\<lambda>blk.
     and_then (fix_or_check dof a blk) (\<lambda>(blk, flags).
     and_then (solve_sequence solve (outlvl a) blk) (\<lambda>(blk, ev).
     finish a flags blk ev)))"

text \<open>
  What is assumed of the solver where a property needs it: it changes nothing but the
  values of variables that are not fixed.  \<open>skeleton\<close> forgets exactly those values.
\<close>

definition frozen :: "var_data \<Rightarrow> var_data" where
  "frozen v = (if fixed v then v else v\<lparr>val := 0\<rparr>)"

definition skeleton :: "sbd \<Rightarrow> sbd" where
  "skeleton b =
     b\<lparr>flow_mol := frozen (flow_mol b),
       mole_frac := (\<lambda>j. frozen (mole_frac b j)),
       pressure := frozen (pressure b),
       temperature := frozen (temperature b),
       activity_coeff_comp := map_option (\<lambda>g j. frozen (g j)) (activity_coeff_comp b),
       Gij_coeff := map_option (\<lambda>g p. frozen (g p)) (Gij_coeff b)\<rparr>"

definition skeletons :: "blk \<Rightarrow> blk" where
  "skeletons blk = for_all_elems skeleton blk"

definition keeps_status :: "solver \<Rightarrow> bool" where
  "keeps_status solve \<longleftrightarrow> (\<forall>i blk. skeletons (fst (solve i blk)) = skeletons blk)"


subsection \<open>What the properties below observe\<close>

text \<open>
  The \<open>fixed\<close> flags of the state variables of one element and of a whole block, and
  the status in which every state variable is fixed.
\<close>

definition state_var_status :: "sbd \<Rightarrow> bool \<times> (comp \<times> bool) list \<times> bool \<times> bool" where
  "state_var_status b =
     (fixed (flow_mol b), map (\<lambda>j. (j, fixed (mole_frac b j))) (component_list b),
      fixed (pressure b), fixed (temperature b))"

definition status_of :: "blk \<Rightarrow> (key \<times> bool \<times> (comp \<times> bool) list \<times> bool \<times> bool) list" where
  "status_of blk = map (\<lambda>(k, b). (k, state_var_status b)) blk"

definition all_fixed :: "sbd \<Rightarrow> bool \<times> (comp \<times> bool) list \<times> bool \<times> bool" where
  "all_fixed b = (True, map (\<lambda>j. (j, True)) (component_list b), True, True)"

text \<open>The keys of an indexed block are distinct, and so are the members of each
  component list (both are Pyomo sets).\<close>

definition well_indexed :: "blk \<Rightarrow> bool" where
  "well_indexed blk \<longleftrightarrow>
     distinct (map fst blk) \<and> list_all (\<lambda>x. distinct (component_list (snd x))) blk"

text \<open>Two blocks with the same keys whose elements are related one by one.\<close>

definition rel_blk :: "(sbd \<Rightarrow> sbd \<Rightarrow> bool) \<Rightarrow> blk \<Rightarrow> blk \<Rightarrow> bool" where
  "rel_blk R = list_all2 (\<lambda>x y. fst y = fst x \<and> R (snd x) (snd y))"

definition keeps_sv :: "sbd \<Rightarrow> sbd \<Rightarrow> bool" where
  "keeps_sv b b' \<longleftrightarrow>
     state_var_status b' = state_var_status b \<and> component_list b' = component_list b"

text \<open>The flags of key \<open>k\<close> record the status of element \<open>b\<close>.\<close>

definition flags_match :: "flags \<Rightarrow> key \<Rightarrow> sbd \<Rightarrow> bool" where
  "flags_match fl k b \<longleftrightarrow>
     Fflag fl k = Some (fixed (flow_mol b)) \<and>
     Pflag fl k = Some (fixed (pressure b)) \<and>
     Tflag fl k = Some (fixed (temperature b)) \<and>
     (\<forall>j\<in>set (component_list b). Xflag fl (k, j) = Some (fixed (mole_frac b j)))"

definition same_flags_at :: "key \<Rightarrow> flags \<Rightarrow> flags \<Rightarrow> bool" where
  "same_flags_at k fl fl' \<longleftrightarrow>
     Fflag fl' k = Fflag fl k \<and> Pflag fl' k = Pflag fl k \<and> Tflag fl' k = Tflag fl k \<and>
     (\<forall>j. Xflag fl' (k, j) = Xflag fl (k, j))"

text \<open>Element \<open>y\<close> is element \<open>x\<close> with every state variable fixed, and the flags
  record the status of \<open>x\<close>.\<close>

definition held :: "flags \<Rightarrow> key \<times> sbd \<Rightarrow> key \<times> sbd \<Rightarrow> bool" where
  "held fl x y \<longleftrightarrow>
     fst y = fst x \<and> state_var_status (snd y) = all_fixed (snd x) \<and>
     component_list (snd y) = component_list (snd x) \<and> flags_match fl (fst x) (snd x)"

subsection \<open>A concrete block\<close>

text \<open>
  A two-phase NRTL outlet block for benzene and toluene with one key, whose pressure
  the caller has fixed; a solver that leaves the block as it is and reports that the
  third solve ran out of iterations.
\<close>

definition example_config :: config where
  "example_config =
     \<lparr>defined_state = False, has_phase_equilibrium = True, valid_phase = Vap_Liq,
      activity_coeff_model = NRTL\<rparr>"

definition example_comps :: "comp list" where
  "example_comps = [''benzene'', ''toluene'']"

definition example_elem :: sbd where
  "example_elem =
     make_flash_eq (make_NRTL_eq (make_state_vars example_config example_comps))"

definition example_blk :: blk where
  "example_blk = [(0, pressure_update (fix_var 101325) example_elem)]"

definition example_solver :: solver where
  "example_solver i blk = (blk, if i = 3 then maxIterations else optimal)"

definition example_args :: init_args where
  "example_args =
     \<lparr>arg_flow_mol = None, arg_mole_frac = None, arg_temperature = Some 350,
      arg_pressure = None, hold_state = True, state_vars_fixed = False, outlvl = 1\<rparr>"


text \<open>The solver calls of a trace, in order: the step number and the block each
  call received.\<close>

fun solve_inputs :: "event list \<Rightarrow> (nat \<times> blk) list" where
  "solve_inputs [] = []"
| "solve_inputs (Solve i b # es) = (i, b) # solve_inputs es"
| "solve_inputs (Log l m # es) = solve_inputs es"

text \<open>Some relations between an element before and after a step.\<close>

definition same_config :: "sbd \<Rightarrow> sbd \<Rightarrow> bool" where
  "same_config b b' \<longleftrightarrow> config b' = config b"


text \<open>A trace with every failure warning of a step replaced by the record the step
  writes when the solve is optimal.\<close>

fun calm :: "event \<Rightarrow> event" where
  "calm (Log WARNING (Step_failed i)) = Log INFO (Step_completed i)"
| "calm e = e"












subsection \<open>What the activity-coefficient steps are observed by\<close>

text \<open>
  The view of one element: its activity model, its components, for each component
  whether \<open>activity_coeff_comp\<close> is fixed and at which value (\<open>None\<close> when the
  variable does not exist), and whether \<open>eq_Gij_coeff\<close>, \<open>eq_A\<close>, \<open>eq_B\<close> and
  \<open>eq_activity_coeff\<close> are active (\<open>None\<close> when the constraint does not exist).
\<close>

definition fixed_at :: "var_data \<Rightarrow> real option" where
  "fixed_at v = (if fixed v then Some (val v) else None)"

definition coeff_status :: "sbd \<Rightarrow> real option list option" where
  "coeff_status b =
     map_option (\<lambda>g. map (\<lambda>j. fixed_at (g j)) (component_list b)) (activity_coeff_comp b)"

definition con_status :: "sbd \<Rightarrow> string \<Rightarrow> bool option" where
  "con_status b n = map_option active (constraints b n)"

type_synonym act_view_t =
  "activity_model \<times> comp list \<times> real option list option
   \<times> bool option \<times> bool option \<times> bool option \<times> bool option"

definition act_view :: "sbd \<Rightarrow> act_view_t" where
  "act_view b =
     (activity_coeff_model (config b), component_list b, coeff_status b,
      con_status b ''eq_Gij_coeff'', con_status b ''eq_A'', con_status b ''eq_B'',
      con_status b ''eq_activity_coeff'')"

text \<open>
  The view an element shows to the solver call of step \<open>i\<close> (for \<open>i\<close> from 2 to 4),
  given the view \<open>(m, cl, cs, g, a, b, e)\<close> it had when \<open>initialize\<close> was called.
  Ideal model: the coefficient as it was, the four constraints that exist inactive.
  NRTL or Wilson: the coefficient fixed at 1 for steps 2 and 3 and free for step 4;
  \<open>eq_Gij_coeff\<close>, \<open>eq_A\<close>, \<open>eq_B\<close> inactive for step 2 and active from step 3;
  \<open>eq_activity_coeff\<close> inactive for steps 2 and 3 and active for step 4.
\<close>

fun expected :: "nat \<Rightarrow> act_view_t \<Rightarrow> act_view_t" where
  "expected i (m, cl, cs, g, a, b, e) =
     (if m = Ideal
      then (m, cl, cs, map_option (\<lambda>_. False) g, map_option (\<lambda>_. False) a,
            map_option (\<lambda>_. False) b, map_option (\<lambda>_. False) e)
      else (m, cl, Some (map (\<lambda>_. if i < 4 then Some 1 else None) cl),
            map_option (\<lambda>_. 3 \<le> i) g, map_option (\<lambda>_. 3 \<le> i) a,
            map_option (\<lambda>_. 3 \<le> i) b,
            if 4 \<le> i then Some True else map_option (\<lambda>_. False) e))"

definition view_step :: "(act_view_t \<Rightarrow> act_view_t) \<Rightarrow> sbd \<Rightarrow> sbd \<Rightarrow> bool" where
  "view_step F b b' \<longleftrightarrow> act_view b' = F (act_view b)"

fun activity_trace :: "(nat \<times> blk) list \<Rightarrow> (nat \<times> act_view_t list) list" where
  "activity_trace [] = []"
| "activity_trace ((i, b) # rest) = (i, map (\<lambda>x. act_view (snd x)) b) # activity_trace rest"

text \<open>The effect on the view of lines 287-299, 329-339, 354-361 and 373-377.\<close>

fun v_deactivate :: "act_view_t \<Rightarrow> act_view_t" where
  "v_deactivate (m, cl, cs, g, a, b, e) =
     (m, cl, cs, map_option (\<lambda>_. False) g, map_option (\<lambda>_. False) a,
      map_option (\<lambda>_. False) b, map_option (\<lambda>_. False) e)"

fun v_step2 :: "act_view_t \<Rightarrow> act_view_t" where
  "v_step2 (m, cl, cs, g, a, b, e) =
     (m, cl, if m = Ideal then cs else Some (map (\<lambda>_. Some 1) cl), g, a, b, e)"

fun v_step3 :: "act_view_t \<Rightarrow> act_view_t" where
  "v_step3 (m, cl, cs, g, a, b, e) =
     (if m = Ideal then (m, cl, cs, g, a, b, e)
      else (m, cl, cs, map_option (\<lambda>_. True) g, map_option (\<lambda>_. True) a,
            map_option (\<lambda>_. True) b, e))"

fun v_step4 :: "act_view_t \<Rightarrow> act_view_t" where
  "v_step4 (m, cl, cs, g, a, b, e) =
     (if m = Ideal then (m, cl, cs, g, a, b, e)
      else (m, cl, Some (map (\<lambda>_. None) cl), g, a, b, Some True))"

definition solve_views :: "init_result \<Rightarrow> (nat \<times> act_view_t list) list" where
  "solve_views r = activity_trace (solve_inputs (trace r))"

definition example_dof :: dof_fun where
  "example_dof b = 0"


subsection \<open>The diagonal of \<open>Gij_coeff\<close>\<close>

text \<open>
  \<open>Gij_coeff\<close> exists, \<open>Gij_coeff[i, i]\<close> is fixed at the value 1 for every component
  \<open>i\<close>, and \<open>eq_Gij_coeff\<close> has no member \<open>(i, i)\<close>.
\<close>

definition Gij_diag_ok :: "sbd \<Rightarrow> bool" where
  "Gij_diag_ok b \<longleftrightarrow>
     (case Gij_coeff b of
        None \<Rightarrow> False
      | Some G \<Rightarrow> list_all (\<lambda>i. G (i, i) = \<lparr>val = 1, fixed = True\<rparr>) (component_list b)) \<and>
     (case constraints b ''eq_Gij_coeff'' of
        None \<Rightarrow> False
      | Some c \<Rightarrow> list_all (\<lambda>i. Ix2 i i \<notin> set (members c)) (component_list b))"

definition all_diag_ok :: "blk \<Rightarrow> bool" where
  "all_diag_ok blk = list_all (\<lambda>x. Gij_diag_ok (snd x)) blk"

text \<open>A liquid-only block with the NRTL model chosen in the parameter block.\<close>

definition liquid_config :: config where
  "liquid_config =
     \<lparr>defined_state = True, has_phase_equilibrium = False, valid_phase = Liq,
      activity_coeff_model = NRTL\<rparr>"

definition diag_kept :: "sbd \<Rightarrow> sbd \<Rightarrow> bool" where
  "diag_kept b b' \<longleftrightarrow> (Gij_diag_ok b \<longrightarrow> Gij_diag_ok b')"

definition gij_frame :: "sbd \<Rightarrow> sbd \<Rightarrow> bool" where
  "gij_frame b b' \<longleftrightarrow>
     Gij_coeff b' = Gij_coeff b \<and> component_list b' = component_list b \<and>
     map_option members (constraints b' ''eq_Gij_coeff'')
       = map_option members (constraints b ''eq_Gij_coeff'')"

text \<open>The diagonal is in order in the block a solver call receives and in the block
  it returns.\<close>

definition diag_ok_around :: "solver \<Rightarrow> nat \<times> blk \<Rightarrow> bool" where
  "diag_ok_around solve p \<longleftrightarrow>
     all_diag_ok (snd p) \<and> all_diag_ok (fst (solve (fst p) (snd p)))"


section \<open>The power plant flowsheet\<close>

subsection \<open>The model and the statements that change it\<close>

text \<open>
  Of the flowsheet \<open>m.fs\<close> the routines below change and read the value and the
  \<open>fixed\<close> flag of variables and the \<open>active\<close> flag of constraints.  A variable or a
  constraint is named by its path below \<open>m.fs\<close>: \<open>m.fs.boiler.inlet.flow_mol\<close> is
  \<open>[''boiler'', ''inlet'', ''flow_mol'']\<close>, and
  \<open>m.fs.t4_splitter.split_fraction[:, "outlet_2"]\<close> is
  \<open>[''t4_splitter'', ''split_fraction'', ''outlet_2'']\<close> (the slice is over the time
  points, which all get the same treatment).
\<close>

type_synonym path = "string list"

record model =
  vars :: "path \<Rightarrow> var_data"
  cons :: "path \<Rightarrow> bool"

text \<open>
  The statements of \<open>set_model_input\<close> and \<open>initialize\<close> that act on the model
  directly.  \<open>Unfix_port p\<close> is \<open>port.unfix()\<close>, which unfixes every variable of the
  port, that is, every variable whose path is \<open>p\<close> followed by one name.
\<close>

datatype stmt =
    Fix path real
  | Unfix path
  | Unfix_port path
  | Set_value path real
  | Deactivate path
  | Activate path

fun apply_stmt :: "stmt \<Rightarrow> model \<Rightarrow> model" where
  "apply_stmt (Fix p x) m = vars_update (\<lambda>v. v(p := fix_var x (v p))) m"
| "apply_stmt (Unfix p) m = vars_update (\<lambda>v. v(p := unfix_var (v p))) m"
| "apply_stmt (Unfix_port p) m =
     vars_update (\<lambda>v q. if q \<noteq> [] \<and> butlast q = p then unfix_var (v q) else v q) m"
| "apply_stmt (Set_value p x) m = vars_update (\<lambda>v. v(p := (v p)\<lparr>val := x\<rparr>)) m"
| "apply_stmt (Deactivate c) m = cons_update (\<lambda>a. a(c := False)) m"
| "apply_stmt (Activate c) m = cons_update (\<lambda>a. a(c := True)) m"

text \<open>
  The calls into the unit-model library, whose code is not part of these files:
  \<open>iscale.calculate_scaling_factors(m)\<close>, \<open>_set_port(destination, source)\<close> and
  \<open>unit.initialize(outlvl=outlvl, optarg=solver.options)\<close>.  The library is an
  argument: it receives the call and the model and returns the model as it leaves it,
  or raises.  So is the solver of the last step, which also returns its termination
  condition.
\<close>

datatype call =
    Calculate_scaling_factors
  | Set_port path path
  | Initialize string

datatype step = Do stmt | Call call | Solver_solve

type_synonym library = "call \<Rightarrow> model \<Rightarrow> error + model"
type_synonym fs_solver = "model \<Rightarrow> error + model \<times> termination_condition"

text \<open>
  What a run leaves behind besides the model: each library call with the model it
  received, and for \<open>solver.solve\<close> the model it received and the termination
  condition that is printed.
\<close>

datatype fs_event = Called call model | Solved model termination_condition

fun exec_step :: "library \<Rightarrow> fs_solver \<Rightarrow> step \<Rightarrow> model \<Rightarrow> error + model \<times> fs_event list" where
  "exec_step lib solve (Do s) m = Inr (apply_stmt s m, [])"
| "exec_step lib solve (Call c) m = and_then (lib c m) (\<lambda>m'. Inr (m', [Called c m]))"
| "exec_step lib solve Solver_solve m =
     and_then (solve m) (\<lambda>(m', tc). Inr (m', [Solved m tc]))"

fun run_steps ::
  "library \<Rightarrow> fs_solver \<Rightarrow> step list \<Rightarrow> model \<Rightarrow> error + model \<times> fs_event list" where
  "run_steps lib solve [] m = Inr (m, [])"
| "run_steps lib solve (s # ss) m =
     and_then (exec_step lib solve s m)
       (\<lambda>(m', ev). and_then (run_steps lib solve ss m')
          (\<lambda>(m'', ev'). Inr (m'', ev @ ev')))"

subsection \<open>\<open>set_model_input\<close>\<close>

text \<open>\<open>set_model_input\<close>, lines 662-766, statement by statement.  The local
  \<open>main_steam_pressure\<close> is \<open>24235081.4\<close>.\<close>

definition set_model_input_body :: "stmt list" where
  "set_model_input_body =
     [Fix [''boiler'', ''inlet'', ''flow_mol''] 29111,
      Fix [''boiler'', ''outlet'', ''pressure''] 24235081.4,
      Fix [''reheater'', ''deltaP''] (- 96526.64),
      Fix [''turbine_1'', ''ratioP''] (0.8 ^ 5),
      Fix [''turbine_1'', ''efficiency_isentropic''] 0.94,
      Fix [''turbine_2'', ''ratioP''] (0.8 ^ 2),
      Fix [''turbine_2'', ''efficiency_isentropic''] 0.94,
      Fix [''turbine_3'', ''ratioP''] (0.79 ^ 4),
      Fix [''turbine_3'', ''efficiency_isentropic''] 0.88,
      Fix [''turbine_4'', ''ratioP''] (0.79 ^ 6),
      Fix [''turbine_4'', ''efficiency_isentropic''] 0.88,
      Fix [''turbine_5'', ''ratioP''] (0.64 ^ 2),
      Fix [''turbine_5'', ''efficiency_isentropic''] 0.78,
      Fix [''turbine_6'', ''ratioP''] (0.64 ^ 2),
      Fix [''turbine_6'', ''efficiency_isentropic''] 0.78,
      Fix [''turbine_7'', ''ratioP''] (0.64 ^ 2),
      Fix [''turbine_7'', ''efficiency_isentropic''] 0.78,
      Fix [''turbine_8'', ''ratioP''] (0.64 ^ 2),
      Fix [''turbine_8'', ''efficiency_isentropic''] 0.78,
      Fix [''turbine_9'', ''ratioP''] 0.5,
      Fix [''turbine_9'', ''efficiency_isentropic''] 0.78,
      Fix [''cond_pump'', ''efficiency_pump''] 0.80,
      Fix [''cond_pump'', ''deltaP''] (10 ^ 6),
      Set_value [''condenser_mix'', ''makeup'', ''flow_mol''] (1.08002495835536 / 10 ^ 12),
      Fix [''condenser_mix'', ''makeup'', ''pressure''] 103421.4,
      Fix [''condenser_mix'', ''makeup'', ''enth_mol''] 1131.69204,
      Fix [''fwh1'', ''area''] 400,
      Fix [''fwh1'', ''overall_heat_transfer_coefficient''] 2000,
      Fix [''fwh2'', ''area''] 300,
      Fix [''fwh2'', ''overall_heat_transfer_coefficient''] 2900,
      Fix [''fwh3'', ''area''] 200,
      Fix [''fwh3'', ''overall_heat_transfer_coefficient''] 2900,
      Fix [''fwh4'', ''area''] 200,
      Fix [''fwh4'', ''overall_heat_transfer_coefficient''] 2900,
      Fix [''t4_splitter'', ''split_fraction'', ''outlet_2''] 0.050331,
      Fix [''bfp'', ''efficiency_pump''] 0.80,
      Fix [''bfp'', ''outlet'', ''pressure''] (24235081.4 * 1.15),
      Fix [''bfpt'', ''efficiency_isentropic''] 0.80,
      Fix [''fwh6'', ''area''] 600,
      Fix [''fwh6'', ''overall_heat_transfer_coefficient''] 2900,
      Fix [''fwh7'', ''area''] 400,
      Fix [''fwh7'', ''overall_heat_transfer_coefficient''] 2900,
      Fix [''fwh8'', ''area''] 400,
      Fix [''fwh8'', ''overall_heat_transfer_coefficient''] 2900]"

definition set_model_input :: "model \<Rightarrow> model" where
  "set_model_input m = foldl (\<lambda>m s. apply_stmt s m) m set_model_input_body"

subsection \<open>\<open>initialize\<close> of the flowsheet\<close>

text \<open>Lines 771-785: scaling factors, then the boiler on its own.\<close>

definition init_boiler :: "step list" where
  "init_boiler =
     [Call (Calculate_scaling_factors),
      Do (Fix [''boiler'', ''inlet'', ''pressure''] 24657896),
      Do (Fix [''boiler'', ''inlet'', ''enth_mol''] 20004),
      Call (Initialize ''boiler''),
      Do (Unfix [''boiler'', ''inlet'', ''pressure'']),
      Do (Unfix [''boiler'', ''inlet'', ''enth_mol''])]"

text \<open>Lines 795-802: the estimates of the split fractions.\<close>

definition init_fix_split_fractions :: "step list" where
  "init_fix_split_fractions =
     [Do (Fix [''t1_splitter'', ''split_fraction'', ''outlet_2''] 0.12812),
      Do (Fix [''t2_splitter'', ''split_fraction'', ''outlet_2''] 0.061824),
      Do (Fix [''t3_splitter'', ''split_fraction'', ''outlet_2''] 0.03815),
      Do (Fix [''t4_splitter'', ''split_fraction'', ''outlet_1''] 0.9019),
      Do (Fix [''t5_splitter'', ''split_fraction'', ''outlet_2''] 0.0381443),
      Do (Fix [''t6_splitter'', ''split_fraction'', ''outlet_2''] 0.017535),
      Do (Fix [''t7_splitter'', ''split_fraction'', ''outlet_2''] 0.0154),
      Do (Fix [''t8_splitter'', ''split_fraction'', ''outlet_2''] 0.00121)]"

text \<open>Lines 804-811: the constraints switched off for the unit-by-unit solves.\<close>

definition init_deactivate :: "step list" where
  "init_deactivate =
     [Do (Deactivate [''constraint_out_pressure'']),
      Do (Deactivate [''fwh1'', ''fwh1_vaporfrac_constraint'']),
      Do (Deactivate [''fwh2'', ''fwh2_vaporfrac_constraint'']),
      Do (Deactivate [''fwh3'', ''fwh3_vaporfrac_constraint'']),
      Do (Deactivate [''fwh4'', ''fwh4_vaporfrac_constraint'']),
      Do (Deactivate [''fwh6'', ''fwh6_vaporfrac_constraint'']),
      Do (Deactivate [''fwh7'', ''fwh7_vaporfrac_constraint'']),
      Do (Deactivate [''fwh8'', ''fwh8_vaporfrac_constraint''])]"

text \<open>Lines 813-870: turbines, splitters, reheater and the boiler feed pump turbine.\<close>

definition init_turbine_train :: "step list" where
  "init_turbine_train =
     [Call (Set_port [''turbine_1'', ''inlet''] [''boiler'', ''outlet'']),
      Call (Initialize ''turbine_1''),
      Call (Set_port [''t1_splitter'', ''inlet''] [''turbine_1'', ''outlet'']),
      Call (Initialize ''t1_splitter''),
      Call (Set_port [''turbine_2'', ''inlet''] [''t1_splitter'', ''outlet_1'']),
      Call (Initialize ''turbine_2''),
      Call (Set_port [''t2_splitter'', ''inlet''] [''turbine_2'', ''outlet'']),
      Call (Initialize ''t2_splitter''),
      Call (Set_port [''reheater'', ''inlet''] [''t2_splitter'', ''outlet_1'']),
      Call (Initialize ''reheater''),
      Call (Set_port [''turbine_3'', ''inlet''] [''reheater'', ''outlet'']),
      Call (Initialize ''turbine_3''),
      Call (Set_port [''t3_splitter'', ''inlet''] [''turbine_3'', ''outlet'']),
      Call (Initialize ''t3_splitter''),
      Call (Set_port [''turbine_4'', ''inlet''] [''t3_splitter'', ''outlet_1'']),
      Call (Initialize ''turbine_4''),
      Call (Set_port [''t4_splitter'', ''inlet''] [''turbine_4'', ''outlet'']),
      Call (Initialize ''t4_splitter''),
      Call (Set_port [''turbine_5'', ''inlet''] [''t4_splitter'', ''outlet_1'']),
      Call (Initialize ''turbine_5''),
      Call (Set_port [''t5_splitter'', ''inlet''] [''turbine_5'', ''outlet'']),
      Call (Initialize ''t5_splitter''),
      Call (Set_port [''turbine_6'', ''inlet''] [''t5_splitter'', ''outlet_1'']),
      Call (Initialize ''turbine_6''),
      Call (Set_port [''t6_splitter'', ''inlet''] [''turbine_6'', ''outlet'']),
      Call (Initialize ''t6_splitter''),
      Call (Set_port [''turbine_7'', ''inlet''] [''t6_splitter'', ''outlet_1'']),
      Call (Initialize ''turbine_7''),
      Call (Set_port [''t7_splitter'', ''inlet''] [''turbine_7'', ''outlet'']),
      Call (Initialize ''t7_splitter''),
      Call (Set_port [''turbine_8'', ''inlet''] [''t7_splitter'', ''outlet_1'']),
      Call (Initialize ''turbine_8''),
      Call (Set_port [''t8_splitter'', ''inlet''] [''turbine_8'', ''outlet'']),
      Call (Initialize ''t8_splitter''),
      Call (Set_port [''turbine_9'', ''inlet''] [''t8_splitter'', ''outlet_1'']),
      Call (Initialize ''turbine_9''),
      Call (Set_port [''bfpt'', ''inlet''] [''t4_splitter'', ''outlet_3'']),
      Call (Initialize ''bfpt'')]"

text \<open>Lines 872-887: condenser mixer, condenser and condensate pump.\<close>

definition init_condenser :: "step list" where
  "init_condenser =
     [Call (Set_port [''condenser_mix'', ''bfpt''] [''bfpt'', ''outlet'']),
      Call (Set_port [''condenser_mix'', ''main''] [''turbine_9'', ''outlet'']),
      Do (Fix [''condenser_mix'', ''drain'', ''flow_mol''] 1460),
      Do (Fix [''condenser_mix'', ''drain'', ''pressure''] 7308),
      Do (Fix [''condenser_mix'', ''drain'', ''enth_mol''] 2973),
      Call (Initialize ''condenser_mix''),
      Do (Unfix_port [''condenser_mix'', ''drain'']),
      Call (Set_port [''condenser'', ''inlet''] [''condenser_mix'', ''outlet'']),
      Call (Initialize ''condenser''),
      Call (Set_port [''cond_pump'', ''inlet''] [''condenser'', ''outlet'']),
      Call (Initialize ''cond_pump'')]"

text \<open>Lines 889-935: feedwater heaters 1 to 4.\<close>

definition init_low_pressure_fwh :: "step list" where
  "init_low_pressure_fwh =
     [Do (Fix [''fwh1_mix'', ''drain'', ''flow_mol''] 1434),
      Do (Fix [''fwh1_mix'', ''drain'', ''pressure''] 14617),
      Do (Fix [''fwh1_mix'', ''drain'', ''enth_mol''] 3990),
      Call (Set_port [''fwh1_mix'', ''steam''] [''t8_splitter'', ''outlet_2'']),
      Call (Initialize ''fwh1_mix''),
      Do (Unfix_port [''fwh1_mix'', ''drain'']),
      Call (Set_port [''fwh1'', ''inlet_1''] [''fwh1_mix'', ''outlet'']),
      Call (Set_port [''fwh1'', ''inlet_2''] [''cond_pump'', ''outlet'']),
      Call (Initialize ''fwh1''),
      Do (Fix [''fwh2_mix'', ''drain'', ''flow_mol''] 1136),
      Do (Fix [''fwh2_mix'', ''drain'', ''pressure''] 35685),
      Do (Fix [''fwh2_mix'', ''drain'', ''enth_mol''] 5462),
      Call (Set_port [''fwh2_mix'', ''steam''] [''t7_splitter'', ''outlet_2'']),
      Call (Initialize ''fwh2_mix''),
      Do (Unfix_port [''fwh2_mix'', ''drain'']),
      Do (Unfix_port [''fwh2_mix'', ''steam'']),
      Call (Set_port [''fwh2'', ''inlet_1''] [''fwh2_mix'', ''outlet'']),
      Call (Set_port [''fwh2'', ''inlet_2''] [''fwh1'', ''outlet_2'']),
      Call (Initialize ''fwh2''),
      Do (Fix [''fwh3_mix'', ''drain'', ''flow_mol''] 788),
      Do (Fix [''fwh3_mix'', ''drain'', ''pressure''] 87123),
      Do (Fix [''fwh3_mix'', ''drain'', ''enth_mol''] 7160),
      Call (Set_port [''fwh3_mix'', ''steam''] [''t6_splitter'', ''outlet_2'']),
      Call (Initialize ''fwh3_mix''),
      Do (Unfix_port [''fwh3_mix'', ''drain'']),
      Call (Set_port [''fwh3'', ''inlet_1''] [''fwh3_mix'', ''outlet'']),
      Call (Set_port [''fwh3'', ''inlet_2''] [''fwh2'', ''outlet_2'']),
      Call (Initialize ''fwh3''),
      Call (Set_port [''fwh4'', ''inlet_2''] [''fwh3'', ''outlet_2'']),
      Call (Set_port [''fwh4'', ''inlet_1''] [''t5_splitter'', ''outlet_2'']),
      Call (Initialize ''fwh4'')]"

text \<open>Lines 937-953: deaerator and boiler feed pump.\<close>

definition init_deaerator_bfp :: "step list" where
  "init_deaerator_bfp =
     [Call (Set_port [''fwh5_da'', ''feedwater''] [''fwh4'', ''outlet_2'']),
      Do (Fix [''fwh5_da'', ''drain'', ''flow_mol''] 6207),
      Do (Fix [''fwh5_da'', ''drain'', ''pressure''] 519291),
      Do (Fix [''fwh5_da'', ''drain'', ''enth_mol''] 11526),
      Call (Set_port [''fwh5_da'', ''steam''] [''t4_splitter'', ''outlet_2'']),
      Call (Initialize ''fwh5_da''),
      Do (Unfix_port [''fwh5_da'', ''drain'']),
      Call (Set_port [''bfp'', ''inlet''] [''fwh5_da'', ''outlet'']),
      Call (Initialize ''bfp'')]"

text \<open>Lines 955-985: feedwater heaters 6 to 8.\<close>

definition init_high_pressure_fwh :: "step list" where
  "init_high_pressure_fwh =
     [Do (Fix [''fwh6_mix'', ''drain'', ''flow_mol''] 5299),
      Do (Fix [''fwh6_mix'', ''drain'', ''pressure''] 2177587),
      Do (Fix [''fwh6_mix'', ''drain'', ''enth_mol''] 16559),
      Call (Set_port [''fwh6_mix'', ''steam''] [''t3_splitter'', ''outlet_2'']),
      Call (Initialize ''fwh6_mix''),
      Do (Unfix_port [''fwh6_mix'', ''drain'']),
      Call (Set_port [''fwh6'', ''inlet_1''] [''fwh6_mix'', ''outlet'']),
      Call (Set_port [''fwh6'', ''inlet_2''] [''bfp'', ''outlet'']),
      Call (Initialize ''fwh6''),
      Call (Set_port [''fwh7_mix'', ''steam''] [''t2_splitter'', ''outlet_2'']),
      Do (Fix [''fwh7_mix'', ''drain'', ''flow_mol''] 3730),
      Do (Fix [''fwh7_mix'', ''drain'', ''pressure''] 5590711),
      Do (Fix [''fwh7_mix'', ''drain'', ''enth_mol''] 21232),
      Call (Initialize ''fwh7_mix''),
      Do (Unfix_port [''fwh7_mix'', ''drain'']),
      Call (Set_port [''fwh7'', ''inlet_1''] [''fwh7_mix'', ''outlet'']),
      Call (Set_port [''fwh7'', ''inlet_2''] [''fwh6'', ''outlet_2'']),
      Call (Initialize ''fwh7''),
      Call (Set_port [''fwh8'', ''inlet_2''] [''fwh7'', ''outlet_2'']),
      Call (Set_port [''fwh8'', ''inlet_1''] [''t1_splitter'', ''outlet_2'']),
      Call (Initialize ''fwh8''),
      Do (Unfix_port [''fwh8'', ''inlet_1''])]"

text \<open>Lines 995-1002: the split fractions are released.\<close>

definition init_unfix_split_fractions :: "step list" where
  "init_unfix_split_fractions =
     [Do (Unfix [''t1_splitter'', ''split_fraction'', ''outlet_2'']),
      Do (Unfix [''t2_splitter'', ''split_fraction'', ''outlet_2'']),
      Do (Unfix [''t3_splitter'', ''split_fraction'', ''outlet_2'']),
      Do (Unfix [''t4_splitter'', ''split_fraction'', ''outlet_1'']),
      Do (Unfix [''t5_splitter'', ''split_fraction'', ''outlet_2'']),
      Do (Unfix [''t6_splitter'', ''split_fraction'', ''outlet_2'']),
      Do (Unfix [''t7_splitter'', ''split_fraction'', ''outlet_2'']),
      Do (Unfix [''t8_splitter'', ''split_fraction'', ''outlet_2''])]"

text \<open>Lines 1004-1012: the constraints are switched on again.\<close>

definition init_activate :: "step list" where
  "init_activate =
     [Do (Activate [''constraint_out_pressure'']),
      Do (Activate [''fwh1'', ''fwh1_vaporfrac_constraint'']),
      Do (Activate [''fwh2'', ''fwh2_vaporfrac_constraint'']),
      Do (Activate [''fwh3'', ''fwh3_vaporfrac_constraint'']),
      Do (Activate [''fwh4'', ''fwh4_vaporfrac_constraint'']),
      Do (Activate [''fwh6'', ''fwh6_vaporfrac_constraint'']),
      Do (Activate [''fwh7'', ''fwh7_vaporfrac_constraint'']),
      Do (Activate [''fwh8'', ''fwh8_vaporfrac_constraint''])]"

text \<open>Lines 769-1017: the sections in their order, then \<open>solver.solve(m, tee=True)\<close>
  and the print of its termination condition.\<close>

definition init_propagation :: "step list" where
  "init_propagation =
     init_turbine_train @ init_condenser @ init_low_pressure_fwh @ init_deaerator_bfp
       @ init_high_pressure_fwh"

definition initialize_body :: "step list" where
  "initialize_body =
     init_boiler @ init_fix_split_fractions @ init_deactivate @ init_propagation
       @ init_unfix_split_fractions @ init_activate @ [Solver_solve]"

definition initialize_flowsheet ::
  "library \<Rightarrow> fs_solver \<Rightarrow> model \<Rightarrow> error + model \<times> fs_event list" where
  "initialize_flowsheet lib solve m = run_steps lib solve initialize_body m"

subsection \<open>\<open>build_plant_model\<close>\<close>

text \<open>
  Lines 1020-1063.  \<open>create_model\<close> builds the units from the library and fixes
  nothing itself; its result is the argument \<open>m0\<close>.  \<open>degrees_of_freedom\<close> is the
  library's count on the whole model.
\<close>

definition build_plant_model ::
  "(model \<Rightarrow> int) \<Rightarrow> library \<Rightarrow> fs_solver \<Rightarrow> model \<Rightarrow> error + model \<times> fs_event list" where
  "build_plant_model dof lib solve m0 =
     (let m = set_model_input m0 in
      if dof m \<noteq> 0 then Inl AssertionError
      else and_then (initialize_flowsheet lib solve m)
             (\<lambda>(m, ev).
                if dof m \<noteq> 0 then Inl AssertionError
                else Inr (apply_stmt (Activate [''production_cons''])
                            (vars_update (\<lambda>v. v([''plant_power_out''] := new_var 620)) m),
                          ev)))"

subsection \<open>What the properties of the flowsheet observe\<close>

text \<open>The constraints that lines 804-811 switch off, and the split fractions that
  lines 795-802 fix at their estimates.\<close>

definition decoupled_constraints :: "path list" where
  "decoupled_constraints =
     [[''constraint_out_pressure''],
      [''fwh1'', ''fwh1_vaporfrac_constraint''], [''fwh2'', ''fwh2_vaporfrac_constraint''],
      [''fwh3'', ''fwh3_vaporfrac_constraint''], [''fwh4'', ''fwh4_vaporfrac_constraint''],
      [''fwh6'', ''fwh6_vaporfrac_constraint''], [''fwh7'', ''fwh7_vaporfrac_constraint''],
      [''fwh8'', ''fwh8_vaporfrac_constraint'']]"

definition estimated_split_fractions :: "path list" where
  "estimated_split_fractions =
     [[''t1_splitter'', ''split_fraction'', ''outlet_2''],
      [''t2_splitter'', ''split_fraction'', ''outlet_2''],
      [''t3_splitter'', ''split_fraction'', ''outlet_2''],
      [''t4_splitter'', ''split_fraction'', ''outlet_1''],
      [''t5_splitter'', ''split_fraction'', ''outlet_2''],
      [''t6_splitter'', ''split_fraction'', ''outlet_2''],
      [''t7_splitter'', ''split_fraction'', ''outlet_2''],
      [''t8_splitter'', ''split_fraction'', ''outlet_2'']]"

definition is_split_fraction :: "path \<Rightarrow> bool" where
  "is_split_fraction p \<longleftrightarrow> length p = 3 \<and> p ! 1 = ''split_fraction''"

text \<open>The flags of a model: which variables are fixed, which constraints active.  What
  is assumed of the library where a property needs it: a call that returns has changed
  no flag.\<close>

definition fs_status :: "model \<Rightarrow> (path \<Rightarrow> bool) \<times> (path \<Rightarrow> bool)" where
  "fs_status m = (\<lambda>p. fixed (vars m p), cons m)"

definition lib_keeps_status :: "library \<Rightarrow> bool" where
  "lib_keeps_status lib \<longleftrightarrow> (\<forall>c m m'. lib c m = Inr m' \<longrightarrow> fs_status m' = fs_status m)"

text \<open>The model as a library call finds it during the unit-by-unit solves: the eight
  constraints inactive, the eight split fractions fixed, and the power balance
  \<open>constraint_bfp_power\<close> as active as it was in \<open>m\<close>, the model \<open>initialize\<close> was
  called on.\<close>

definition decoupled :: "model \<Rightarrow> model \<Rightarrow> bool" where
  "decoupled m s \<longleftrightarrow>
     list_all (\<lambda>c. \<not> cons s c) decoupled_constraints \<and>
     list_all (\<lambda>p. fixed (vars s p)) estimated_split_fractions \<and>
     cons s [''constraint_bfp_power''] = cons m [''constraint_bfp_power'']"

fun decoupled_at :: "model \<Rightarrow> fs_event \<Rightarrow> bool" where
  "decoupled_at m (Called c s) = decoupled m s"
| "decoupled_at m (Solved s tc) = False"

text \<open>The model as \<open>solver.solve\<close> finds it: the eight constraints active and every
  other constraint as in \<open>m\<close>; the eight split fractions free and every other split
  fraction fixed or free as in \<open>m\<close>.\<close>

definition recoupled :: "model \<Rightarrow> model \<Rightarrow> bool" where
  "recoupled m s \<longleftrightarrow>
     (\<forall>c. cons s c = (c \<in> set decoupled_constraints \<or> cons m c)) \<and>
     (\<forall>p. is_split_fraction p \<longrightarrow>
          fixed (vars s p) = (p \<notin> set estimated_split_fractions \<and> fixed (vars m p)))"

text \<open>Whether a constraint is active in the model of every event of a run.\<close>

fun event_model :: "fs_event \<Rightarrow> model" where
  "event_model (Called c s) = s"
| "event_model (Solved s tc) = s"

fun active_at :: "path \<Rightarrow> fs_event \<Rightarrow> bool" where
  "active_at c e = cons (event_model e) c"

fun always_active :: "path \<Rightarrow> error + model \<times> fs_event list \<Rightarrow> bool" where
  "always_active c (Inl e) = False"
| "always_active c (Inr (m, ev)) = list_all (active_at c) ev"

fun active_for_solve :: "path \<Rightarrow> error + model \<times> fs_event list \<Rightarrow> bool" where
  "active_for_solve c (Inl e) = False"
| "active_for_solve c (Inr (m, ev)) = (ev \<noteq> [] \<and> active_at c (last ev))"

subsection \<open>Statements and events, one at a time\<close>

text \<open>What one statement does to one variable and to one constraint.\<close>

fun stmt_on_var :: "stmt \<Rightarrow> path \<Rightarrow> var_data \<Rightarrow> var_data" where
  "stmt_on_var (Fix q x) p v = (if p = q then fix_var x v else v)"
| "stmt_on_var (Unfix q) p v = (if p = q then unfix_var v else v)"
| "stmt_on_var (Unfix_port q) p v = (if p \<noteq> [] \<and> butlast p = q then unfix_var v else v)"
| "stmt_on_var (Set_value q x) p v = (if p = q then v\<lparr>val := x\<rparr> else v)"
| "stmt_on_var (Deactivate c) p v = v"
| "stmt_on_var (Activate c) p v = v"

fun stmt_on_con :: "stmt \<Rightarrow> path \<Rightarrow> bool \<Rightarrow> bool" where
  "stmt_on_con (Deactivate q) c a = (if c = q then False else a)"
| "stmt_on_con (Activate q) c a = (if c = q then True else a)"
| "stmt_on_con s c a = a"

text \<open>The statements that switch a constraint, and those that fix or unfix a split
  fraction; a step that is neither, or a library call, is quiet.\<close>

fun is_con_stmt :: "stmt \<Rightarrow> bool" where
  "is_con_stmt (Deactivate q) = True"
| "is_con_stmt (Activate q) = True"
| "is_con_stmt s = False"

fun touches_split :: "stmt \<Rightarrow> bool" where
  "touches_split (Fix q x) = is_split_fraction q"
| "touches_split (Unfix q) = is_split_fraction q"
| "touches_split (Unfix_port q) = (length q = 2 \<and> q ! 1 = ''split_fraction'')"
| "touches_split s = False"

fun quiet_step :: "step \<Rightarrow> bool" where
  "quiet_step (Do s) = (\<not> is_con_stmt s \<and> \<not> touches_split s)"
| "quiet_step (Call c) = True"
| "quiet_step Solver_solve = False"

text \<open>What a quiet step must leave as it is: the \<open>active\<close> flag of every constraint
  and the \<open>fixed\<close> flag of every split fraction.\<close>

definition watched :: "model \<Rightarrow> (path \<Rightarrow> bool) \<times> (path \<Rightarrow> bool)" where
  "watched m = (cons m, \<lambda>p. is_split_fraction p \<and> fixed (vars m p))"

fun quiet_event :: "(path \<Rightarrow> bool) \<times> (path \<Rightarrow> bool) \<Rightarrow> fs_event \<Rightarrow> bool" where
  "quiet_event w (Called c s) = (watched s = w)"
| "quiet_event w (Solved s tc) = False"

text \<open>The library calls of a list of steps, and the call of an event.\<close>

fun calls_of :: "step list \<Rightarrow> call list" where
  "calls_of [] = []"
| "calls_of (Call c # ss) = c # calls_of ss"
| "calls_of (s # ss) = calls_of ss"

fun event_call :: "fs_event \<Rightarrow> call option" where
  "event_call (Called c s) = Some c"
| "event_call (Solved s tc) = None"

text \<open>Everything that \<open>initialize\<close> does before \<open>solver.solve(m, tee=True)\<close>.\<close>

definition init_before_solve :: "step list" where
  "init_before_solve =
     init_boiler @ init_fix_split_fractions @ init_deactivate @ init_propagation
       @ init_unfix_split_fractions @ init_activate"


subsection \<open>A concrete flowsheet\<close>

text \<open>A model in which nothing is fixed and every constraint is active, as
  \<open>create_model\<close> leaves it; a library that returns the model as it is; a solver that
  does the same and reports \<open>optimal\<close>.\<close>

definition fresh_model :: model where
  "fresh_model = \<lparr>vars = (\<lambda>p. new_var 0), cons = (\<lambda>c. True)\<rparr>"

definition example_library :: library where
  "example_library c m = Inr m"

definition example_fs_solver :: fs_solver where
  "example_fs_solver m = Inr (m, optimal)"


text \<open>The fresh model after \<open>set_model_input\<close>.\<close>

definition example_plant :: model where
  "example_plant = set_model_input fresh_model"


section \<open>Properties of the smoke-test NLP\<close>

lemma same_point: "(\<lambda>a. if a = i then x i else x a) = x"
  by auto

lemma partial_is_derivative:
  "((\<lambda>t. eval (x(i := t)) e) has_real_derivative partial x i e) (at (x i))"
proof (induction e)
  case (Var j)
  show ?case by (cases "i = j") simp_all
next
  case (Num c)
  show ?case by simp
next
  case (Add a b)
  then show ?case by (auto intro!: derivative_eq_intros)
next
  case (Sub a b)
  then show ?case by (auto intro!: derivative_eq_intros)
next
  case (Mul a b)
  then show ?case by (auto intro!: derivative_eq_intros simp: same_point algebra_simps)
next
  case (PowN a n)
  then show ?case by (auto intro!: derivative_eq_intros simp: same_point algebra_simps)
qed

text \<open>
  C8 (as the fixture is written).  With the first constraint \<open>x3\<^sup>2 + x1 = 25\<close>, the
  objective at \<open>x = (4, 4, 4)\<close> is \<open>-504\<close>, and the Jacobian with its columns in the
  order \<open>x2, x3, x1\<close> has the rows \<open>(0, 8, 1)\<close> and \<open>(8, 0, 1)\<close> that the test asserts.
\<close>

theorem smoke_test_objective_and_jacobian:
  "evaluate_objective = - 504 \<and> evaluate_jacobian [2, 3, 1] = [[0, 8, 1], [8, 0, 1]]"
  by (simp add: evaluate_objective_def evaluate_jacobian_def m_o_def m_c_def m_d_def m_x_def)

text \<open>
  C8 as stated fails: the constraint \<open>x1\<^sup>2 + x3\<^sup>2 = 25\<close> of the specification is not the
  constraint of the fixture (the bodies already differ in value at the initial point),
  and its Jacobian row at \<open>(4, 4, 4)\<close> holds no entry \<open>1\<close>, so under no order of the
  columns is it the asserted row \<open>(0, 8, 1)\<close>.
\<close>

theorem smoke_test_spec_constraint_counterexample:
  "eval m_x (body spec_c) = 32 \<and> eval m_x (body m_c) = 20
   \<and> jacobian_row m_x [1, 2, 3] (body spec_c) = [8, 0, 8]
   \<and> jacobian_row m_x [2, 3, 1] (body spec_c) \<noteq> [0, 8, 1]"
  by (simp add: spec_c_def m_c_def m_x_def)


section \<open>Properties of the property package\<close>

subsection \<open>Auxiliary facts\<close>

lemma and_then_Inl [simp]: "and_then (Inl e) f = Inl e"
  by (simp add: and_then_def)

lemma and_then_Inr [simp]: "and_then (Inr x) f = f x"
  by (simp add: and_then_def)

lemma and_then_eq_Inr: "and_then r f = Inr y \<longleftrightarrow> (\<exists>x. r = Inr x \<and> f x = Inr y)"
  by (cases r) simp_all

lemma rel_blk_Nil [simp]: "rel_blk R [] []"
  by (simp add: rel_blk_def)

lemma rel_blk_Cons [simp]:
  "rel_blk R ((k, b) # xs) ((k', b') # ys) \<longleftrightarrow> k' = k \<and> R b b' \<and> rel_blk R xs ys"
  by (auto simp add: rel_blk_def)

lemma rel_blk_trans:
  "rel_blk R xs ys \<Longrightarrow> rel_blk S ys zs \<Longrightarrow> rel_blk (R OO S) xs zs"
proof (induction xs arbitrary: ys zs)
  case Nil
  then show ?case by (simp add: rel_blk_def)
next
  case (Cons x xs)
  from Cons.prems obtain y ys' where ys: "ys = y # ys'"
    by (cases ys) (auto simp: rel_blk_def)
  with Cons.prems obtain z zs' where zs: "zs = z # zs'"
    by (cases zs) (auto simp: rel_blk_def)
  from Cons.prems ys zs have "rel_blk R xs ys'" "rel_blk S ys' zs'"
    by (auto simp: rel_blk_def)
  then have "rel_blk (R OO S) xs zs'" by (rule Cons.IH)
  with Cons.prems ys zs show ?case by (auto simp: rel_blk_def)
qed

lemma rel_blk_mono: "rel_blk R xs ys \<Longrightarrow> (\<And>b b'. R b b' \<Longrightarrow> S b b') \<Longrightarrow> rel_blk S xs ys"
  unfolding rel_blk_def by (erule list_all2_mono) auto

lemma rel_blk_keys: "rel_blk R xs ys \<Longrightarrow> map fst ys = map fst xs"
  unfolding rel_blk_def by (induction rule: list_all2_induct) auto

lemma for_each_rel:
  "for_each f blk = Inr blk' \<Longrightarrow> rel_blk (\<lambda>b b'. f b = Inr b') blk blk'"
  by (induction f blk arbitrary: blk' rule: for_each.induct) (auto simp: and_then_eq_Inr)

lemma for_all_elems_rel: "rel_blk (\<lambda>b b'. b' = f b) blk (for_all_elems f blk)"
  by (induction blk) (auto simp: for_all_elems_def)

lemma skeletons_rel:
  "skeletons ys = skeletons xs \<Longrightarrow> rel_blk (\<lambda>b b'. skeleton b' = skeleton b) xs ys"
proof (induction xs arbitrary: ys)
  case Nil
  then show ?case by (simp add: skeletons_def for_all_elems_def)
next
  case (Cons x xs)
  then show ?case by (cases ys; cases x) (auto simp: skeletons_def for_all_elems_def)
qed

lemma solver_rel:
  "keeps_status solve \<Longrightarrow> rel_blk (\<lambda>b b'. skeleton b' = skeleton b) blk (fst (solve i blk))"
  by (simp add: keeps_status_def skeletons_rel)


lemma keeps_sv_refl [simp]: "keeps_sv b b"
  by (simp add: keeps_sv_def)

lemma keeps_sv_trans: "keeps_sv a b \<Longrightarrow> keeps_sv b c \<Longrightarrow> keeps_sv a c"
  by (simp add: keeps_sv_def)

lemma keeps_sv_OO: "keeps_sv OO keeps_sv = keeps_sv"
  by (auto simp: fun_eq_iff OO_def intro: keeps_sv_trans)

lemma frozen_fixed [simp]: "fixed (frozen v) = fixed v"
  by (simp add: frozen_def)

lemma skeleton_keeps_sv: "skeleton b' = skeleton b \<Longrightarrow> keeps_sv b b'"
proof -
  assume eq: "skeleton b' = skeleton b"
  have c: "component_list b' = component_list b"
    using arg_cong[OF eq, of component_list] by (simp add: skeleton_def)
  have f: "fixed (flow_mol b') = fixed (flow_mol b)"
    using arg_cong[OF eq, of "\<lambda>x. fixed (flow_mol x)"] by (simp add: skeleton_def)
  have p: "fixed (pressure b') = fixed (pressure b)"
    using arg_cong[OF eq, of "\<lambda>x. fixed (pressure x)"] by (simp add: skeleton_def)
  have t: "fixed (temperature b') = fixed (temperature b)"
    using arg_cong[OF eq, of "\<lambda>x. fixed (temperature x)"] by (simp add: skeleton_def)
  have m: "fixed (mole_frac b' j) = fixed (mole_frac b j)" for j
    using arg_cong[OF eq, of "\<lambda>x. fixed (mole_frac x j)"] by (simp add: skeleton_def)
  show ?thesis by (simp add: keeps_sv_def state_var_status_def c f p t m)
qed

lemma set_active_attr_keeps: "set_active_attr a n b = Inr b' \<Longrightarrow> keeps_sv b b'"
  by (auto simp: set_active_attr_def keeps_sv_def state_var_status_def split: option.splits)

lemma set_active_named_keeps: "keeps_sv b (set_active_named a ns b)"
  by (auto simp: set_active_named_def keeps_sv_def state_var_status_def)

lemma deactivate_mol_frac_out_keeps: "deactivate_mol_frac_out b = Inr b' \<Longrightarrow> keeps_sv b b'"
  by (auto simp: deactivate_mol_frac_out_def dest: set_active_attr_keeps split: if_splits)

lemma activate_mol_frac_out_keeps: "activate_mol_frac_out b = Inr b' \<Longrightarrow> keeps_sv b b'"
  by (auto simp: activate_mol_frac_out_def dest: set_active_attr_keeps split: if_splits)

lemma fix_activity_coeff_keeps: "fix_activity_coeff b = Inr b' \<Longrightarrow> keeps_sv b b'"
  by (auto simp: fix_activity_coeff_def keeps_sv_def state_var_status_def split: option.splits)

lemma unfix_activity_coeff_keeps: "unfix_activity_coeff b = Inr b' \<Longrightarrow> keeps_sv b b'"
  by (auto simp: unfix_activity_coeff_def keeps_sv_def state_var_status_def split: option.splits)

lemma prepare_step2_keeps: "prepare_step2 b = Inr b' \<Longrightarrow> keeps_sv b b'"
  by (auto simp: prepare_step2_def Let_def set_active_named_keeps split: if_splits
           intro: keeps_sv_trans[OF set_active_named_keeps] dest!: fix_activity_coeff_keeps)

lemma prepare_step3_keeps: "keeps_sv b (prepare_step3 b)"
  by (simp add: prepare_step3_def set_active_named_keeps)

lemma prepare_step4_keeps: "prepare_step4 b = Inr b' \<Longrightarrow> keeps_sv b b'"
  by (auto simp: prepare_step4_def and_then_eq_Inr split: if_splits
           dest!: set_active_attr_keeps unfix_activity_coeff_keeps intro: keeps_sv_trans)

lemma prepare_step5_keeps: "keeps_sv b (prepare_step5 b)"
  by (simp add: prepare_step5_def set_active_named_keeps)


lemma fix_mole_frac_result:
  "fix_mole_frac mf k js b X = Inr (b', X') \<Longrightarrow> distinct js \<Longrightarrow>
     (\<exists>m. b' = b\<lparr>mole_frac := m\<rparr> \<and> (\<forall>j\<in>set js. fixed (m j)) \<and>
          (\<forall>j. j \<notin> set js \<longrightarrow> m j = mole_frac b j)) \<and>
     (\<forall>j\<in>set js. X' (k, j) = Some (fixed (mole_frac b j))) \<and>
     (\<forall>k' j. k' \<noteq> k \<or> j \<notin> set js \<longrightarrow> X' (k', j) = X (k', j))"
proof (induction mf k js b X arbitrary: b' X' rule: fix_mole_frac.induct)
  case (1 mf k b X)
  then show ?case by (auto intro!: exI[of _ "mole_frac b'"])
next
  case (2 mf k j js b X)
  show ?case
  proof (cases "fixed (mole_frac b j)")
    case True
    with "2.prems" have run: "fix_mole_frac mf k js b (X((k, j) \<mapsto> True)) = Inr (b', X')"
      by simp
    from "2.IH"(1)[OF True run] "2.prems"(2) True show ?thesis
      by (auto simp: fun_upd_def)
  next
    case False
    show ?thesis
    proof (cases mf)
      case None
      let ?b = "mole_frac_update (\<lambda>m. m(j := fix_var (1 / real (length (component_list b))) (m j))) b"
      from "2.prems" False None
      have run: "fix_mole_frac mf k js ?b (X((k, j) \<mapsto> False)) = Inr (b', X')"
        by simp
      from "2.IH"(2)[OF False None run] "2.prems"(2)
      obtain m where m: "b' = ?b\<lparr>mole_frac := m\<rparr>" "\<forall>j\<in>set js. fixed (m j)"
          "\<forall>i. i \<notin> set js \<longrightarrow> m i = mole_frac ?b i"
        and X1: "\<forall>i\<in>set js. X' (k, i) = Some (fixed (mole_frac ?b i))"
        and X2: "\<forall>k' i. k' \<noteq> k \<or> i \<notin> set js \<longrightarrow> X' (k', i) = (X((k, j) \<mapsto> False)) (k', i)"
        by auto
      from "2.prems"(2) have jn: "j \<notin> set js" by simp
      have a: "b' = b\<lparr>mole_frac := m\<rparr>" using m(1) by simp
      have b: "\<forall>i\<in>set (j # js). fixed (m i)"
        using m(2) m(3) jn by (auto simp: fix_var_def)
      have c: "\<forall>i. i \<notin> set (j # js) \<longrightarrow> m i = mole_frac b i"
        using m(3) by auto
      have d: "\<forall>i\<in>set (j # js). X' (k, i) = Some (fixed (mole_frac b i))"
        using X1 X2 jn False by auto
      have e: "\<forall>k' i. k' \<noteq> k \<or> i \<notin> set (j # js) \<longrightarrow> X' (k', i) = X (k', i)"
        using X2 by auto
      from a b c d e show ?thesis by blast
    next
      case (Some d)
      with "2.prems" False obtain x where x: "d j = Some x"
        by (cases "d j") auto
      let ?b = "mole_frac_update (\<lambda>m. m(j := fix_var x (m j))) b"
      from "2.prems" False Some x
      have run: "fix_mole_frac mf k js ?b (X((k, j) \<mapsto> False)) = Inr (b', X')"
        by simp
      from "2.IH"(3)[OF False Some x run] "2.prems"(2)
      obtain m where m: "b' = ?b\<lparr>mole_frac := m\<rparr>" "\<forall>j\<in>set js. fixed (m j)"
          "\<forall>i. i \<notin> set js \<longrightarrow> m i = mole_frac ?b i"
        and X1: "\<forall>i\<in>set js. X' (k, i) = Some (fixed (mole_frac ?b i))"
        and X2: "\<forall>k' i. k' \<noteq> k \<or> i \<notin> set js \<longrightarrow> X' (k', i) = (X((k, j) \<mapsto> False)) (k', i)"
        by auto
      from "2.prems"(2) have jn: "j \<notin> set js" by simp
      have a: "b' = b\<lparr>mole_frac := m\<rparr>" using m(1) by simp
      have b: "\<forall>i\<in>set (j # js). fixed (m i)"
        using m(2) m(3) jn by (auto simp: fix_var_def)
      have c: "\<forall>i. i \<notin> set (j # js) \<longrightarrow> m i = mole_frac b i"
        using m(3) by auto
      have d: "\<forall>i\<in>set (j # js). X' (k, i) = Some (fixed (mole_frac b i))"
        using X1 X2 jn False by auto
      have e: "\<forall>k' i. k' \<noteq> k \<or> i \<notin> set (j # js) \<longrightarrow> X' (k', i) = X (k', i)"
        using X2 by auto
      from a b c d e show ?thesis by blast
    qed
  qed
qed


lemma fix_state_vars_elem_result:
  assumes run: "fix_state_vars_elem a k b fl = Inr (b', fl')"
    and dist: "distinct (component_list b)"
  shows "state_var_status b' = all_fixed b \<and> component_list b' = component_list b \<and>
         flags_match fl' k b \<and> (\<forall>k'. k' \<noteq> k \<longrightarrow> same_flags_at k' fl fl')"
proof -
  obtain b1 fl1 where s1: "fix_flow_mol (arg_flow_mol a) k b fl = (b1, fl1)"
    by (cases "fix_flow_mol (arg_flow_mol a) k b fl")
  from s1 have b1: "fixed (flow_mol b1)" "component_list b1 = component_list b"
    "mole_frac b1 = mole_frac b" "pressure b1 = pressure b" "temperature b1 = temperature b"
    and fl1: "fl1 = fl\<lparr>Fflag := (Fflag fl)(k \<mapsto> fixed (flow_mol b))\<rparr>"
    by (auto simp: fix_flow_mol_def fix_var_def split: if_splits)
  from run s1 obtain b2 X where
    mf: "fix_mole_frac (arg_mole_frac a) k (component_list b) b1 (Xflag fl) = Inr (b2, X)"
    and rest: "fix_temperature (arg_temperature a) k
                 (fst (fix_pressure (arg_pressure a) k b2 (fl1\<lparr>Xflag := X\<rparr>)))
                 (snd (fix_pressure (arg_pressure a) k b2 (fl1\<lparr>Xflag := X\<rparr>))) = (b', fl')"
    by (auto simp: fix_state_vars_elem_def and_then_eq_Inr b1 fl1 case_prod_beta)
  from fix_mole_frac_result[OF mf dist] b1
  obtain m where m: "b2 = b1\<lparr>mole_frac := m\<rparr>" "\<forall>j\<in>set (component_list b). fixed (m j)"
    and X1: "\<forall>j\<in>set (component_list b). X (k, j) = Some (fixed (mole_frac b j))"
    and X2: "\<forall>k' j. k' \<noteq> k \<or> j \<notin> set (component_list b) \<longrightarrow> X (k', j) = Xflag fl (k', j)"
    by auto
  from m b1 have b2: "pressure b2 = pressure b" "temperature b2 = temperature b"
    "fixed (flow_mol b2)" "component_list b2 = component_list b" "mole_frac b2 = m"
    by auto
  from rest b2 have b': "fixed (flow_mol b')" "fixed (pressure b')" "fixed (temperature b')"
    "mole_frac b' = m" "component_list b' = component_list b"
    and fl': "fl' = fl\<lparr>Fflag := (Fflag fl)(k \<mapsto> fixed (flow_mol b)), Xflag := X,
                       Pflag := (Pflag fl)(k \<mapsto> fixed (pressure b)),
                       Tflag := (Tflag fl)(k \<mapsto> fixed (temperature b))\<rparr>"
    by (auto simp: fix_pressure_def fix_temperature_def fix_var_def fl1 split: if_splits)
  have s: "state_var_status b' = all_fixed b"
    using b' m(2) by (auto simp: state_var_status_def all_fixed_def)
  have fm: "flags_match fl' k b"
    using X1 by (simp add: flags_match_def fl')
  have sf: "\<forall>k'. k' \<noteq> k \<longrightarrow> same_flags_at k' fl fl'"
    using X2 by (simp add: same_flags_at_def fl')
  from s b'(5) fm sf show ?thesis by blast
qed

lemma same_flags_at_match: "same_flags_at k fl fl' \<Longrightarrow> flags_match fl k b \<Longrightarrow> flags_match fl' k b"
  by (simp add: same_flags_at_def flags_match_def)

lemma same_flags_at_trans:
  "same_flags_at k fl fl' \<Longrightarrow> same_flags_at k fl' fl'' \<Longrightarrow> same_flags_at k fl fl''"
  by (simp add: same_flags_at_def)

lemma fix_state_vars_frame:
  "fix_state_vars a blk fl = Inr (blk', fl') \<Longrightarrow> k \<notin> fst ` set blk \<Longrightarrow>
   \<forall>x\<in>set blk. distinct (component_list (snd x)) \<Longrightarrow> same_flags_at k fl fl'"
proof (induction a blk fl arbitrary: blk' fl' rule: fix_state_vars.induct)
  case (1 a fl)
  then show ?case by (simp add: same_flags_at_def)
next
  case (2 a k0 b rest fl)
  from "2.prems"(1) obtain b1 fl1 rest' where
    e: "fix_state_vars_elem a k0 b fl = Inr (b1, fl1)"
    and r: "fix_state_vars a rest fl1 = Inr (rest', fl')"
    by (auto simp: and_then_eq_Inr)
  from "2.prems" have "k \<noteq> k0" "distinct (component_list b)" by auto
  with fix_state_vars_elem_result[OF e] have f1: "same_flags_at k fl fl1" by blast
  have f2: "same_flags_at k fl1 fl'"
    using "2.IH"[OF r] "2.prems" by auto
  from f1 f2 show ?case by (rule same_flags_at_trans)
qed

lemma fix_state_vars_result:
  "fix_state_vars a blk fl = Inr (blk', fl') \<Longrightarrow> distinct (map fst blk) \<Longrightarrow>
   \<forall>x\<in>set blk. distinct (component_list (snd x)) \<Longrightarrow> list_all2 (held fl') blk blk'"
proof (induction a blk fl arbitrary: blk' fl' rule: fix_state_vars.induct)
  case (1 a fl)
  then show ?case by simp
next
  case (2 a k b rest fl)
  from "2.prems"(1) obtain b1 fl1 rest' where
    e: "fix_state_vars_elem a k b fl = Inr (b1, fl1)"
    and r: "fix_state_vars a rest fl1 = Inr (rest', fl')"
    and blk': "blk' = (k, b1) # rest'"
    by (auto simp: and_then_eq_Inr)
  from "2.prems" have d: "distinct (component_list b)" and kn: "k \<notin> fst ` set rest"
    and dr: "distinct (map fst rest)" "\<forall>x\<in>set rest. distinct (component_list (snd x))"
    by auto
  from fix_state_vars_elem_result[OF e d]
  have h1: "state_var_status b1 = all_fixed b" "component_list b1 = component_list b"
    "flags_match fl1 k b" by auto
  from fix_state_vars_frame[OF r kn dr(2)] h1(3) have "flags_match fl' k b"
    by (rule same_flags_at_match)
  with h1 have hd: "held fl' (k, b) (k, b1)" by (simp add: held_def)
  have tl: "list_all2 (held fl') rest rest'"
    using "2.IH"[OF r dr] .
  from hd tl show ?case by (simp add: blk')
qed

lemma release_mole_frac_result:
  "\<forall>j\<in>set js. Xflag fl (k, j) = Some (x j) \<Longrightarrow>
   \<exists>m. release_mole_frac fl k js b = Inr (b\<lparr>mole_frac := m\<rparr>) \<and>
       (\<forall>j. fixed (m j) = (if j \<in> set js then x j \<and> fixed (mole_frac b j)
                            else fixed (mole_frac b j)))"
proof (induction js arbitrary: b)
  case Nil
  show ?case by (auto intro!: exI[of _ "mole_frac b"])
next
  case (Cons j js)
  let ?b = "if \<not> x j then mole_frac_update (\<lambda>m. m(j := unfix_var (m j))) b else b"
  from Cons.prems have "\<forall>j\<in>set js. Xflag fl (k, j) = Some (x j)" by simp
  from Cons.IH[OF this, of ?b] obtain m where
    m: "release_mole_frac fl k js ?b = Inr (?b\<lparr>mole_frac := m\<rparr>)"
      "\<forall>i. fixed (m i) = (if i \<in> set js then x i \<and> fixed (mole_frac ?b i)
                            else fixed (mole_frac ?b i))"
    by blast
  have eq: "?b\<lparr>mole_frac := m\<rparr> = b\<lparr>mole_frac := m\<rparr>" by simp
  from Cons.prems have xj: "Xflag fl (k, j) = Some (x j)" by simp
  have run: "release_mole_frac fl k (j # js) b = Inr (b\<lparr>mole_frac := m\<rparr>)"
    using m(1) xj unfolding eq by (simp add: lookup_def)
  have "\<forall>i. fixed (m i) = (if i \<in> set (j # js) then x i \<and> fixed (mole_frac b i)
                            else fixed (mole_frac b i))"
    using m(2) by (auto simp: unfix_var_def)
  with run show ?case by blast
qed

lemma release_state_elem_result:
  assumes "held fl (k, b) (k', b')"
  shows "\<exists>b''. release_state_elem fl k' b' = Inr b'' \<and>
               state_var_status b'' = state_var_status b \<and> component_list b'' = component_list b"
proof -
  from assms have k: "k' = k" and c: "component_list b' = component_list b"
    and s: "fixed (flow_mol b')" "fixed (pressure b')" "fixed (temperature b')"
       "\<forall>j\<in>set (component_list b). fixed (mole_frac b' j)"
    and f: "Fflag fl k = Some (fixed (flow_mol b))" "Pflag fl k = Some (fixed (pressure b))"
       "Tflag fl k = Some (fixed (temperature b))"
       "\<forall>j\<in>set (component_list b). Xflag fl (k, j) = Some (fixed (mole_frac b j))"
    by (auto simp: held_def state_var_status_def all_fixed_def flags_match_def)
  let ?b1 = "if \<not> fixed (flow_mol b) then flow_mol_update unfix_var b' else b'"
  have c1: "component_list ?b1 = component_list b" "mole_frac ?b1 = mole_frac b'"
    using c by auto
  from release_mole_frac_result[OF f(4), of ?b1] obtain m where
    m: "release_mole_frac fl k (component_list b) ?b1 = Inr (?b1\<lparr>mole_frac := m\<rparr>)"
       "\<forall>j. fixed (m j) = (if j \<in> set (component_list b)
                              then fixed (mole_frac b j) \<and> fixed (mole_frac ?b1 j)
                              else fixed (mole_frac ?b1 j))"
    by blast
  let ?b2 = "?b1\<lparr>mole_frac := m\<rparr>"
  let ?b3 = "if \<not> fixed (pressure b) then pressure_update unfix_var ?b2 else ?b2"
  let ?b4 = "if \<not> fixed (temperature b) then temperature_update unfix_var ?b3 else ?b3"
  have run: "release_state_elem fl k' b' = Inr ?b4"
    using m(1) f(1,2,3) c1(1) unfolding release_state_elem_def k
    by (simp add: lookup_def Let_def)
  have st: "state_var_status ?b4 = state_var_status b"
    using s m(2) c by (auto simp: state_var_status_def unfix_var_def)
  have cl: "component_list ?b4 = component_list b" using c by simp
  from run st cl show ?thesis by blast
qed

lemma release_all_result:
  "list_all2 (held fl) blk blk' \<Longrightarrow>
   \<exists>blk''. release_all fl blk' = Inr blk'' \<and> status_of blk'' = status_of blk"
proof (induction rule: list_all2_induct)
  case Nil
  show ?case by (simp add: status_of_def)
next
  case (Cons x xs y ys)
  obtain k b k' b' where xy: "x = (k, b)" "y = (k', b')" by (cases x, cases y) auto
  from Cons.hyps(1) xy have k: "k' = k" by (simp add: held_def)
  from release_state_elem_result[OF Cons.hyps(1)[unfolded xy]] obtain b'' where
    e: "release_state_elem fl k' b' = Inr b''" "state_var_status b'' = state_var_status b"
    by blast
  from Cons.IH obtain ys'' where r: "release_all fl ys = Inr ys''" "status_of ys'' = status_of xs"
    by blast
  have "release_all fl (y # ys) = Inr ((k', b'') # ys'')"
    using e(1) r(1) by (simp add: xy)
  moreover have "status_of ((k', b'') # ys'') = status_of (x # xs)"
    using e(2) r(2) k by (simp add: status_of_def xy)
  ultimately show ?case by blast
qed


lemma fst_solve_step [simp]: "fst (solve_step solve i lvl blk) = fst (solve i blk)"
  by (simp add: solve_step_def case_prod_beta)

lemma snd_solve_step:
  "snd (solve_step solve i lvl blk) = Solve i blk # step_log i lvl (snd (solve i blk))"
  by (simp add: solve_step_def case_prod_beta step_log_def)

lemma solve_sequence_InrE:
  assumes "solve_sequence solve lvl blk = Inr (blkF, ev)"
  obtains blk3 ev1 blk4 blk8 where
    "step1 solve lvl (for_all_elems (set_active_named False first_solve_names) blk)
       = Inr (blk3, ev1)"
    "for_each prepare_step2 blk3 = Inr blk4"
    "for_each prepare_step4
       (fst (solve 3 (for_all_elems prepare_step3 (fst (solve 2 blk4))))) = Inr blk8"
    "for_each activate_mol_frac_out
       (fst (solve 5 (for_all_elems prepare_step5 (fst (solve 4 blk8))))) = Inr blkF"
    "ev = ev1 @ snd (solve_step solve 2 lvl blk4)
           @ snd (solve_step solve 3 lvl (for_all_elems prepare_step3 (fst (solve 2 blk4))))
           @ snd (solve_step solve 4 lvl blk8)
           @ snd (solve_step solve 5 lvl (for_all_elems prepare_step5 (fst (solve 4 blk8))))"
  using assms unfolding solve_sequence_def
  by (auto simp: and_then_eq_Inr Let_def case_prod_beta)

lemma rel_keeps_trans [trans]:
  "rel_blk keeps_sv xs ys \<Longrightarrow> rel_blk keeps_sv ys zs \<Longrightarrow> rel_blk keeps_sv xs zs"
  using rel_blk_trans[of keeps_sv xs ys keeps_sv zs] by (simp add: keeps_sv_OO)

lemma for_each_keeps:
  "(\<And>b b'. f b = Inr b' \<Longrightarrow> keeps_sv b b') \<Longrightarrow> for_each f xs = Inr ys \<Longrightarrow> rel_blk keeps_sv xs ys"
  by (rule rel_blk_mono[OF for_each_rel])

lemma for_all_keeps: "(\<And>b. keeps_sv b (f b)) \<Longrightarrow> rel_blk keeps_sv xs (for_all_elems f xs)"
  by (rule rel_blk_mono[OF for_all_elems_rel]) simp

lemma solver_keeps: "keeps_status solve \<Longrightarrow> rel_blk keeps_sv xs (fst (solve i xs))"
  by (rule rel_blk_mono[OF solver_rel]) (simp_all add: skeleton_keeps_sv)

lemma step1_keeps:
  "keeps_status solve \<Longrightarrow> step1 solve lvl xs = Inr (ys, ev) \<Longrightarrow> rel_blk keeps_sv xs ys"
  using solver_keeps[of solve xs 1] for_all_keeps[of id xs]
  by (auto simp: step1_def for_all_elems_def split: if_splits
           dest!: arg_cong[where f=fst])

lemma solve_sequence_keeps:
  assumes ks: "keeps_status solve" and run: "solve_sequence solve lvl blk = Inr (blkF, ev)"
  shows "rel_blk keeps_sv blk blkF"
proof -
  from run obtain blk3 ev1 blk4 blk8 where
    s1: "step1 solve lvl (for_all_elems (set_active_named False first_solve_names) blk)
       = Inr (blk3, ev1)"
    and s2: "for_each prepare_step2 blk3 = Inr blk4"
    and s4: "for_each prepare_step4
       (fst (solve 3 (for_all_elems prepare_step3 (fst (solve 2 blk4))))) = Inr blk8"
    and s6: "for_each activate_mol_frac_out
       (fst (solve 5 (for_all_elems prepare_step5 (fst (solve 4 blk8))))) = Inr blkF"
    by (rule solve_sequence_InrE)
  note t = rel_keeps_trans
  have "rel_blk keeps_sv blk blk3"
    by (rule t[OF for_all_keeps step1_keeps[OF ks s1]]) (rule set_active_named_keeps)
  also have "rel_blk keeps_sv blk3 blk4"
    by (rule for_each_keeps[OF prepare_step2_keeps s2])
  also have "rel_blk keeps_sv blk4 (fst (solve 2 blk4))"
    by (rule solver_keeps[OF ks])
  also have "rel_blk keeps_sv (fst (solve 2 blk4)) (for_all_elems prepare_step3 (fst (solve 2 blk4)))"
    by (rule for_all_keeps[OF prepare_step3_keeps])
  also have "rel_blk keeps_sv (for_all_elems prepare_step3 (fst (solve 2 blk4)))
       (fst (solve 3 (for_all_elems prepare_step3 (fst (solve 2 blk4)))))"
    by (rule solver_keeps[OF ks])
  also have "rel_blk keeps_sv (fst (solve 3 (for_all_elems prepare_step3 (fst (solve 2 blk4))))) blk8"
    by (rule for_each_keeps[OF prepare_step4_keeps s4])
  also have "rel_blk keeps_sv blk8 (fst (solve 4 blk8))"
    by (rule solver_keeps[OF ks])
  also have "rel_blk keeps_sv (fst (solve 4 blk8)) (for_all_elems prepare_step5 (fst (solve 4 blk8)))"
    by (rule for_all_keeps[OF prepare_step5_keeps])
  also have "rel_blk keeps_sv (for_all_elems prepare_step5 (fst (solve 4 blk8)))
       (fst (solve 5 (for_all_elems prepare_step5 (fst (solve 4 blk8)))))"
    by (rule solver_keeps[OF ks])
  also have "rel_blk keeps_sv (fst (solve 5 (for_all_elems prepare_step5 (fst (solve 4 blk8))))) blkF"
    by (rule for_each_keeps[OF activate_mol_frac_out_keeps s6])
  finally show ?thesis .
qed


lemma held_left:
  "rel_blk keeps_sv xs ys \<Longrightarrow> list_all2 (held fl) ys zs \<Longrightarrow> list_all2 (held fl) xs zs"
  unfolding rel_blk_def
  by (erule (1) list_all2_trans[rotated])
     (auto simp: held_def keeps_sv_def all_fixed_def flags_match_def state_var_status_def)

lemma held_right:
  "list_all2 (held fl) xs ys \<Longrightarrow> rel_blk keeps_sv ys zs \<Longrightarrow> list_all2 (held fl) xs zs"
  unfolding rel_blk_def
  by (erule (1) list_all2_trans[rotated])
     (auto simp: held_def keeps_sv_def)

lemma held_status:
  "list_all2 (held fl) xs ys \<Longrightarrow> status_of ys = map (\<lambda>(k, b). (k, all_fixed b)) xs"
  by (induction rule: list_all2_induct) (auto simp: status_of_def held_def)

lemma rel_keeps_distinct:
  "rel_blk keeps_sv xs ys \<Longrightarrow> \<forall>x\<in>set xs. distinct (component_list (snd x)) \<Longrightarrow>
   \<forall>y\<in>set ys. distinct (component_list (snd y))"
  unfolding rel_blk_def
  by (induction rule: list_all2_induct) (auto simp: keeps_sv_def)

lemmas example_defs = example_config_def example_comps_def example_elem_def example_blk_def
  example_solver_def example_args_def

lemmas build_defs = build_def make_state_vars_def make_flash_eq_def make_NRTL_eq_def
  make_Wilson_eq_def make_liq_phase_eq_def make_vap_phase_eq_def add_mol_frac_out_def
  add_constraint_def new_var_def fix_var_def unfix_var_def two_phase_def Let_def

lemmas init_defs = initialize_def fix_or_check_def solve_sequence_def finish_def
  deactivate_mol_frac_out_def activate_mol_frac_out_def set_active_attr_def
  set_active_named_def for_all_elems_def fix_state_vars_elem_def fix_flow_mol_def
  fix_pressure_def fix_temperature_def empty_flags_def step1_def solve_step_def
  prepare_step2_def prepare_step3_def prepare_step4_def prepare_step5_def
  fix_activity_coeff_def unfix_activity_coeff_def first_solve_names_def
  release_state_def release_state_elem_def lookup_def

lemma example_build: "build example_config example_comps = Inr example_elem"
  by (simp add: example_defs build_defs)

lemma example_returns: "\<exists>r. initialize (\<lambda>b. 0) example_solver example_args example_blk = Inr r"
  by (simp add: example_defs build_defs init_defs)

subsection \<open>C1: initialising with the state held, then releasing it\<close>

text \<open>
  C1.  Take any indexed state block (its keys distinct, the components of each element
  distinct) with any fixed or free status of \<open>flow_mol\<close>, \<open>mole_frac\<close>, \<open>pressure\<close>
  and \<open>temperature\<close>, and a solver that changes only the values of free variables.
  When \<open>initialize\<close> is called with \<open>hold_state=True\<close> and \<open>state_vars_fixed=False\<close>
  and returns, it returns a flag dictionary, every state variable is then fixed, and
  \<open>release_state\<close> with that dictionary succeeds and leaves every state variable with
  the fixed status it had before \<open>initialize\<close>: it unfixes exactly the variables that
  \<open>initialize\<close> fixed.
\<close>

theorem initialize_release_round_trip:
  assumes ks: "keeps_status solve"
    and wi: "well_indexed blk"
    and hold: "hold_state a" and nf: "\<not> state_vars_fixed a"
    and run: "initialize dof solve a blk = Inr r"
  shows "\<exists>fl blk' ev.
           returned r = Some fl \<and>
           status_of (block r) = map (\<lambda>(k, b). (k, all_fixed b)) blk \<and>
           release_state (block r) (Some fl) lvl = Inr (blk', ev) \<and>
           status_of blk' = status_of blk"
proof -
  from wi have dk: "distinct (map fst blk)"
    and dc: "\<forall>x\<in>set blk. distinct (component_list (snd x))"
    by (simp_all add: well_indexed_def list_all_iff)
  from run nf hold obtain blk0 blk1 fl ev where
    s0: "for_each deactivate_mol_frac_out blk = Inr blk0"
    and s1: "fix_state_vars a blk0 empty_flags = Inr (blk1, fl)"
    and s2: "solve_sequence solve (outlvl a) blk1 = Inr (block r, ev)"
    and ret: "returned r = Some fl"
    by (auto simp: initialize_def fix_or_check_def finish_def and_then_eq_Inr)
  have r0: "rel_blk keeps_sv blk blk0"
    by (rule for_each_keeps[OF deactivate_mol_frac_out_keeps s0])
  have dk0: "distinct (map fst blk0)"
    using dk rel_blk_keys[OF r0] by simp
  have dc0: "\<forall>x\<in>set blk0. distinct (component_list (snd x))"
    by (rule rel_keeps_distinct[OF r0 dc])
  have h: "list_all2 (held fl) blk (block r)"
    by (rule held_right[OF held_left[OF r0 fix_state_vars_result[OF s1 dk0 dc0]]
                           solve_sequence_keeps[OF ks s2]])
  from release_all_result[OF h] obtain blk' where
    rel: "release_all fl (block r) = Inr blk'" and st: "status_of blk' = status_of blk"
    by blast
  have "release_state (block r) (Some fl) lvl
          = Inr (blk', if lvl > 0 then [Log INFO State_released] else [])"
    using rel by (simp add: release_state_def)
  with ret held_status[OF h] st show ?thesis by blast
qed

text \<open>The concrete block: the caller had fixed the pressure only, and only the
  pressure is still fixed after the release.\<close>

theorem initialize_release_round_trip_witness:
  "keeps_status example_solver \<and> well_indexed example_blk \<and>
   hold_state example_args \<and> \<not> state_vars_fixed example_args \<and>
   (\<exists>r. initialize (\<lambda>b. 0) example_solver example_args example_blk = Inr r \<and>
     (\<exists>fl blk' ev.
        returned r = Some fl \<and>
        status_of (block r) =
          [(0, True, [(''benzene'', True), (''toluene'', True)], True, True)] \<and>
        release_state (block r) (Some fl) 0 = Inr (blk', ev) \<and>
        status_of blk' =
          [(0, False, [(''benzene'', False), (''toluene'', False)], True, False)]))"
proof -
  have ks: "keeps_status example_solver"
    by (simp add: keeps_status_def example_solver_def)
  have wi: "well_indexed example_blk"
    by (simp add: well_indexed_def example_defs build_defs)
  have hold: "hold_state example_args" and nf: "\<not> state_vars_fixed example_args"
    by (simp_all add: example_args_def)
  obtain r where run: "initialize (\<lambda>b. 0) example_solver example_args example_blk = Inr r"
    using example_returns by blast
  have st: "status_of example_blk =
      [(0, False, [(''benzene'', False), (''toluene'', False)], True, False)]"
    by (simp add: status_of_def state_var_status_def example_defs build_defs)
  have af: "map (\<lambda>(k, b). (k, all_fixed b)) example_blk =
      [(0, True, [(''benzene'', True), (''toluene'', True)], True, True)]"
    by (simp add: all_fixed_def example_defs build_defs)
  from initialize_release_round_trip[OF ks wi hold nf run, of 0]
  show ?thesis using ks wi hold nf run unfolding st af by blast
qed

lemma solve_inputs_append [simp]: "solve_inputs (xs @ ys) = solve_inputs xs @ solve_inputs ys"
  by (induction xs rule: solve_inputs.induct) simp_all

lemma solve_inputs_step_log [simp]: "solve_inputs (step_log i lvl tc) = []"
  by (simp add: step_log_def)

lemma solve_inputs_solve_step [simp]:
  "solve_inputs (snd (solve_step solve i lvl blk)) = [(i, blk)]"
  by (simp add: snd_solve_step)

lemma fix_mole_frac_config:
  "fix_mole_frac mf k js b X = Inr (b', X') \<Longrightarrow> config b' = config b"
proof (induction mf k js b X arbitrary: b' X' rule: fix_mole_frac.induct)
  case (1 mf k b X)
  then show ?case by simp
next
  case (2 mf k j js b X)
  show ?case
  proof (cases "fixed (mole_frac b j)")
    case True
    with "2.prems" have "fix_mole_frac mf k js b (X((k, j) \<mapsto> True)) = Inr (b', X')"
      by simp
    from "2.IH"(1)[OF True this] show ?thesis .
  next
    case False
    show ?thesis
    proof (cases mf)
      case None
      let ?b = "mole_frac_update
                  (\<lambda>m. m(j := fix_var (1 / real (length (component_list b))) (m j))) b"
      from "2.prems" False None
      have "fix_mole_frac mf k js ?b (X((k, j) \<mapsto> False)) = Inr (b', X')"
        by simp
      from "2.IH"(2)[OF False None this] show ?thesis by simp
    next
      case (Some d)
      with "2.prems" False obtain x where x: "d j = Some x"
        by (cases "d j") simp_all
      let ?b = "mole_frac_update (\<lambda>m. m(j := fix_var x (m j))) b"
      from "2.prems" False Some x
      have "fix_mole_frac mf k js ?b (X((k, j) \<mapsto> False)) = Inr (b', X')"
        by simp
      from "2.IH"(3)[OF False Some x this] show ?thesis by simp
    qed
  qed
qed

lemma fix_flow_mol_config [simp]: "config (fst (fix_flow_mol x k b fl)) = config b"
  by (simp add: fix_flow_mol_def)

lemma fix_pressure_config [simp]: "config (fst (fix_pressure x k b fl)) = config b"
  by (simp add: fix_pressure_def)

lemma fix_temperature_config [simp]: "config (fst (fix_temperature x k b fl)) = config b"
  by (simp add: fix_temperature_def)

lemma fix_state_vars_elem_config:
  assumes "fix_state_vars_elem a k b fl = Inr (b', fl')"
  shows "config b' = config b"
proof -
  let ?s = "fix_flow_mol (arg_flow_mol a) k b fl"
  from assms obtain b2 X where
    mf: "fix_mole_frac (arg_mole_frac a) k (component_list (fst ?s)) (fst ?s) (Xflag (snd ?s))
           = Inr (b2, X)"
    and b': "b' = fst (fix_temperature (arg_temperature a) k
                 (fst (fix_pressure (arg_pressure a) k b2 ((snd ?s)\<lparr>Xflag := X\<rparr>)))
                 (snd (fix_pressure (arg_pressure a) k b2 ((snd ?s)\<lparr>Xflag := X\<rparr>))))"
    unfolding fix_state_vars_elem_def
    by (simp add: and_then_eq_Inr case_prod_beta) (metis fst_conv)
  from fix_mole_frac_config[OF mf] show ?thesis by (simp add: b')
qed

lemma fix_state_vars_config:
  "fix_state_vars a blk fl = Inr (blk', fl') \<Longrightarrow> rel_blk same_config blk blk'"
proof (induction a blk fl arbitrary: blk' fl' rule: fix_state_vars.induct)
  case (1 a fl)
  then show ?case by simp
next
  case (2 a k b rest fl)
  from "2.prems"(1) obtain b1 fl1 rest' where
    e: "fix_state_vars_elem a k b fl = Inr (b1, fl1)"
    and r: "fix_state_vars a rest fl1 = Inr (rest', fl')"
    and blk': "blk' = (k, b1) # rest'"
    by (auto simp: and_then_eq_Inr)
  from fix_state_vars_elem_config[OF e] "2.IH"[OF r] show ?case
    by (simp add: blk' same_config_def)
qed

lemma rel_blk_last:
  "rel_blk R xs ys \<Longrightarrow> xs \<noteq> [] \<Longrightarrow> ys \<noteq> [] \<and> R (snd (last xs)) (snd (last ys))"
  unfolding rel_blk_def by (induction rule: list_all2_induct) (auto simp: list_all2_Nil)

lemma rel_blk_Nil_iff: "rel_blk R xs ys \<Longrightarrow> xs = [] \<longleftrightarrow> ys = []"
  unfolding rel_blk_def by (auto simp: list_all2_Nil list_all2_Nil2)

lemma same_config_trans [trans]:
  "rel_blk same_config xs ys \<Longrightarrow> rel_blk same_config ys zs \<Longrightarrow> rel_blk same_config xs zs"
  by (rule rel_blk_mono[OF rel_blk_trans]) (auto simp: same_config_def)

lemma deactivate_mol_frac_out_config:
  "deactivate_mol_frac_out b = Inr b' \<Longrightarrow> same_config b b'"
  by (auto simp: deactivate_mol_frac_out_def set_active_attr_def same_config_def
           split: if_splits option.splits)

lemma rel_blk_refl: "(\<And>b. R b b) \<Longrightarrow> rel_blk R xs xs"
  by (induction xs) auto

lemma fix_or_check_config:
  assumes "fix_or_check dof a blk = Inr (blk', fl)"
  shows "rel_blk same_config blk blk'"
proof (cases "state_vars_fixed a")
  case True
  with assms have "blk' = blk" by (auto simp: fix_or_check_def and_then_eq_Inr)
  then show ?thesis by (simp add: rel_blk_refl same_config_def)
next
  case False
  with assms obtain f where "fix_state_vars a blk empty_flags = Inr (blk', f)"
    by (auto simp: fix_or_check_def and_then_eq_Inr)
  then show ?thesis by (rule fix_state_vars_config)
qed

lemma solve_sequence_calls:
  assumes "solve_sequence solve lvl blk = Inr (blkF, ev)"
  shows "blk \<noteq> [] \<and> map fst (solve_inputs ev) =
           (if two_phase (config (snd (last blk))) then [1, 2, 3, 4, 5] else [2, 3, 4, 5])"
proof -
  let ?blk = "for_all_elems (set_active_named False first_solve_names) blk"
  from assms obtain blk3 ev1 blk4 blk8 where
    s1: "step1 solve lvl ?blk = Inr (blk3, ev1)"
    and ev: "ev = ev1 @ snd (solve_step solve 2 lvl blk4)
           @ snd (solve_step solve 3 lvl (for_all_elems prepare_step3 (fst (solve 2 blk4))))
           @ snd (solve_step solve 4 lvl blk8)
           @ snd (solve_step solve 5 lvl (for_all_elems prepare_step5 (fst (solve 4 blk8))))"
    by (rule solve_sequence_InrE)
  have r: "rel_blk same_config blk ?blk"
    by (rule rel_blk_mono[OF for_all_elems_rel]) (simp add: same_config_def set_active_named_def)
  from s1 have ne: "?blk \<noteq> []" by (auto simp: step1_def split: if_splits)
  with rel_blk_Nil_iff[OF r] have ne0: "blk \<noteq> []" by simp
  from rel_blk_last[OF r ne0] have c: "config (snd (last ?blk)) = config (snd (last blk))"
    by (simp add: same_config_def)
  have "map fst (solve_inputs ev1) =
      (if two_phase (config (snd (last blk))) then [1] else [])"
  proof (cases "two_phase (config (snd (last blk)))")
    case True
    with s1 ne c have "ev1 = snd (solve_step solve 1 lvl ?blk)"
      by (simp add: step1_def)
    with True show ?thesis by simp
  next
    case False
    with s1 ne c have "ev1 = (if lvl > 0 then [Log INFO (Step_skipped 1)] else [])"
      by (simp add: step1_def)
    with False show ?thesis by simp
  qed
  then have "map fst (solve_inputs ev) =
      (if two_phase (config (snd (last blk))) then [1] else []) @ [2, 3, 4, 5]"
    unfolding ev by simp
  with ne0 show ?thesis by (simp split: if_splits)
qed

lemma finish_solve_inputs:
  assumes fin: "finish a fl blkF ev = Inr r"
  shows "solve_inputs (trace r) = solve_inputs ev"
proof (cases "\<not> state_vars_fixed a \<and> \<not> hold_state a")
  case True
  with fin obtain b' evr where rs: "release_state blkF fl 0 = Inr (b', evr)"
    and tr: "trace r = ev @ evr
               @ (if outlvl a > 0 then [Log INFO Initialisation_completed] else [])"
    by (auto simp: finish_def Let_def and_then_eq_Inr)
  from rs have "evr = []"
    by (auto simp: release_state_def and_then_eq_Inr split: option.splits)
  with tr show ?thesis by simp
next
  case False
  with fin show ?thesis by (auto simp: finish_def Let_def split: if_splits)
qed

subsection \<open>C4: the first solve is for two-phase blocks only\<close>

text \<open>
  C4.  Whenever \<open>initialize\<close> returns, the block has at least one key, and the
  solver call of step 1 (the phase-equilibrium sub-system that is left after the ten
  named constraints are deactivated) is in the trace if and only if the test of lines
  307-311 holds, that is, \<open>has_phase_equilibrium\<close> is set or \<open>valid_phase\<close> is a
  vapour-liquid pair; the routine reads these options from the element of the last key.
  For a two-phase block the solver calls are those of steps 1 to 5; for a single-phase
  block the first solver call is that of step 2, the mass-balance solve.
\<close>

theorem first_solve_iff_two_phase:
  assumes "initialize dof solve a blk = Inr r"
  shows "blk \<noteq> [] \<and>
         (1 \<in> set (map fst (solve_inputs (trace r))) \<longleftrightarrow> two_phase (config (snd (last blk)))) \<and>
         map fst (solve_inputs (trace r)) =
           (if two_phase (config (snd (last blk))) then [1, 2, 3, 4, 5] else [2, 3, 4, 5])"
proof -
  from assms obtain blk0 blk1 fl blkF ev where
    s0: "for_each deactivate_mol_frac_out blk = Inr blk0"
    and s1: "fix_or_check dof a blk0 = Inr (blk1, fl)"
    and s2: "solve_sequence solve (outlvl a) blk1 = Inr (blkF, ev)"
    and fin: "finish a fl blkF ev = Inr r"
    by (auto simp: initialize_def and_then_eq_Inr)
  have "rel_blk same_config blk blk0"
    by (rule rel_blk_mono[OF for_each_rel[OF s0]]) (rule deactivate_mol_frac_out_config)
  also have "rel_blk same_config blk0 blk1" by (rule fix_or_check_config[OF s1])
  finally have r: "rel_blk same_config blk blk1" .
  from solve_sequence_calls[OF s2] have ne1: "blk1 \<noteq> []"
    and calls: "map fst (solve_inputs ev) =
           (if two_phase (config (snd (last blk1))) then [1, 2, 3, 4, 5] else [2, 3, 4, 5])"
    by auto
  from rel_blk_Nil_iff[OF r] ne1 have ne: "blk \<noteq> []" by simp
  from rel_blk_last[OF r ne] have c: "config (snd (last blk1)) = config (snd (last blk))"
    by (simp add: same_config_def)
  have "solve_inputs (trace r) = solve_inputs ev"
    by (rule finish_solve_inputs[OF fin])
  then have "map fst (solve_inputs (trace r)) =
           (if two_phase (config (snd (last blk))) then [1, 2, 3, 4, 5] else [2, 3, 4, 5])"
    using calls c by simp
  with ne show ?thesis by (simp split: if_splits)
qed

theorem first_solve_iff_two_phase_witness:
  "\<exists>r. initialize (\<lambda>b. 0) example_solver example_args example_blk = Inr r \<and>
       example_blk \<noteq> [] \<and>
       1 \<in> set (map fst (solve_inputs (trace r))) \<and>
       two_phase (config (snd (last example_blk))) \<and>
       map fst (solve_inputs (trace r)) = [1, 2, 3, 4, 5]"
proof -
  obtain r where run: "initialize (\<lambda>b. 0) example_solver example_args example_blk = Inr r"
    using example_returns by blast
  have tp: "two_phase (config (snd (last example_blk)))"
    by (simp add: example_defs build_defs)
  from first_solve_iff_two_phase[OF run] tp run show ?thesis by auto
qed

lemma calm_step_log [simp]: "map calm (step_log i lvl tc) = step_log i lvl optimal"
  by (simp add: step_log_def)
















subsection \<open>C7: \<open>state_vars_fixed=True\<close> and the degrees of freedom\<close>



lemma view_step_trans:
  "rel_blk (view_step F) xs ys \<Longrightarrow> rel_blk (view_step G) ys zs \<Longrightarrow>
   rel_blk (view_step (\<lambda>v. G (F v))) xs zs"
  by (rule rel_blk_mono[OF rel_blk_trans]) (auto simp: view_step_def)

lemma fixed_at_frozen: "frozen v' = frozen v \<Longrightarrow> fixed_at v' = fixed_at v"
  by (auto simp: frozen_def fixed_at_def split: if_splits)

lemma skeleton_act_view: "skeleton b' = skeleton b \<Longrightarrow> act_view b' = act_view b"
proof -
  assume eq: "skeleton b' = skeleton b"
  have c: "component_list b' = component_list b" "config b' = config b"
    "constraints b' = constraints b"
    using arg_cong[OF eq, of component_list] arg_cong[OF eq, of config]
      arg_cong[OF eq, of constraints] by (simp_all add: skeleton_def)
  have a: "map_option (\<lambda>g j. frozen (g j)) (activity_coeff_comp b')
         = map_option (\<lambda>g j. frozen (g j)) (activity_coeff_comp b)"
    using arg_cong[OF eq, of activity_coeff_comp] by (simp add: skeleton_def)
  have "coeff_status b' = coeff_status b"
  proof (cases "activity_coeff_comp b")
    case None
    with a show ?thesis by (simp add: coeff_status_def)
  next
    case (Some g)
    with a obtain g' where g': "activity_coeff_comp b' = Some g'"
      and fr: "(\<lambda>j. frozen (g' j)) = (\<lambda>j. frozen (g j))"
      by (cases "activity_coeff_comp b'") auto
    from fr have "frozen (g' j) = frozen (g j)" for j by (rule fun_cong)
    then have "fixed_at (g' j) = fixed_at (g j)" for j by (rule fixed_at_frozen)
    with Some g' c show ?thesis by (simp add: coeff_status_def)
  qed
  with c show ?thesis by (simp add: act_view_def con_status_def)
qed

lemma solver_view:
  "keeps_status solve \<Longrightarrow> rel_blk (view_step (\<lambda>v. v)) blk (fst (solve i blk))"
  by (rule rel_blk_mono[OF solver_rel]) (auto simp: view_step_def intro: skeleton_act_view)

lemma act_view_cases: obtains m cl cs g a b e where "act_view x = (m, cl, cs, g, a, b, e)"
  by (cases "act_view x") blast

lemma set_active_attr_mol_frac_view:
  "set_active_attr a ''eq_mol_frac_out'' b = Inr b' \<Longrightarrow> act_view b' = act_view b"
  by (auto simp: set_active_attr_def act_view_def coeff_status_def con_status_def
           split: option.splits)

lemma deactivate_mol_frac_out_view:
  "deactivate_mol_frac_out b = Inr b' \<Longrightarrow> view_step (\<lambda>v. v) b b'"
  by (auto simp: deactivate_mol_frac_out_def view_step_def
           dest: set_active_attr_mol_frac_view split: if_splits)

lemma activate_mol_frac_out_view:
  "activate_mol_frac_out b = Inr b' \<Longrightarrow> view_step (\<lambda>v. v) b b'"
  by (auto simp: activate_mol_frac_out_def view_step_def
           dest: set_active_attr_mol_frac_view split: if_splits)

lemma first_deactivation_view:
  "view_step v_deactivate b (set_active_named False first_solve_names b)"
  by (simp add: view_step_def act_view_def set_active_named_def first_solve_names_def
        coeff_status_def con_status_def split: option.splits)

lemma prepare_step2_view: "prepare_step2 b = Inr b' \<Longrightarrow> view_step v_step2 b b'"
  by (auto simp: prepare_step2_def Let_def view_step_def act_view_def set_active_named_def
        fix_activity_coeff_def coeff_status_def con_status_def fixed_at_def fix_var_def
        split: if_splits option.splits)

lemma prepare_step3_view: "view_step v_step3 b (prepare_step3 b)"
  by (simp add: prepare_step3_def view_step_def act_view_def set_active_named_def
        coeff_status_def con_status_def split: option.splits)

lemma prepare_step4_view: "prepare_step4 b = Inr b' \<Longrightarrow> view_step v_step4 b b'"
  by (auto simp: prepare_step4_def view_step_def act_view_def set_active_attr_def
        unfix_activity_coeff_def coeff_status_def con_status_def fixed_at_def unfix_var_def
        and_then_eq_Inr split: if_splits option.splits)

lemma prepare_step5_view: "view_step (\<lambda>v. v) b (prepare_step5 b)"
  by (simp add: prepare_step5_def view_step_def act_view_def set_active_named_def
        coeff_status_def con_status_def split: option.splits)

lemma fix_mole_frac_only:
  "fix_mole_frac mf k js b X = Inr (b', X') \<Longrightarrow> \<exists>m. b' = b\<lparr>mole_frac := m\<rparr>"
proof (induction mf k js b X arbitrary: b' X' rule: fix_mole_frac.induct)
  case (1 mf k b X)
  then show ?case by (auto intro!: exI[of _ "mole_frac b'"])
next
  case (2 mf k j js b X)
  show ?case
  proof (cases "fixed (mole_frac b j)")
    case True
    with "2.prems" have "fix_mole_frac mf k js b (X((k, j) \<mapsto> True)) = Inr (b', X')"
      by simp
    from "2.IH"(1)[OF True this] show ?thesis .
  next
    case False
    show ?thesis
    proof (cases mf)
      case None
      let ?b = "mole_frac_update
                  (\<lambda>m. m(j := fix_var (1 / real (length (component_list b))) (m j))) b"
      from "2.prems" False None
      have "fix_mole_frac mf k js ?b (X((k, j) \<mapsto> False)) = Inr (b', X')"
        by simp
      from "2.IH"(2)[OF False None this] obtain m where "b' = ?b\<lparr>mole_frac := m\<rparr>" ..
      then have "b' = b\<lparr>mole_frac := m\<rparr>" by simp
      then show ?thesis by blast
    next
      case (Some d)
      with "2.prems" False obtain x where x: "d j = Some x"
        by (cases "d j") simp_all
      let ?b = "mole_frac_update (\<lambda>m. m(j := fix_var x (m j))) b"
      from "2.prems" False Some x
      have "fix_mole_frac mf k js ?b (X((k, j) \<mapsto> False)) = Inr (b', X')"
        by simp
      from "2.IH"(3)[OF False Some x this] obtain m where "b' = ?b\<lparr>mole_frac := m\<rparr>" ..
      then have "b' = b\<lparr>mole_frac := m\<rparr>" by simp
      then show ?thesis by blast
    qed
  qed
qed

lemma act_view_state_vars [simp]:
  "act_view (flow_mol_update f b) = act_view b"
  "act_view (pressure_update f b) = act_view b"
  "act_view (temperature_update f b) = act_view b"
  "act_view (mole_frac_update h b) = act_view b"
  by (simp_all add: act_view_def coeff_status_def con_status_def)

lemma fix_scalars_view [simp]:
  "act_view (fst (fix_flow_mol x k b fl)) = act_view b"
  "act_view (fst (fix_pressure x k b fl)) = act_view b"
  "act_view (fst (fix_temperature x k b fl)) = act_view b"
  by (simp_all add: fix_flow_mol_def fix_pressure_def fix_temperature_def)

lemma fix_state_vars_elem_view:
  assumes "fix_state_vars_elem a k b fl = Inr (b', fl')"
  shows "act_view b' = act_view b"
proof -
  let ?s = "fix_flow_mol (arg_flow_mol a) k b fl"
  from assms obtain b2 X where
    mf: "fix_mole_frac (arg_mole_frac a) k (component_list (fst ?s)) (fst ?s) (Xflag (snd ?s))
           = Inr (b2, X)"
    and b': "b' = fst (fix_temperature (arg_temperature a) k
                 (fst (fix_pressure (arg_pressure a) k b2 ((snd ?s)\<lparr>Xflag := X\<rparr>)))
                 (snd (fix_pressure (arg_pressure a) k b2 ((snd ?s)\<lparr>Xflag := X\<rparr>))))"
    unfolding fix_state_vars_elem_def
    by (simp add: and_then_eq_Inr case_prod_beta) (metis fst_conv)
  from fix_mole_frac_only[OF mf] obtain m where "b2 = (fst ?s)\<lparr>mole_frac := m\<rparr>" ..
  then have "act_view b2 = act_view b" by simp
  then show ?thesis by (simp add: b')
qed

lemma fix_state_vars_view:
  "fix_state_vars a blk fl = Inr (blk', fl') \<Longrightarrow> rel_blk (view_step (\<lambda>v. v)) blk blk'"
proof (induction a blk fl arbitrary: blk' fl' rule: fix_state_vars.induct)
  case (1 a fl)
  then show ?case by simp
next
  case (2 a k b rest fl)
  from "2.prems"(1) obtain b1 fl1 rest' where
    e: "fix_state_vars_elem a k b fl = Inr (b1, fl1)"
    and r: "fix_state_vars a rest fl1 = Inr (rest', fl')"
    and blk': "blk' = (k, b1) # rest'"
    by (auto simp: and_then_eq_Inr)
  from fix_state_vars_elem_view[OF e] "2.IH"[OF r] show ?case
    by (simp add: blk' view_step_def)
qed

lemma fix_or_check_view:
  assumes "fix_or_check dof a blk = Inr (blk', fl)"
  shows "rel_blk (view_step (\<lambda>v. v)) blk blk'"
proof (cases "state_vars_fixed a")
  case True
  with assms have "blk' = blk" by (auto simp: fix_or_check_def and_then_eq_Inr)
  then show ?thesis by (simp add: rel_blk_refl view_step_def)
next
  case False
  with assms obtain f where "fix_state_vars a blk empty_flags = Inr (blk', f)"
    by (auto simp: fix_or_check_def and_then_eq_Inr)
  then show ?thesis by (rule fix_state_vars_view)
qed

lemma step1_view:
  assumes "keeps_status solve" "step1 solve lvl xs = Inr (ys, ev)"
  shows "rel_blk (view_step (\<lambda>v. v)) xs ys"
proof (cases "two_phase (config (snd (last xs)))")
  case True
  with assms(2) have "ys = fst (solve 1 xs)"
    by (auto simp: step1_def split: if_splits dest!: arg_cong[where f=fst])
  with solver_view[OF assms(1)] show ?thesis by simp
next
  case False
  with assms(2) have "ys = xs" by (auto simp: step1_def split: if_splits)
  then show ?thesis by (simp add: rel_blk_refl view_step_def)
qed

lemma expected_2: "(\<lambda>v. v_step2 (v_deactivate v)) = expected 2"
  by (auto simp: fun_eq_iff)

lemma expected_3: "(\<lambda>v. v_step3 (expected 2 v)) = expected 3"
  by (auto simp: fun_eq_iff option.map_comp comp_def)

lemma expected_4: "(\<lambda>v. v_step4 (expected 3 v)) = expected 4"
  by (auto simp: fun_eq_iff option.map_comp comp_def)

lemma view_step_id: 
  "rel_blk (view_step F) xs ys \<Longrightarrow> rel_blk (view_step (\<lambda>v. v)) ys zs \<Longrightarrow> rel_blk (view_step F) xs zs"
  using view_step_trans[of F xs ys "\<lambda>v. v" zs] by simp

lemma view_id_step: 
  "rel_blk (view_step (\<lambda>v. v)) xs ys \<Longrightarrow> rel_blk (view_step F) ys zs \<Longrightarrow> rel_blk (view_step F) xs zs"
  using view_step_trans[of "\<lambda>v. v" xs ys F zs] by simp

lemma for_each_view:
  "(\<And>b b'. f b = Inr b' \<Longrightarrow> view_step F b b') \<Longrightarrow> for_each f xs = Inr ys \<Longrightarrow>
   rel_blk (view_step F) xs ys"
  by (rule rel_blk_mono[OF for_each_rel])

lemma for_all_view:
  "(\<And>b. view_step F b (f b)) \<Longrightarrow> rel_blk (view_step F) xs (for_all_elems f xs)"
  by (rule rel_blk_mono[OF for_all_elems_rel]) simp

lemma solve_sequence_views:
  assumes ks: "keeps_status solve" and run: "solve_sequence solve lvl blk = Inr (blkF, ev)"
  shows "\<exists>b2 b3 b4.
           map_of (solve_inputs ev) 2 = Some b2 \<and> rel_blk (view_step (expected 2)) blk b2 \<and>
           map_of (solve_inputs ev) 3 = Some b3 \<and> rel_blk (view_step (expected 3)) blk b3 \<and>
           map_of (solve_inputs ev) 4 = Some b4 \<and> rel_blk (view_step (expected 4)) blk b4"
proof -
  let ?blk = "for_all_elems (set_active_named False first_solve_names) blk"
  from run obtain blk3 ev1 blk4 blk8 where
    s1: "step1 solve lvl ?blk = Inr (blk3, ev1)"
    and s2: "for_each prepare_step2 blk3 = Inr blk4"
    and s4: "for_each prepare_step4
       (fst (solve 3 (for_all_elems prepare_step3 (fst (solve 2 blk4))))) = Inr blk8"
    and ev: "ev = ev1 @ snd (solve_step solve 2 lvl blk4)
           @ snd (solve_step solve 3 lvl (for_all_elems prepare_step3 (fst (solve 2 blk4))))
           @ snd (solve_step solve 4 lvl blk8)
           @ snd (solve_step solve 5 lvl (for_all_elems prepare_step5 (fst (solve 4 blk8))))"
    by (rule solve_sequence_InrE)
  let ?b3 = "for_all_elems prepare_step3 (fst (solve 2 blk4))"
  have e1: "solve_inputs ev1 = [] \<or> solve_inputs ev1 = [(1, ?blk)]"
    using s1 by (auto simp: step1_def split: if_splits dest!: arg_cong[where f=snd])
  have si: "solve_inputs ev = solve_inputs ev1 @ [(2, blk4), (3, ?b3), (4, blk8),
      (5, for_all_elems prepare_step5 (fst (solve 4 blk8)))]"
    by (simp add: ev)
  have m2: "map_of (solve_inputs ev) 2 = Some blk4"
    and m3: "map_of (solve_inputs ev) 3 = Some ?b3"
    and m4: "map_of (solve_inputs ev) 4 = Some blk8"
    using e1 unfolding si by auto
  have r1: "rel_blk (view_step v_deactivate) blk blk3"
    by (rule view_step_id[OF for_all_view[OF first_deactivation_view] step1_view[OF ks s1]])
  have r2: "rel_blk (view_step (expected 2)) blk blk4"
    using view_step_trans[OF r1 for_each_view[OF prepare_step2_view s2]]
    by (simp add: expected_2)
  have r2': "rel_blk (view_step (expected 2)) blk (fst (solve 2 blk4))"
    by (rule view_step_id[OF r2 solver_view[OF ks]])
  have r3: "rel_blk (view_step (expected 3)) blk ?b3"
    using view_step_trans[OF r2' for_all_view[OF prepare_step3_view]]
    by (simp add: expected_3)
  have r3': "rel_blk (view_step (expected 3)) blk (fst (solve 3 ?b3))"
    by (rule view_step_id[OF r3 solver_view[OF ks]])
  have r4: "rel_blk (view_step (expected 4)) blk blk8"
    using view_step_trans[OF r3' for_each_view[OF prepare_step4_view s4]]
    by (simp add: expected_4)
  from m2 m3 m4 r2 r3 r4 show ?thesis by blast
qed

lemmas view_defs = solve_views_def act_view_def coeff_status_def con_status_def fixed_at_def

subsection \<open>C5: the steps for a non-ideal activity model\<close>

text \<open>
  C5, as the routine does it.  Let the solver change only values of free variables and
  let \<open>initialize\<close> return.  Then the solver calls of steps 2, 3 and 4 are in the
  trace, and every element shows them the view \<open>expected\<close> describes.  For an element
  with the NRTL or Wilson model: \<open>activity_coeff_comp\<close> is fixed at 1 for the solve of
  step 2; for the solve of step 3 \<open>eq_Gij_coeff\<close>, \<open>eq_A\<close> and \<open>eq_B\<close> are active
  again while \<open>activity_coeff_comp\<close> is still fixed at 1 and \<open>eq_activity_coeff\<close> is
  still inactive; only for the solve of step 4 is \<open>eq_activity_coeff\<close> active and
  \<open>activity_coeff_comp\<close> free.  For an element with the Ideal model
  \<open>activity_coeff_comp\<close> is as the caller left it and none of the four constraints is
  active at any of these solves.
\<close>

theorem activity_model_phases:
  assumes ks: "keeps_status solve" and run: "initialize dof solve a blk = Inr r"
  shows "\<exists>b2 b3 b4.
     map_of (solve_inputs (trace r)) 2 = Some b2 \<and> rel_blk (view_step (expected 2)) blk b2 \<and>
     map_of (solve_inputs (trace r)) 3 = Some b3 \<and> rel_blk (view_step (expected 3)) blk b3 \<and>
     map_of (solve_inputs (trace r)) 4 = Some b4 \<and> rel_blk (view_step (expected 4)) blk b4"
proof -
  from run obtain blk0 blk1 fl blkF ev where
    s0: "for_each deactivate_mol_frac_out blk = Inr blk0"
    and s1: "fix_or_check dof a blk0 = Inr (blk1, fl)"
    and s2: "solve_sequence solve (outlvl a) blk1 = Inr (blkF, ev)"
    and fin: "finish a fl blkF ev = Inr r"
    by (auto simp: initialize_def and_then_eq_Inr)
  have r01: "rel_blk (view_step (\<lambda>v. v)) blk blk1"
    by (rule view_step_id[OF for_each_view[OF deactivate_mol_frac_out_view s0]
          fix_or_check_view[OF s1]])
  have tr: "solve_inputs (trace r) = solve_inputs ev"
    by (rule finish_solve_inputs[OF fin])
  from solve_sequence_views[OF ks s2] obtain b2 b3 b4 where
    "map_of (solve_inputs ev) 2 = Some b2" "rel_blk (view_step (expected 2)) blk1 b2"
    "map_of (solve_inputs ev) 3 = Some b3" "rel_blk (view_step (expected 3)) blk1 b3"
    "map_of (solve_inputs ev) 4 = Some b4" "rel_blk (view_step (expected 4)) blk1 b4"
    by blast
  with r01 tr show ?thesis by (auto intro: view_id_step)
qed

theorem activity_model_phases_witness:
  "keeps_status example_solver \<and>
   (\<exists>r. initialize example_dof example_solver example_args example_blk = Inr r \<and>
     (\<exists>b2 b3 b4.
        map_of (solve_inputs (trace r)) 2 = Some b2 \<and>
        rel_blk (view_step (expected 2)) example_blk b2 \<and>
        map_of (solve_inputs (trace r)) 3 = Some b3 \<and>
        rel_blk (view_step (expected 3)) example_blk b3 \<and>
        map_of (solve_inputs (trace r)) 4 = Some b4 \<and>
        rel_blk (view_step (expected 4)) example_blk b4))"
proof -
  have ks: "keeps_status example_solver"
    by (simp add: keeps_status_def example_solver_def)
  obtain r where run: "initialize example_dof example_solver example_args example_blk = Inr r"
    by (simp add: example_dof_def example_defs build_defs init_defs)
  from activity_model_phases[OF ks run] ks run show ?thesis by blast
qed

text \<open>
  C5 as stated fails: it has \<open>eq_activity_coeff\<close> reactivated together with
  \<open>eq_Gij_coeff\<close>, \<open>eq_A\<close> and \<open>eq_B\<close>, and \<open>activity_coeff_comp\<close> unfixed, before the
  routine solves again after the mass-balance solve.  On the concrete NRTL block the
  next solver call, that of step 3, receives \<open>eq_Gij_coeff\<close>, \<open>eq_A\<close> and \<open>eq_B\<close>
  active but \<open>eq_activity_coeff\<close> inactive and both coefficients fixed at 1.
\<close>

theorem activity_model_phases_counterexample:
  "map_sum id solve_views (initialize example_dof example_solver example_args example_blk) =
     Inr [(1, [(NRTL, [''benzene'', ''toluene''], Some [None, None],
                Some False, Some False, Some False, Some False)]),
          (2, [(NRTL, [''benzene'', ''toluene''], Some [Some 1, Some 1],
                Some False, Some False, Some False, Some False)]),
          (3, [(NRTL, [''benzene'', ''toluene''], Some [Some 1, Some 1],
                Some True, Some True, Some True, Some False)]),
          (4, [(NRTL, [''benzene'', ''toluene''], Some [None, None],
                Some True, Some True, Some True, Some True)]),
          (5, [(NRTL, [''benzene'', ''toluene''], Some [None, None],
                Some True, Some True, Some True, Some True)])]"
  by (simp add: example_dof_def example_defs build_defs init_defs step_log_def view_defs)

lemma Gij_coeff_members_diag: "Ix2 i i \<notin> set (Gij_coeff_members comps)"
  by (auto simp: Gij_coeff_members_def split: if_splits)

lemma make_NRTL_eq_diag: "Gij_diag_ok (make_NRTL_eq b)"
  by (simp add: Gij_diag_ok_def make_NRTL_eq_def Let_def add_constraint_def Gij_coeff_var_def
        fix_var_def new_var_def Gij_coeff_members_diag list_all_iff)

lemma make_Wilson_eq_diag: "Gij_diag_ok (make_Wilson_eq b)"
  by (simp add: Gij_diag_ok_def make_Wilson_eq_def Let_def add_constraint_def Gij_coeff_var_def
        fix_var_def new_var_def Gij_coeff_members_diag list_all_iff)

lemma add_constraint_diag:
  "n \<noteq> ''eq_Gij_coeff'' \<Longrightarrow> Gij_diag_ok (add_constraint n ixs b) = Gij_diag_ok b"
  by (simp add: Gij_diag_ok_def add_constraint_def split: option.splits)

lemma add_constraint_comps [simp]: "component_list (add_constraint n ixs b) = component_list b"
  by (simp add: add_constraint_def)

lemma add_mol_frac_out_diag: "Gij_diag_ok (add_mol_frac_out b) = Gij_diag_ok b"
  by (simp add: add_mol_frac_out_def add_constraint_diag)

lemma add_mol_frac_out_comps [simp]: "component_list (add_mol_frac_out b) = component_list b"
  by (simp add: add_mol_frac_out_def)

lemma make_flash_eq_diag: "Gij_diag_ok b \<Longrightarrow> Gij_diag_ok (make_flash_eq b)"
  by (simp add: make_flash_eq_def Let_def add_constraint_diag add_mol_frac_out_diag)

lemma build_diag:
  assumes "two_phase c" "activity_coeff_model c \<noteq> Ideal" "build c comps = Inr b"
  shows "Gij_diag_ok b"
proof -
  from assms(1) have np: "\<not> (\<not> has_phase_equilibrium c \<and> valid_phase c = Liq)"
    "\<not> (\<not> has_phase_equilibrium c \<and> valid_phase c = Vap)"
    by (auto simp: two_phase_def)
  show ?thesis
  proof (cases "activity_coeff_model c")
    case Ideal
    with assms(2) show ?thesis by simp
  next
    case NRTL
    with assms np have "b = make_flash_eq (make_NRTL_eq (make_state_vars c comps))"
      by (auto simp: build_def Let_def split: if_splits)
    then show ?thesis by (simp add: make_flash_eq_diag make_NRTL_eq_diag)
  next
    case Wilson
    with assms np have "b = make_flash_eq (make_Wilson_eq (make_state_vars c comps))"
      by (auto simp: build_def Let_def split: if_splits)
    then show ?thesis by (simp add: make_flash_eq_diag make_Wilson_eq_diag)
  qed
qed

lemma gij_frame_kept: "gij_frame b b' \<Longrightarrow> diag_kept b b'"
  by (auto simp: gij_frame_def diag_kept_def Gij_diag_ok_def split: option.splits)

lemma gij_frame_refl [simp]: "gij_frame b b"
  by (simp add: gij_frame_def)

lemma gij_frame_trans: "gij_frame a b \<Longrightarrow> gij_frame b c \<Longrightarrow> gij_frame a c"
  by (simp add: gij_frame_def)

lemma diag_kept_trans [trans]:
  "rel_blk diag_kept xs ys \<Longrightarrow> rel_blk diag_kept ys zs \<Longrightarrow> rel_blk diag_kept xs zs"
  by (rule rel_blk_mono[OF rel_blk_trans]) (auto simp: diag_kept_def)

lemma diag_kept_all: "rel_blk diag_kept xs ys \<Longrightarrow> all_diag_ok xs \<Longrightarrow> all_diag_ok ys"
  unfolding rel_blk_def all_diag_ok_def
  by (induction rule: list_all2_induct) (auto simp: diag_kept_def)

lemma set_active_attr_frame: "set_active_attr a n b = Inr b' \<Longrightarrow> gij_frame b b'"
  by (auto simp: set_active_attr_def gij_frame_def split: option.splits)

lemma set_active_named_frame: "gij_frame b (set_active_named a ns b)"
  by (auto simp: set_active_named_def gij_frame_def split: option.splits)

lemma deactivate_mol_frac_out_frame: "deactivate_mol_frac_out b = Inr b' \<Longrightarrow> gij_frame b b'"
  by (auto simp: deactivate_mol_frac_out_def dest: set_active_attr_frame split: if_splits)

lemma activate_mol_frac_out_frame: "activate_mol_frac_out b = Inr b' \<Longrightarrow> gij_frame b b'"
  by (auto simp: activate_mol_frac_out_def dest: set_active_attr_frame split: if_splits)

lemma fix_activity_coeff_frame: "fix_activity_coeff b = Inr b' \<Longrightarrow> gij_frame b b'"
  by (auto simp: fix_activity_coeff_def gij_frame_def split: option.splits)

lemma unfix_activity_coeff_frame: "unfix_activity_coeff b = Inr b' \<Longrightarrow> gij_frame b b'"
  by (auto simp: unfix_activity_coeff_def gij_frame_def split: option.splits)

lemma prepare_step2_frame: "prepare_step2 b = Inr b' \<Longrightarrow> gij_frame b b'"
proof -
  assume a: "prepare_step2 b = Inr b'"
  let ?b = "set_active_named True
              [''eq_total'', ''eq_comp'', ''eq_sum_mol_frac'', ''eq_phase_equilibrium''] b"
  have 1: "gij_frame b ?b" by (rule set_active_named_frame)
  from a have "b' = ?b \<or> fix_activity_coeff ?b = Inr b'"
    by (auto simp: prepare_step2_def Let_def split: if_splits)
  then show ?thesis
    using 1 by (auto dest: fix_activity_coeff_frame intro: gij_frame_trans)
qed

lemma prepare_step3_frame: "gij_frame b (prepare_step3 b)"
  by (simp add: prepare_step3_def set_active_named_frame)

lemma prepare_step4_frame: "prepare_step4 b = Inr b' \<Longrightarrow> gij_frame b b'"
  by (auto simp: prepare_step4_def and_then_eq_Inr split: if_splits
           dest!: set_active_attr_frame unfix_activity_coeff_frame intro: gij_frame_trans)

lemma prepare_step5_frame: "gij_frame b (prepare_step5 b)"
  by (simp add: prepare_step5_def set_active_named_frame)

lemma gij_frame_state_vars [simp]:
  "gij_frame b (flow_mol_update f b)"
  "gij_frame b (pressure_update f b)"
  "gij_frame b (temperature_update f b)"
  "gij_frame b (mole_frac_update h b)"
  by (simp_all add: gij_frame_def)

lemma fix_scalars_frame:
  "gij_frame b (fst (fix_flow_mol x k b fl))"
  "gij_frame b (fst (fix_pressure x k b fl))"
  "gij_frame b (fst (fix_temperature x k b fl))"
  by (simp_all add: fix_flow_mol_def fix_pressure_def fix_temperature_def)

lemma fix_state_vars_elem_frame:
  assumes "fix_state_vars_elem a k b fl = Inr (b', fl')"
  shows "gij_frame b b'"
proof -
  let ?s = "fix_flow_mol (arg_flow_mol a) k b fl"
  from assms obtain b2 X where
    mf: "fix_mole_frac (arg_mole_frac a) k (component_list (fst ?s)) (fst ?s) (Xflag (snd ?s))
           = Inr (b2, X)"
    and b': "b' = fst (fix_temperature (arg_temperature a) k
                 (fst (fix_pressure (arg_pressure a) k b2 ((snd ?s)\<lparr>Xflag := X\<rparr>)))
                 (snd (fix_pressure (arg_pressure a) k b2 ((snd ?s)\<lparr>Xflag := X\<rparr>))))"
    unfolding fix_state_vars_elem_def
    by (simp add: and_then_eq_Inr case_prod_beta) (metis fst_conv)
  from fix_mole_frac_only[OF mf] obtain m where "b2 = (fst ?s)\<lparr>mole_frac := m\<rparr>" ..
  then have "gij_frame (fst ?s) b2" by (simp add: gij_frame_def)
  with fix_scalars_frame(1)[of b "arg_flow_mol a" k fl] have "gij_frame b b2"
    by (rule gij_frame_trans)
  then show ?thesis
    unfolding b' by (blast intro: gij_frame_trans fix_scalars_frame)
qed

lemma fix_state_vars_frame_gij:
  "fix_state_vars a blk fl = Inr (blk', fl') \<Longrightarrow> rel_blk gij_frame blk blk'"
proof (induction a blk fl arbitrary: blk' fl' rule: fix_state_vars.induct)
  case (1 a fl)
  then show ?case by simp
next
  case (2 a k b rest fl)
  from "2.prems"(1) obtain b1 fl1 rest' where
    e: "fix_state_vars_elem a k b fl = Inr (b1, fl1)"
    and r: "fix_state_vars a rest fl1 = Inr (rest', fl')"
    and blk': "blk' = (k, b1) # rest'"
    by (auto simp: and_then_eq_Inr)
  from fix_state_vars_elem_frame[OF e] "2.IH"[OF r] show ?case
    by (simp add: blk')
qed

lemma fix_or_check_diag:
  assumes "fix_or_check dof a blk = Inr (blk', fl)"
  shows "rel_blk diag_kept blk blk'"
proof (cases "state_vars_fixed a")
  case True
  with assms have "blk' = blk" by (auto simp: fix_or_check_def and_then_eq_Inr)
  then show ?thesis by (simp add: rel_blk_refl diag_kept_def)
next
  case False
  with assms obtain f where "fix_state_vars a blk empty_flags = Inr (blk', f)"
    by (auto simp: fix_or_check_def and_then_eq_Inr)
  from fix_state_vars_frame_gij[OF this] show ?thesis
    by (rule rel_blk_mono) (rule gij_frame_kept)
qed

lemma release_mole_frac_only:
  "release_mole_frac fl k js b = Inr b' \<Longrightarrow> \<exists>m. b' = b\<lparr>mole_frac := m\<rparr>"
proof (induction js arbitrary: b)
  case Nil
  then show ?case by (auto intro!: exI[of _ "mole_frac b'"])
next
  case (Cons j js)
  from Cons.prems obtain x where
    r: "release_mole_frac fl k js
          (if \<not> x then mole_frac_update (\<lambda>m. m(j := unfix_var (m j))) b else b) = Inr b'"
    by (auto simp: and_then_eq_Inr)
  from Cons.IH[OF r] obtain m where
    "b' = (if \<not> x then mole_frac_update (\<lambda>m. m(j := unfix_var (m j))) b else b)\<lparr>mole_frac := m\<rparr>"
    ..
  then have "b' = b\<lparr>mole_frac := m\<rparr>" by (simp split: if_splits)
  then show ?case by blast
qed

lemma release_state_elem_frame:
  assumes "release_state_elem fl k b = Inr b'"
  shows "gij_frame b b'"
proof -
  from assms obtain f b2 p t where
    mf: "release_mole_frac fl k
           (component_list (if \<not> f then flow_mol_update unfix_var b else b))
           (if \<not> f then flow_mol_update unfix_var b else b) = Inr b2"
    and b': "b' = (if \<not> t then temperature_update unfix_var
                     (if \<not> p then pressure_update unfix_var b2 else b2)
                   else (if \<not> p then pressure_update unfix_var b2 else b2))"
    unfolding release_state_elem_def Let_def and_then_eq_Inr sum.inject
    by blast
  from release_mole_frac_only[OF mf] obtain m where
    "b2 = (if \<not> f then flow_mol_update unfix_var b else b)\<lparr>mole_frac := m\<rparr>" ..
  then have "gij_frame b b2" by (simp add: gij_frame_def split: if_splits)
  then show ?thesis unfolding b' by (simp add: gij_frame_def split: if_splits)
qed

lemma release_all_frame: "release_all fl blk = Inr blk' \<Longrightarrow> rel_blk gij_frame blk blk'"
proof (induction fl blk arbitrary: blk' rule: release_all.induct)
  case (1 fl)
  then show ?case by simp
next
  case (2 fl k b rest)
  from "2.prems" obtain b1 rest' where
    e: "release_state_elem fl k b = Inr b1" and r: "release_all fl rest = Inr rest'"
    and blk': "blk' = (k, b1) # rest'"
    by (auto simp: and_then_eq_Inr)
  from release_state_elem_frame[OF e] "2.IH"[OF r] show ?case by (simp add: blk')
qed

lemma frozen_fixed_eq:
  assumes "frozen v = \<lparr>val = x, fixed = True\<rparr>"
  shows "v = \<lparr>val = x, fixed = True\<rparr>"
proof -
  from assms have "fixed (frozen v)" by simp
  then have "fixed v" by (simp add: frozen_def split: if_splits)
  with assms show ?thesis by (simp add: frozen_def)
qed

lemma skeleton_diag_kept:
  assumes eq: "skeleton b' = skeleton b"
  shows "diag_kept b b'"
proof -
  have c: "component_list b' = component_list b" "constraints b' = constraints b"
    using arg_cong[OF eq, of component_list] arg_cong[OF eq, of constraints]
    by (simp_all add: skeleton_def)
  have g: "map_option (\<lambda>g p. frozen (g p)) (Gij_coeff b')
         = map_option (\<lambda>g p. frozen (g p)) (Gij_coeff b)"
    using arg_cong[OF eq, of Gij_coeff] by (simp add: skeleton_def)
  show ?thesis
    unfolding diag_kept_def
  proof
    assume ok: "Gij_diag_ok b"
    then obtain G where G: "Gij_coeff b = Some G"
      and d: "\<forall>i\<in>set (component_list b). G (i, i) = \<lparr>val = 1, fixed = True\<rparr>"
      by (auto simp: Gij_diag_ok_def list_all_iff split: option.splits)
    from g G obtain G' where G': "Gij_coeff b' = Some G'"
      and fr: "(\<lambda>p. frozen (G' p)) = (\<lambda>p. frozen (G p))"
      by (cases "Gij_coeff b'") auto
    have "G' (i, i) = \<lparr>val = 1, fixed = True\<rparr>" if "i \<in> set (component_list b)" for i
    proof -
      from fr have "frozen (G' (i, i)) = frozen (G (i, i))" by (rule fun_cong)
      also from d that have "\<dots> = \<lparr>val = 1, fixed = True\<rparr>" by (simp add: frozen_def)
      finally show ?thesis by (rule frozen_fixed_eq)
    qed
    with ok G' c show "Gij_diag_ok b'"
      by (auto simp: Gij_diag_ok_def list_all_iff split: option.splits)
  qed
qed

lemma solver_diag: "keeps_status solve \<Longrightarrow> rel_blk diag_kept blk (fst (solve i blk))"
  by (rule rel_blk_mono[OF solver_rel]) (auto intro: skeleton_diag_kept)

lemma for_each_diag:
  "(\<And>b b'. f b = Inr b' \<Longrightarrow> gij_frame b b') \<Longrightarrow> for_each f xs = Inr ys \<Longrightarrow>
   all_diag_ok xs \<Longrightarrow> all_diag_ok ys"
  by (rule diag_kept_all[OF rel_blk_mono[OF for_each_rel]]) (auto intro: gij_frame_kept)

lemma for_all_diag:
  "(\<And>b. gij_frame b (f b)) \<Longrightarrow> all_diag_ok xs \<Longrightarrow> all_diag_ok (for_all_elems f xs)"
  by (rule diag_kept_all[OF rel_blk_mono[OF for_all_elems_rel]]) (auto intro: gij_frame_kept)

lemma solve_sequence_diag:
  assumes ks: "keeps_status solve" and run: "solve_sequence solve lvl blk = Inr (blkF, ev)"
    and ok: "all_diag_ok blk"
  shows "all_diag_ok blkF \<and> list_all (diag_ok_around solve) (solve_inputs ev)"
proof -
  let ?blk = "for_all_elems (set_active_named False first_solve_names) blk"
  from run obtain blk3 ev1 blk4 blk8 where
    s1: "step1 solve lvl ?blk = Inr (blk3, ev1)"
    and s2: "for_each prepare_step2 blk3 = Inr blk4"
    and s4: "for_each prepare_step4
       (fst (solve 3 (for_all_elems prepare_step3 (fst (solve 2 blk4))))) = Inr blk8"
    and s6: "for_each activate_mol_frac_out
       (fst (solve 5 (for_all_elems prepare_step5 (fst (solve 4 blk8))))) = Inr blkF"
    and ev: "ev = ev1 @ snd (solve_step solve 2 lvl blk4)
           @ snd (solve_step solve 3 lvl (for_all_elems prepare_step3 (fst (solve 2 blk4))))
           @ snd (solve_step solve 4 lvl blk8)
           @ snd (solve_step solve 5 lvl (for_all_elems prepare_step5 (fst (solve 4 blk8))))"
    by (rule solve_sequence_InrE)
  let ?b3 = "for_all_elems prepare_step3 (fst (solve 2 blk4))"
  let ?b5 = "for_all_elems prepare_step5 (fst (solve 4 blk8))"
  note sv = diag_kept_all[OF solver_diag[OF ks]]
  have o0: "all_diag_ok ?blk" by (rule for_all_diag[OF set_active_named_frame ok])
  have o0': "all_diag_ok (fst (solve 1 ?blk))" by (rule sv[OF o0])
  have e1: "(solve_inputs ev1 = [] \<and> blk3 = ?blk) \<or>
            (solve_inputs ev1 = [(1, ?blk)] \<and> blk3 = fst (solve 1 ?blk))"
  proof (cases "two_phase (config (snd (last ?blk)))")
    case True
    with s1 have "(blk3, ev1) = solve_step solve 1 lvl ?blk"
      by (auto simp: step1_def split: if_splits)
    then have "blk3 = fst (solve_step solve 1 lvl ?blk)" "ev1 = snd (solve_step solve 1 lvl ?blk)"
      by (metis fst_conv, metis snd_conv)
    then show ?thesis by simp
  next
    case False
    with s1 show ?thesis by (auto simp: step1_def split: if_splits)
  qed
  from e1 o0 o0' have o3: "all_diag_ok blk3"
    and l1: "list_all (diag_ok_around solve) (solve_inputs ev1)"
    by (auto simp: diag_ok_around_def)
  have o4: "all_diag_ok blk4" by (rule for_each_diag[OF prepare_step2_frame s2 o3])
  have o4': "all_diag_ok (fst (solve 2 blk4))" by (rule sv[OF o4])
  have o5: "all_diag_ok ?b3" by (rule for_all_diag[OF prepare_step3_frame o4'])
  have o5': "all_diag_ok (fst (solve 3 ?b3))" by (rule sv[OF o5])
  have o8: "all_diag_ok blk8" by (rule for_each_diag[OF prepare_step4_frame s4 o5'])
  have o8': "all_diag_ok (fst (solve 4 blk8))" by (rule sv[OF o8])
  have o9: "all_diag_ok ?b5" by (rule for_all_diag[OF prepare_step5_frame o8'])
  have o9': "all_diag_ok (fst (solve 5 ?b5))" by (rule sv[OF o9])
  have oF: "all_diag_ok blkF" by (rule for_each_diag[OF activate_mol_frac_out_frame s6 o9'])
  have "solve_inputs ev = solve_inputs ev1 @ [(2, blk4), (3, ?b3), (4, blk8), (5, ?b5)]"
    by (simp add: ev)
  with l1 o4 o4' o5 o5' o8 o8' o9 o9' have "list_all (diag_ok_around solve) (solve_inputs ev)"
    by (simp add: diag_ok_around_def)
  with oF show ?thesis by simp
qed

lemmas diag_defs = Gij_diag_ok_def all_diag_ok_def diag_ok_around_def Gij_coeff_var_def
  Gij_coeff_members_def

subsection \<open>C9: the diagonal of \<open>Gij_coeff\<close>\<close>

text \<open>
  C9, for the blocks that have the variable.  For every two-phase state block
  (\<open>has_phase_equilibrium\<close> set or \<open>valid_phase\<close> a vapour-liquid pair) built with the
  NRTL or Wilson model and every component \<open>i\<close>, construction leaves \<open>Gij_coeff[i, i]\<close>
  fixed at 1 and generates no member \<open>(i, i)\<close> of \<open>eq_Gij_coeff\<close>.  When a block whose
  elements are in this state is initialised with a solver that changes only values of
  free variables, the elements are in this state before and after every solver call
  and when \<open>initialize\<close> returns (after the state release, if there is one).
\<close>

theorem Gij_diagonal_fixed_at_one:
  "(two_phase c \<and> activity_coeff_model c \<noteq> Ideal \<and> build c comps = Inr b
      \<longrightarrow> Gij_diag_ok b) \<and>
   (keeps_status solve \<and> all_diag_ok blk \<and> initialize dof solve a blk = Inr r
      \<longrightarrow> all_diag_ok (block r) \<and>
          list_all (diag_ok_around solve) (solve_inputs (trace r)))"
proof (rule conjI; rule impI)
  assume "two_phase c \<and> activity_coeff_model c \<noteq> Ideal \<and> build c comps = Inr b"
  then show "Gij_diag_ok b" by (blast intro: build_diag)
next
  assume a: "keeps_status solve \<and> all_diag_ok blk \<and> initialize dof solve a blk = Inr r"
  then have ks: "keeps_status solve" and ok: "all_diag_ok blk"
    and run: "initialize dof solve a blk = Inr r" by simp_all
  from run obtain blk0 blk1 fl blkF ev where
    s0: "for_each deactivate_mol_frac_out blk = Inr blk0"
    and s1: "fix_or_check dof a blk0 = Inr (blk1, fl)"
    and s2: "solve_sequence solve (outlvl a) blk1 = Inr (blkF, ev)"
    and fin: "finish a fl blkF ev = Inr r"
    by (auto simp: initialize_def and_then_eq_Inr)
  have o0: "all_diag_ok blk0" by (rule for_each_diag[OF deactivate_mol_frac_out_frame s0 ok])
  have o1: "all_diag_ok blk1" by (rule diag_kept_all[OF fix_or_check_diag[OF s1] o0])
  from solve_sequence_diag[OF ks s2 o1] have oF: "all_diag_ok blkF"
    and l: "list_all (diag_ok_around solve) (solve_inputs ev)" by simp_all
  have "all_diag_ok (block r)"
  proof (cases "\<not> state_vars_fixed a \<and> \<not> hold_state a")
    case True
    with fin obtain b' evr where rs: "release_state blkF fl 0 = Inr (b', evr)"
      and br: "block r = b'"
      by (auto simp: finish_def Let_def and_then_eq_Inr)
    show ?thesis
    proof (cases fl)
      case None
      with rs br oF show ?thesis by (simp add: release_state_def)
    next
      case (Some f)
      with rs have "release_all f blkF = Inr b'"
        by (auto simp: release_state_def and_then_eq_Inr)
      from diag_kept_all[OF rel_blk_mono[OF release_all_frame[OF this]] oF] br
      show ?thesis by (auto intro: gij_frame_kept)
    qed
  next
    case False
    with fin oF show ?thesis by (auto simp: finish_def Let_def split: if_splits)
  qed
  with l finish_solve_inputs[OF fin]
  show "all_diag_ok (block r) \<and> list_all (diag_ok_around solve) (solve_inputs (trace r))"
    by simp
qed

theorem Gij_diagonal_fixed_at_one_witness:
  "two_phase example_config \<and> activity_coeff_model example_config \<noteq> Ideal \<and>
   build example_config example_comps = Inr example_elem \<and> Gij_diag_ok example_elem \<and>
   keeps_status example_solver \<and> all_diag_ok example_blk \<and>
   (\<exists>r. initialize example_dof example_solver example_args example_blk = Inr r \<and>
        all_diag_ok (block r) \<and>
        list_all (diag_ok_around example_solver) (solve_inputs (trace r)))"
proof -
  have tp: "two_phase example_config" "activity_coeff_model example_config \<noteq> Ideal"
    by (simp_all add: example_config_def two_phase_def)
  have ks: "keeps_status example_solver"
    by (simp add: keeps_status_def example_solver_def)
  have ok: "all_diag_ok example_blk"
    by (simp add: diag_defs example_defs build_defs)
  obtain r where run: "initialize example_dof example_solver example_args example_blk = Inr r"
    by (simp add: example_dof_def example_defs build_defs init_defs)
  from Gij_diagonal_fixed_at_one[of example_config example_comps example_elem
      example_solver example_blk example_dof example_args r]
    tp example_build ks ok run
  show ?thesis by blast
qed

text \<open>
  C9 as stated fails for a block that is not two-phase: \<open>build\<close> calls \<open>_make_NRTL_eq\<close>
  and \<open>_make_Wilson_eq\<close> only under the two-phase test of lines 471-479, so a
  liquid-only block built with the NRTL model has no \<open>Gij_coeff\<close> at all.
\<close>

theorem Gij_diagonal_counterexample:
  "activity_coeff_model liquid_config = NRTL \<and>
   map_sum id Gij_coeff (build liquid_config example_comps) = Inr None \<and>
   map_sum id Gij_diag_ok (build liquid_config example_comps) = Inr False"
  by (simp add: liquid_config_def example_comps_def build_defs Gij_diag_ok_def)


section \<open>Properties of the flowsheet\<close>

subsection \<open>Auxiliary facts\<close>

lemma vars_apply_stmt: "vars (apply_stmt s m) p = stmt_on_var s p (vars m p)"
  by (cases s) simp_all

lemma cons_apply_stmt: "cons (apply_stmt s m) c = stmt_on_con s c (cons m c)"
  by (cases s) simp_all

lemma vars_foldl:
  "vars (foldl (\<lambda>m s. apply_stmt s m) m ss) p = foldl (\<lambda>v s. stmt_on_var s p v) (vars m p) ss"
  by (induction ss arbitrary: m) (simp_all add: vars_apply_stmt)

lemma cons_foldl:
  "cons (foldl (\<lambda>m s. apply_stmt s m) m ss) c = foldl (\<lambda>a s. stmt_on_con s c a) (cons m c) ss"
  by (induction ss arbitrary: m) (simp_all add: cons_apply_stmt)

subsection \<open>C10: the make-up flow of the condenser mixer\<close>

text \<open>
  C10.  \<open>set_model_input\<close> leaves the \<open>fixed\<close> flag of
  \<open>condenser_mix.makeup.flow_mol\<close> as it finds it and assigns the variable the value
  \<open>1.08002495835536E-12\<close>, whereas it fixes \<open>condenser_mix.makeup.pressure\<close> at
  \<open>103421.4\<close> and \<open>condenser_mix.makeup.enth_mol\<close> at \<open>1131.69204\<close>.  On the model
  that \<open>create_model\<close> returns, in which nothing is fixed, the make-up flow is therefore
  still free after \<open>set_model_input\<close>.
\<close>

theorem makeup_flow_value_only:
  "fixed (vars (set_model_input m) [''condenser_mix'', ''makeup'', ''flow_mol''])
     = fixed (vars m [''condenser_mix'', ''makeup'', ''flow_mol'']) \<and>
   val (vars (set_model_input m) [''condenser_mix'', ''makeup'', ''flow_mol''])
     = 1.08002495835536 / 10 ^ 12 \<and>
   vars (set_model_input m) [''condenser_mix'', ''makeup'', ''pressure'']
     = \<lparr>val = 103421.4, fixed = True\<rparr> \<and>
   vars (set_model_input m) [''condenser_mix'', ''makeup'', ''enth_mol'']
     = \<lparr>val = 1131.69204, fixed = True\<rparr> \<and>
   \<not> fixed (vars (set_model_input fresh_model) [''condenser_mix'', ''makeup'', ''flow_mol''])"
proof -
  have 1: "vars (set_model_input m) [''condenser_mix'', ''makeup'', ''flow_mol'']
      = (vars m [''condenser_mix'', ''makeup'', ''flow_mol''])\<lparr>val := 1.08002495835536 / 10 ^ 12\<rparr>"
    for m
    unfolding set_model_input_def vars_foldl set_model_input_body_def by simp
  have 2: "vars (set_model_input m) [''condenser_mix'', ''makeup'', ''pressure'']
      = \<lparr>val = 103421.4, fixed = True\<rparr>"
    unfolding set_model_input_def vars_foldl set_model_input_body_def
    by (simp add: fix_var_def)
  have 3: "vars (set_model_input m) [''condenser_mix'', ''makeup'', ''enth_mol'']
      = \<lparr>val = 1131.69204, fixed = True\<rparr>"
    unfolding set_model_input_def vars_foldl set_model_input_body_def
    by (simp add: fix_var_def)
  show ?thesis
    unfolding 1 2 3 by (simp add: fresh_model_def new_var_def)
qed

lemma watched_eq:
  "watched m' = watched m \<longleftrightarrow>
     cons m' = cons m \<and> (\<forall>p. is_split_fraction p \<longrightarrow> fixed (vars m' p) = fixed (vars m p))"
  by (auto simp: watched_def fun_eq_iff)

lemma butlast_split: "p \<noteq> [] \<Longrightarrow> is_split_fraction p \<Longrightarrow> butlast p = q \<Longrightarrow>
  length q = 2 \<and> q ! 1 = ''split_fraction''"
  by (auto simp: is_split_fraction_def nth_butlast)

lemma quiet_stmt:
  assumes "\<not> is_con_stmt s" "\<not> touches_split s"
  shows "watched (apply_stmt s m) = watched m"
proof (cases s)
  case (Unfix_port q)
  with assms show ?thesis
    by (auto simp: watched_eq dest: butlast_split)
qed (use assms in \<open>auto simp: watched_eq fix_var_def unfix_var_def\<close>)

lemma lib_watched:
  "lib_keeps_status lib \<Longrightarrow> lib c m = Inr m' \<Longrightarrow> watched m' = watched m"
  by (auto simp: lib_keeps_status_def fs_status_def watched_eq fun_eq_iff)

lemma and_then_Inr_id [simp]: "and_then r Inr = r"
  by (cases r) simp_all

lemma run_steps_Do [simp]:
  "run_steps lib solve (Do s # ss) m = run_steps lib solve ss (apply_stmt s m)"
  by (cases "run_steps lib solve ss (apply_stmt s m)") auto

lemma run_steps_Call:
  "run_steps lib solve (Call c # ss) m = Inr (m'', ev) \<longleftrightarrow>
     (\<exists>m' ev'. lib c m = Inr m' \<and> run_steps lib solve ss m' = Inr (m'', ev') \<and>
               ev = Called c m # ev')"
  by (auto simp: and_then_eq_Inr)

declare run_steps.simps(2) [simp del]

lemma run_steps_append:
  "run_steps lib solve (xs @ ys) m = Inr (m'', ev) \<longleftrightarrow>
     (\<exists>m' ev1 ev2. run_steps lib solve xs m = Inr (m', ev1) \<and>
                   run_steps lib solve ys m' = Inr (m'', ev2) \<and> ev = ev1 @ ev2)"
proof (induction xs arbitrary: m ev)
  case Nil
  show ?case by simp
next
  case (Cons x xs)
  show ?case
  proof (cases "exec_step lib solve x m")
    case (Inl e)
    then show ?thesis by (simp add: run_steps.simps(2))
  next
    case (Inr r)
    obtain m1 e1 where r: "r = (m1, e1)" by (cases r)
    show ?thesis
      unfolding run_steps.simps append_Cons Inr r
      by (auto simp: and_then_eq_Inr Cons.IH)
  qed
qed

lemma run_quiet:
  assumes "lib_keeps_status lib"
  shows "list_all quiet_step ss \<Longrightarrow> run_steps lib solve ss m = Inr (m', ev) \<Longrightarrow>
         watched m' = watched m \<and> list_all (quiet_event (watched m)) ev \<and>
         map event_call ev = map Some (calls_of ss)"
proof (induction ss arbitrary: m ev)
  case Nil
  then show ?case by simp
next
  case (Cons s ss)
  show ?case
  proof (cases s)
    case (Do st)
    with Cons.prems have q: "\<not> is_con_stmt st" "\<not> touches_split st"
      and r: "run_steps lib solve ss (apply_stmt st m) = Inr (m', ev)"
      and l: "list_all quiet_step ss" by simp_all
    from Cons.IH[OF l r] quiet_stmt[OF q, of m] Do show ?thesis by simp
  next
    case (Call c)
    from Cons.prems(2) obtain m1 ev1 where c: "lib c m = Inr m1"
      and r: "run_steps lib solve ss m1 = Inr (m', ev1)" and ev: "ev = Called c m # ev1"
      unfolding Call run_steps_Call by blast
    from Cons.prems(1) have l: "list_all quiet_step ss" by simp
    from Cons.IH[OF l r] lib_watched[OF assms c] Call ev show ?thesis by simp
  next
    case Solver_solve
    with Cons.prems show ?thesis by simp
  qed
qed

lemma quiet_boiler: "list_all quiet_step init_boiler"
  by (simp add: init_boiler_def is_split_fraction_def)

lemma quiet_propagation: "list_all quiet_step init_propagation"
  by (simp add: init_propagation_def init_turbine_train_def init_condenser_def
        init_low_pressure_fwh_def init_deaerator_bfp_def init_high_pressure_fwh_def
        is_split_fraction_def)

lemma fix_part:
  assumes "run_steps lib solve init_fix_split_fractions m = Inr (m', ev)"
  shows "ev = [] \<and> cons m' = cons m \<and>
         (\<forall>p. fixed (vars m' p) = (p \<in> set estimated_split_fractions \<or> fixed (vars m p)))"
proof -
  from assms have ev: "ev = []" and m': "m' =
     apply_stmt (Fix [''t8_splitter'', ''split_fraction'', ''outlet_2''] 0.00121)
      (apply_stmt (Fix [''t7_splitter'', ''split_fraction'', ''outlet_2''] 0.0154)
       (apply_stmt (Fix [''t6_splitter'', ''split_fraction'', ''outlet_2''] 0.017535)
        (apply_stmt (Fix [''t5_splitter'', ''split_fraction'', ''outlet_2''] 0.0381443)
         (apply_stmt (Fix [''t4_splitter'', ''split_fraction'', ''outlet_1''] 0.9019)
          (apply_stmt (Fix [''t3_splitter'', ''split_fraction'', ''outlet_2''] 0.03815)
           (apply_stmt (Fix [''t2_splitter'', ''split_fraction'', ''outlet_2''] 0.061824)
            (apply_stmt (Fix [''t1_splitter'', ''split_fraction'', ''outlet_2''] 0.12812)
              m)))))))"
    by (simp_all add: init_fix_split_fractions_def)
  have c: "cons m' = cons m"
    unfolding m' by (simp add: fun_eq_iff cons_apply_stmt)
  have v: "fixed (vars m' p) = (p \<in> set estimated_split_fractions \<or> fixed (vars m p))" for p
    unfolding m' vars_apply_stmt estimated_split_fractions_def
    by (simp add: fix_var_def)
  from ev c v show ?thesis by blast
qed

lemma unfix_part:
  assumes "run_steps lib solve init_unfix_split_fractions m = Inr (m', ev)"
  shows "ev = [] \<and> cons m' = cons m \<and>
         (\<forall>p. fixed (vars m' p) = (p \<notin> set estimated_split_fractions \<and> fixed (vars m p)))"
proof -
  from assms have ev: "ev = []" and m': "m' =
     apply_stmt (Unfix [''t8_splitter'', ''split_fraction'', ''outlet_2''])
      (apply_stmt (Unfix [''t7_splitter'', ''split_fraction'', ''outlet_2''])
       (apply_stmt (Unfix [''t6_splitter'', ''split_fraction'', ''outlet_2''])
        (apply_stmt (Unfix [''t5_splitter'', ''split_fraction'', ''outlet_2''])
         (apply_stmt (Unfix [''t4_splitter'', ''split_fraction'', ''outlet_1''])
          (apply_stmt (Unfix [''t3_splitter'', ''split_fraction'', ''outlet_2''])
           (apply_stmt (Unfix [''t2_splitter'', ''split_fraction'', ''outlet_2''])
            (apply_stmt (Unfix [''t1_splitter'', ''split_fraction'', ''outlet_2''])
              m)))))))"
    by (simp_all add: init_unfix_split_fractions_def)
  have c: "cons m' = cons m"
    unfolding m' by (simp add: fun_eq_iff cons_apply_stmt)
  have v: "fixed (vars m' p) = (p \<notin> set estimated_split_fractions \<and> fixed (vars m p))" for p
    unfolding m' vars_apply_stmt estimated_split_fractions_def
    by (simp add: unfix_var_def)
  from ev c v show ?thesis by blast
qed

lemma deactivate_part:
  assumes "run_steps lib solve init_deactivate m = Inr (m', ev)"
  shows "ev = [] \<and> vars m' = vars m \<and>
         (\<forall>c. cons m' c = (c \<notin> set decoupled_constraints \<and> cons m c))"
proof -
  from assms have ev: "ev = []" and m': "m' =
     apply_stmt (Deactivate [''fwh8'', ''fwh8_vaporfrac_constraint''])
      (apply_stmt (Deactivate [''fwh7'', ''fwh7_vaporfrac_constraint''])
       (apply_stmt (Deactivate [''fwh6'', ''fwh6_vaporfrac_constraint''])
        (apply_stmt (Deactivate [''fwh4'', ''fwh4_vaporfrac_constraint''])
         (apply_stmt (Deactivate [''fwh3'', ''fwh3_vaporfrac_constraint''])
          (apply_stmt (Deactivate [''fwh2'', ''fwh2_vaporfrac_constraint''])
           (apply_stmt (Deactivate [''fwh1'', ''fwh1_vaporfrac_constraint''])
            (apply_stmt (Deactivate [''constraint_out_pressure'']) m)))))))"
    by (simp_all add: init_deactivate_def)
  have v: "vars m' = vars m"
    unfolding m' by (simp add: fun_eq_iff vars_apply_stmt)
  have c: "cons m' c = (c \<notin> set decoupled_constraints \<and> cons m c)" for c
    unfolding m' cons_apply_stmt decoupled_constraints_def
    by simp
  from ev c v show ?thesis by blast
qed

lemma activate_part:
  assumes "run_steps lib solve init_activate m = Inr (m', ev)"
  shows "ev = [] \<and> vars m' = vars m \<and>
         (\<forall>c. cons m' c = (c \<in> set decoupled_constraints \<or> cons m c))"
proof -
  from assms have ev: "ev = []" and m': "m' =
     apply_stmt (Activate [''fwh8'', ''fwh8_vaporfrac_constraint''])
      (apply_stmt (Activate [''fwh7'', ''fwh7_vaporfrac_constraint''])
       (apply_stmt (Activate [''fwh6'', ''fwh6_vaporfrac_constraint''])
        (apply_stmt (Activate [''fwh4'', ''fwh4_vaporfrac_constraint''])
         (apply_stmt (Activate [''fwh3'', ''fwh3_vaporfrac_constraint''])
          (apply_stmt (Activate [''fwh2'', ''fwh2_vaporfrac_constraint''])
           (apply_stmt (Activate [''fwh1'', ''fwh1_vaporfrac_constraint''])
            (apply_stmt (Activate [''constraint_out_pressure'']) m)))))))"
    by (simp_all add: init_activate_def)
  have v: "vars m' = vars m"
    unfolding m' by (simp add: fun_eq_iff vars_apply_stmt)
  have c: "cons m' c = (c \<in> set decoupled_constraints \<or> cons m c)" for c
    unfolding m' cons_apply_stmt decoupled_constraints_def
    by simp
  from ev c v show ?thesis by blast
qed

lemma solve_part:
  assumes "run_steps lib solve [Solver_solve] m = Inr (m', ev)"
  shows "\<exists>tc. ev = [Solved m tc]"
  using assms by (auto simp: run_steps.simps(2) and_then_eq_Inr)




lemma initialize_body_split: "initialize_body = init_before_solve @ [Solver_solve]"
  by (simp add: initialize_body_def init_before_solve_def)

lemma initialize_flowsheet_Inr:
  "initialize_flowsheet lib solve m = Inr (mF, ev) \<longleftrightarrow>
     (\<exists>sF ev0 tc. run_steps lib solve init_before_solve m = Inr (sF, ev0) \<and>
        solve sF = Inr (mF, tc) \<and> ev = ev0 @ [Solved sF tc])"
  unfolding initialize_flowsheet_def initialize_body_split run_steps_append
  by (auto simp: run_steps.simps(2) and_then_eq_Inr)

lemma decoupled_bfp: "[''constraint_bfp_power''] \<notin> set decoupled_constraints"
  by (simp add: decoupled_constraints_def)

lemma estimated_are_split: "p \<in> set estimated_split_fractions \<Longrightarrow> is_split_fraction p"
  by (auto simp: estimated_split_fractions_def is_split_fraction_def)

lemma flowsheet_phases:
  assumes frame: "lib_keeps_status lib"
    and run: "initialize_flowsheet lib solve m = Inr (mF, ev)"
  shows "\<exists>evA evD sF tc.
           ev = evA @ evD @ [Solved sF tc] \<and> solve sF = Inr (mF, tc) \<and>
           map event_call evA = map Some (calls_of init_boiler) \<and>
           map event_call evD = map Some (calls_of init_propagation) \<and>
           list_all (quiet_event (watched m)) evA \<and>
           list_all (decoupled_at m) evD \<and> recoupled m sF"
proof -
  from run obtain sF ev0 tc where
    r0: "run_steps lib solve init_before_solve m = Inr (sF, ev0)"
    and sv: "solve sF = Inr (mF, tc)" and ev: "ev = ev0 @ [Solved sF tc]"
    unfolding initialize_flowsheet_Inr by blast
  from r0 obtain mA evA mB evB mC evC mD evD mE evE evF where
    rA: "run_steps lib solve init_boiler m = Inr (mA, evA)"
    and rB: "run_steps lib solve init_fix_split_fractions mA = Inr (mB, evB)"
    and rC: "run_steps lib solve init_deactivate mB = Inr (mC, evC)"
    and rD: "run_steps lib solve init_propagation mC = Inr (mD, evD)"
    and rE: "run_steps lib solve init_unfix_split_fractions mD = Inr (mE, evE)"
    and rF: "run_steps lib solve init_activate mE = Inr (sF, evF)"
    and ev0: "ev0 = evA @ evB @ evC @ evD @ evE @ evF"
    unfolding init_before_solve_def run_steps_append by blast
  from run_quiet[OF frame quiet_boiler rA]
  have wA: "watched mA = watched m" and qA: "list_all (quiet_event (watched m)) evA"
    and cA: "map event_call evA = map Some (calls_of init_boiler)" by simp_all
  from fix_part[OF rB] have evB: "evB = []" and cB: "cons mB = cons mA"
    and vB: "\<And>p. fixed (vars mB p) = (p \<in> set estimated_split_fractions \<or> fixed (vars mA p))"
    by simp_all
  from deactivate_part[OF rC] have evC: "evC = []" and vC: "vars mC = vars mB"
    and cC: "\<And>c. cons mC c = (c \<notin> set decoupled_constraints \<and> cons mB c)"
    by simp_all
  from run_quiet[OF frame quiet_propagation rD]
  have wD: "watched mD = watched mC" and qD: "list_all (quiet_event (watched mC)) evD"
    and cD: "map event_call evD = map Some (calls_of init_propagation)" by simp_all
  from unfix_part[OF rE] have evE: "evE = []" and cE: "cons mE = cons mD"
    and vE: "\<And>p. fixed (vars mE p) = (p \<notin> set estimated_split_fractions \<and> fixed (vars mD p))"
    by simp_all
  from activate_part[OF rF] have evF: "evF = []" and vF: "vars sF = vars mE"
    and cF: "\<And>c. cons sF c = (c \<in> set decoupled_constraints \<or> cons mE c)"
    by simp_all
  from wA have consA: "cons mA = cons m"
    and splA: "\<And>p. is_split_fraction p \<Longrightarrow> fixed (vars mA p) = fixed (vars m p)"
    by (simp_all add: watched_eq)
  from wD have consD: "cons mD = cons mC"
    and splD: "\<And>p. is_split_fraction p \<Longrightarrow> fixed (vars mD p) = fixed (vars mC p)"
    by (simp_all add: watched_eq)
  have dec: "decoupled m s" if "watched s = watched mC" for s
  proof -
    from that have cs: "cons s = cons mC"
      and sp: "\<And>p. is_split_fraction p \<Longrightarrow> fixed (vars s p) = fixed (vars mC p)"
      by (simp_all add: watched_eq)
    have 1: "list_all (\<lambda>c. \<not> cons s c) decoupled_constraints"
      by (simp add: list_all_iff cs cC)
    have 2: "list_all (\<lambda>p. fixed (vars s p)) estimated_split_fractions"
      by (simp add: list_all_iff sp estimated_are_split vC vB)
    have 3: "cons s [''constraint_bfp_power''] = cons m [''constraint_bfp_power'']"
      by (simp add: cs cC decoupled_bfp cB consA)
    from 1 2 3 show ?thesis by (simp add: decoupled_def)
  qed
  have dD: "list_all (decoupled_at m) evD"
    unfolding list_all_iff
  proof
    fix e assume "e \<in> set evD"
    with qD have "quiet_event (watched mC) e" by (simp add: list_all_iff)
    then show "decoupled_at m e" by (cases e) (simp_all add: dec)
  qed
  have rc: "recoupled m sF"
    unfolding recoupled_def
  proof (intro conjI allI impI)
    fix c show "cons sF c = (c \<in> set decoupled_constraints \<or> cons m c)"
      by (auto simp: cF cE consD cC cB consA)
  next
    fix p assume sp: "is_split_fraction p"
    show "fixed (vars sF p) = (p \<notin> set estimated_split_fractions \<and> fixed (vars m p))"
      by (auto simp: vF vE splD[OF sp] vC vB splA[OF sp])
  qed
  have "ev = evA @ evD @ [Solved sF tc]"
    by (simp add: ev ev0 evB evC evE evF)
  with sv cA cD qA dD rc show ?thesis by blast
qed

lemma run_steps_total:
  assumes "\<And>c m. \<exists>m'. lib c m = Inr m'" "\<And>m. \<exists>r. solve m = Inr r"
  shows "\<exists>r. run_steps lib solve ss m = Inr r"
proof (induction ss arbitrary: m)
  case Nil
  show ?case by simp
next
  case (Cons s ss)
  show ?case
  proof (cases s)
    case (Do st)
    with Cons show ?thesis by simp
  next
    case (Call c)
    from assms(1) obtain m1 where c: "lib c m = Inr m1" by blast
    from Cons[of m1] obtain r where "run_steps lib solve ss m1 = Inr r" by blast
    with c Call show ?thesis by (cases r) (simp add: run_steps.simps(2))
  next
    case Solver_solve
    from assms(2) obtain r1 where s: "solve m = Inr r1" by blast
    obtain m1 tc where r1: "r1 = (m1, tc)" by (cases r1)
    from Cons[of m1] obtain r where "run_steps lib solve ss m1 = Inr r" by blast
    with s r1 Solver_solve show ?thesis by (cases r) (simp add: run_steps.simps(2))
  qed
qed

lemma example_flowsheet_returns:
  "\<exists>mF ev. initialize_flowsheet example_library example_fs_solver m = Inr (mF, ev)"
proof -
  have "\<exists>r. run_steps example_library example_fs_solver initialize_body m = Inr r"
    by (rule run_steps_total) (simp_all add: example_library_def example_fs_solver_def)
  then show ?thesis by (auto simp: initialize_flowsheet_def)
qed

lemma example_library_keeps: "lib_keeps_status example_library"
  by (simp add: lib_keeps_status_def example_library_def)

lemma cons_set_model_input: "cons (set_model_input m) c = cons m c"
  unfolding set_model_input_def cons_foldl set_model_input_body_def by simp

lemma calls_of_propagation_nonempty: "calls_of init_propagation \<noteq> []"
  by (simp add: init_propagation_def init_turbine_train_def)

lemma quiet_event_cons:
  "quiet_event (watched m) e \<Longrightarrow> active_at c e = cons m c"
  by (cases e) (auto simp: watched_eq)

lemma decoupled_at_bfp:
  "decoupled_at m e \<Longrightarrow> active_at [''constraint_bfp_power''] e = cons m [''constraint_bfp_power'']"
  by (cases e) (auto simp: decoupled_def)

lemma decoupled_at_out:
  "decoupled_at m e \<Longrightarrow> \<not> active_at [''constraint_out_pressure''] e"
  by (cases e) (auto simp: decoupled_def decoupled_constraints_def)

subsection \<open>C2: what is decoupled for the unit-by-unit solves, and recoupled after them\<close>

text \<open>
  C2, as amended.  Let the library calls change no \<open>fixed\<close> and no \<open>active\<close> flag, and
  let \<open>initialize\<close> return.  Its events are then the calls of lines 771-785 (scaling
  and the boiler), the calls of lines 813-985 (the unit-by-unit solves) and the final
  \<open>solver.solve\<close>.  Every call of the unit-by-unit solves finds the model decoupled:
  \<open>constraint_out_pressure\<close> and the seven \<open>fwhN_vaporfrac_constraint\<close> inactive, the
  eight estimated split fractions fixed, and the power balance \<open>constraint_bfp_power\<close>
  as active as it was before \<open>initialize\<close>.  The final solve finds exactly those eight
  constraints active again and every other constraint as before \<open>initialize\<close>, the
  eight estimated split fractions free and every other split fraction (among them the
  one of the deaerator extraction, fixed by \<open>set_model_input\<close>) fixed or free as before.
\<close>

theorem flowsheet_decoupling_and_reactivation:
  assumes "lib_keeps_status lib" and "initialize_flowsheet lib solve m = Inr (mF, ev)"
  shows "\<exists>evA evD sF tc.
           ev = evA @ evD @ [Solved sF tc] \<and>
           map event_call evA = map Some (calls_of init_boiler) \<and>
           map event_call evD = map Some (calls_of init_propagation) \<and>
           list_all (decoupled_at m) evD \<and> recoupled m sF"
  using flowsheet_phases[OF assms] by blast

text \<open>The fresh model after \<open>set_model_input\<close>, with a library and a solver that
  return the model as it is.\<close>

theorem flowsheet_decoupling_and_reactivation_witness:
  "lib_keeps_status example_library \<and>
   (\<exists>mF ev. initialize_flowsheet example_library example_fs_solver example_plant = Inr (mF, ev) \<and>
      (\<exists>evA evD sF tc.
           ev = evA @ evD @ [Solved sF tc] \<and>
           map event_call evA = map Some (calls_of init_boiler) \<and>
           map event_call evD = map Some (calls_of init_propagation) \<and>
           list_all (decoupled_at example_plant) evD \<and> recoupled example_plant sF))"
proof -
  obtain mF ev where
    run: "initialize_flowsheet example_library example_fs_solver example_plant = Inr (mF, ev)"
    using example_flowsheet_returns by blast
  from flowsheet_decoupling_and_reactivation[OF example_library_keeps run] run
    example_library_keeps
  show ?thesis by blast
qed

text \<open>
  The claim as written names the power balance between the boiler feed pump and its
  turbine among the deactivated constraints.  On the same run \<open>constraint_bfp_power\<close>
  is active at every library call and at the final solve; the constraint that is
  switched off and on again next to the feedwater-heater constraints is
  \<open>constraint_out_pressure\<close>.
\<close>

theorem flowsheet_power_balance_counterexample:
  "always_active [''constraint_bfp_power'']
     (initialize_flowsheet example_library example_fs_solver example_plant) \<and>
   \<not> always_active [''constraint_out_pressure'']
     (initialize_flowsheet example_library example_fs_solver example_plant) \<and>
   active_for_solve [''constraint_out_pressure'']
     (initialize_flowsheet example_library example_fs_solver example_plant)"
proof -
  obtain mF ev where
    run: "initialize_flowsheet example_library example_fs_solver example_plant = Inr (mF, ev)"
    using example_flowsheet_returns by blast
  from flowsheet_phases[OF example_library_keeps run] obtain evA evD sF tc where
    ev: "ev = evA @ evD @ [Solved sF tc]"
    and cD: "map event_call evD = map Some (calls_of init_propagation)"
    and qA: "list_all (quiet_event (watched example_plant)) evA"
    and dD: "list_all (decoupled_at example_plant) evD"
    and rc: "recoupled example_plant sF"
    by blast
  have bfp: "cons example_plant [''constraint_bfp_power'']"
    by (simp add: example_plant_def cons_set_model_input fresh_model_def)
  have a1: "list_all (active_at [''constraint_bfp_power'']) evA"
    using qA bfp by (auto simp: list_all_iff dest: quiet_event_cons simp del: active_at.simps)
  have a2: "list_all (active_at [''constraint_bfp_power'']) evD"
    using dD bfp by (auto simp: list_all_iff dest: decoupled_at_bfp simp del: active_at.simps)
  have a3: "active_at [''constraint_bfp_power''] (Solved sF tc)"
    using rc bfp by (simp add: recoupled_def)
  have 1: "always_active [''constraint_bfp_power'']
     (initialize_flowsheet example_library example_fs_solver example_plant)"
    unfolding run ev using a1 a2 a3 by (simp del: active_at.simps)
  from cD calls_of_propagation_nonempty obtain e evD' where evD: "evD = e # evD'"
    by (cases evD) auto
  with dD have "\<not> active_at [''constraint_out_pressure''] e"
    by (auto dest: decoupled_at_out simp del: active_at.simps)
  then have 2: "\<not> always_active [''constraint_out_pressure'']
     (initialize_flowsheet example_library example_fs_solver example_plant)"
    unfolding run ev evD by (simp del: active_at.simps)
  have 3: "active_for_solve [''constraint_out_pressure'']
     (initialize_flowsheet example_library example_fs_solver example_plant)"
    unfolding run ev using rc by (simp add: recoupled_def decoupled_constraints_def)
  from 1 2 3 show ?thesis by blast
qed


section \<open>Properties of both initialisation routines\<close>

subsection \<open>Auxiliary facts\<close>


























subsection \<open>C6: a solve that is not optimal is reported and nothing else\<close>



end
